(* ===== verification/Prelude.thy ===== *)
theory Prelude
  imports Main
begin

text \<open>
  Shared vocabulary of the development: the theorem collections, the lemmas on lists of rows
  (a database table is a list of rows, a query a search, an update a selective map), the
  64-bit integer arithmetic of Go's \<open>int64\<close> and \<open>time.Duration\<close>, and the decimal
  text of integers that \<open>fmt\<close> and \<open>strconv\<close> print and parse.
\<close>

named_theorems rows \<open>laws of searching, updating and inserting table rows\<close>
named_theorems exec \<open>equations that evaluate statements, transactions and programs\<close>
named_theorems frame \<open>what an operation leaves unchanged\<close>

subsection \<open>Tables as lists of rows\<close>

text \<open>\<open>UPDATE t SET f WHERE P\<close>: every row that satisfies \<open>P\<close> is rewritten by \<open>f\<close>.\<close>

definition update_where :: "('r \<Rightarrow> bool) \<Rightarrow> ('r \<Rightarrow> 'r) \<Rightarrow> 'r list \<Rightarrow> 'r list" where
  "update_where P f rs = map (\<lambda>r. if P r then f r else r) rs"

text \<open>The number of rows an \<open>UPDATE\<close> affects.\<close>

definition rows_affected :: "('r \<Rightarrow> bool) \<Rightarrow> 'r list \<Rightarrow> nat" where
  "rows_affected P rs = length (filter P rs)"

lemma set_update_where [rows]:
  "set (update_where P f rs) = {r \<in> set rs. \<not> P r} \<union> f ` {r \<in> set rs. P r}"
  by (auto simp: update_where_def)

lemma update_where_Nil [simp]: "update_where P f [] = []"
  by (simp add: update_where_def)

lemma update_where_Cons [simp]:
  "update_where P f (r # rs) = (if P r then f r else r) # update_where P f rs"
  by (simp add: update_where_def)

lemma length_update_where [simp]: "length (update_where P f rs) = length rs"
  by (simp add: update_where_def)

lemma map_update_where [rows]:
  assumes "\<And>r. r \<in> set rs \<Longrightarrow> P r \<Longrightarrow> key (f r) = key r"
  shows "map key (update_where P f rs) = map key rs"
  using assms by (auto simp: update_where_def)

lemma update_where_absent [rows]: "(\<And>r. r \<in> set rs \<Longrightarrow> \<not> P r) \<Longrightarrow> update_where P f rs = rs"
  by (induction rs) auto

lemma rows_affected_pos [rows]: "0 < rows_affected P rs \<longleftrightarrow> (\<exists>r \<in> set rs. P r)"
  by (auto simp: rows_affected_def filter_empty_conv)

lemma find_in_set: "find P rs = Some r \<Longrightarrow> r \<in> set rs \<and> P r"
  by (induction rs) (auto split: if_splits)

lemma find_none: "find P rs = None \<Longrightarrow> r \<in> set rs \<Longrightarrow> \<not> P r"
  by (induction rs) (auto split: if_splits)

lemma find_append: "find P (rs @ ss) = (case find P rs of None \<Rightarrow> find P ss | Some r \<Rightarrow> Some r)"
  by (induction rs) auto

lemma find_isSome: "r \<in> set rs \<Longrightarrow> P r \<Longrightarrow> \<exists>r'. find P rs = Some r'"
  by (induction rs) auto

text \<open>A search by a key finds the row with that key, when keys are distinct.\<close>

lemma distinct_map_unique:
  "distinct (map key rs) \<Longrightarrow> r \<in> set rs \<Longrightarrow> s \<in> set rs \<Longrightarrow> key r = key s \<Longrightarrow> r = s"
  by (auto simp: distinct_map inj_on_def)

lemma find_key [rows]:
  "distinct (map key rs) \<Longrightarrow> r \<in> set rs \<Longrightarrow> find (\<lambda>x. key x = key r) rs = Some r"
  by (induction rs) force+

lemma find_key_eq [rows]:
  "distinct (map key rs) \<Longrightarrow> r \<in> set rs \<Longrightarrow> key r = k \<Longrightarrow> find (\<lambda>x. key x = k) rs = Some r"
  using find_key by force

lemma find_update_where [rows]:
  assumes "\<And>r. r \<in> set rs \<Longrightarrow> P r \<Longrightarrow> Q (f r) = Q r"
  shows "find Q (update_where P f rs) = map_option (\<lambda>r. if P r then f r else r) (find Q rs)"
  using assms by (induction rs) auto

lemma filter_length_le_one:
  "length (filter P rs) \<le> 1 \<Longrightarrow> r \<in> set rs \<Longrightarrow> s \<in> set rs \<Longrightarrow> P r \<Longrightarrow> P s \<Longrightarrow> r = s"
proof (induction rs)
  case Nil
  then show ?case by simp
next
  case (Cons x rs)
  show ?case
  proof (cases "P x")
    case True
    with Cons.prems(1) have "filter P rs = []" by simp
    then have "\<forall>y \<in> set rs. \<not> P y" by (simp add: filter_empty_conv)
    with Cons.prems show ?thesis by auto
  next
    case False
    with Cons show ?thesis by auto
  qed
qed

subsection \<open>Go's 64-bit integers\<close>

definition min_int64 :: int where "min_int64 = - (2 ^ 63)"
definition max_int64 :: int where "max_int64 = 2 ^ 63 - 1"

definition in_int64 :: "int \<Rightarrow> bool" where
  "in_int64 x \<longleftrightarrow> min_int64 \<le> x \<and> x \<le> max_int64"

text \<open>Two's complement wrap-around, the result of \<open>int64\<close> arithmetic.\<close>

definition wrap64 :: "int \<Rightarrow> int" where
  "wrap64 x = (x + 2 ^ 63) mod 2 ^ 64 - 2 ^ 63"

text \<open>Saturation, the result of \<open>time.Time.Sub\<close>.\<close>

definition sat64 :: "int \<Rightarrow> int" where
  "sat64 x = max min_int64 (min max_int64 x)"

lemmas int64_defs = min_int64_def max_int64_def in_int64_def wrap64_def sat64_def

lemma wrap64_id: "in_int64 x \<Longrightarrow> wrap64 x = x"
  by (simp add: int64_defs)

lemma wrap64_in_int64 [simp]: "in_int64 (wrap64 x)"
  by (simp add: int64_defs)

lemma wrap64_wrap64_add: "wrap64 (wrap64 x + y) = wrap64 (x + y)"
proof -
  have "(x + 2 ^ 63) mod 2 ^ 64 - 2 ^ 63 + y + 2 ^ 63 = (x + 2 ^ 63) mod 2 ^ 64 + y"
    by simp
  then have "wrap64 (wrap64 x + y) = ((x + 2 ^ 63) mod 2 ^ 64 + y) mod 2 ^ 64 - 2 ^ 63"
    by (simp add: wrap64_def)
  also have "\<dots> = wrap64 (x + y)"
    unfolding mod_add_left_eq wrap64_def by (simp add: algebra_simps)
  finally show ?thesis .
qed

lemma wrap64_neg_min: "wrap64 (- min_int64) = min_int64"
  by (simp add: int64_defs)

lemma sat64_id: "in_int64 x \<Longrightarrow> sat64 x = x"
  by (auto simp: int64_defs)

lemma sat64_low: "x \<le> min_int64 \<Longrightarrow> sat64 x = min_int64"
  by (auto simp: int64_defs)

subsection \<open>Decimal text\<close>

definition digit :: "nat \<Rightarrow> char" where
  "digit d = char_of (48 + d)"

fun show_nat :: "nat \<Rightarrow> string" where
  "show_nat n = (if n < 10 then [digit n] else show_nat (n div 10) @ [digit (n mod 10)])"

declare show_nat.simps [simp del]

text \<open>\<open>%d\<close> of \<open>fmt\<close>.\<close>

definition show_int :: "int \<Rightarrow> string" where
  "show_int i = (if i < 0 then CHR ''-'' # show_nat (nat (- i)) else show_nat (nat i))"

definition is_digit :: "char \<Rightarrow> bool" where
  "is_digit c \<longleftrightarrow> 48 \<le> (of_char c :: nat) \<and> (of_char c :: nat) \<le> 57"

definition digit_value :: "char \<Rightarrow> nat" where
  "digit_value c = of_char c - 48"

text \<open>The value of a non-empty string of digits.\<close>

definition parse_digits :: "string \<Rightarrow> nat option" where
  "parse_digits s =
     (if s \<noteq> [] \<and> list_all is_digit s then Some (foldl (\<lambda>n c. 10 * n + digit_value c) 0 s)
      else None)"

text \<open>\<open>strconv.ParseInt(s, 10, 64)\<close>: an optional sign, digits, and the range check.\<close>

definition ParseInt64 :: "string \<Rightarrow> int option" where
  "ParseInt64 s =
     (case s of
        [] \<Rightarrow> None
      | c # cs \<Rightarrow>
          (let (neg, ds) = (if c = CHR ''-'' then (True, cs)
                            else if c = CHR ''+'' then (False, cs) else (False, s))
           in case parse_digits ds of
                None \<Rightarrow> None
              | Some n \<Rightarrow>
                  (let i = (if neg then - int n else int n) in if in_int64 i then Some i else None)))"

lemma digit_props:
  assumes "d < 10"
  shows "is_digit (digit d)" and "digit_value (digit d) = d"
  using assms by (simp_all add: is_digit_def digit_value_def digit_def of_char_of)

lemma show_nat_neq_Nil [simp]: "show_nat n \<noteq> []"
  by (subst show_nat.simps) simp

lemma show_nat_digits: "list_all is_digit (show_nat n)"
proof (induction n rule: show_nat.induct)
  case (1 n)
  then show ?case
    by (subst show_nat.simps) (auto simp: digit_props)
qed

lemma foldl_show_nat: "foldl (\<lambda>n c. 10 * n + digit_value c) 0 (show_nat n) = n"
proof (induction n rule: show_nat.induct)
  case (1 n)
  then show ?case
    by (subst show_nat.simps) (auto simp: digit_props)
qed

lemma parse_show_nat: "parse_digits (show_nat n) = Some n"
  by (simp add: parse_digits_def show_nat_digits foldl_show_nat)

lemma show_nat_no_sign:
  assumes "show_nat n = c # cs"
  shows "c \<noteq> CHR ''-''" and "c \<noteq> CHR ''+''"
proof -
  from show_nat_digits [of n] assms have "is_digit c" by simp
  then show "c \<noteq> CHR ''-''" and "c \<noteq> CHR ''+''" by (auto simp: is_digit_def)
qed

lemma parse_show_int: "in_int64 i \<Longrightarrow> ParseInt64 (show_int i) = Some i"
proof (cases "i < 0")
  case True
  assume "in_int64 i"
  with True show ?thesis
    by (simp add: ParseInt64_def show_int_def parse_show_nat)
next
  case False
  assume i: "in_int64 i"
  obtain c cs where s: "show_nat (nat i) = c # cs"
    by (cases "show_nat (nat i)") auto
  have p: "parse_digits (c # cs) = Some (nat i)"
    using parse_show_nat [of "nat i"] s by simp
  from False i p show_nat_no_sign [OF s] show ?thesis
    by (simp add: ParseInt64_def show_int_def s)
qed

lemma dot_not_digit: "\<not> is_digit CHR ''.''"
  by (simp add: is_digit_def)

lemma show_nat_no_newline [simp]: "CHR 0x0A \<notin> set (show_nat n)"
proof
  assume "CHR 0x0A \<in> set (show_nat n)"
  with show_nat_digits [of n] have "is_digit CHR 0x0A"
    by (simp add: list_all_iff)
  then show False by (simp add: is_digit_def)
qed

lemma show_nat_no_dot: "CHR ''.'' \<notin> set (show_nat n)"
proof
  assume "CHR ''.'' \<in> set (show_nat n)"
  with show_nat_digits [of n] have "is_digit CHR ''.''"
    unfolding list_all_iff by (rule bspec)
  with dot_not_digit show False ..
qed

lemma show_int_no_dot: "CHR ''.'' \<notin> set (show_int i)"
  using show_nat_no_dot [of "nat i"] show_nat_no_dot [of "nat (- i)"]
  unfolding show_int_def by (cases "i < 0") (simp_all del: of_char_of)

lemma show_int_inject:
  assumes "in_int64 i" and "in_int64 j" and "show_int i = show_int j"
  shows "i = j"
proof -
  have "Some i = ParseInt64 (show_int i)" using parse_show_int [OF assms(1)] by (rule sym)
  also have "\<dots> = ParseInt64 (show_int j)" by (simp only: assms(3))
  also have "\<dots> = Some j" by (rule parse_show_int [OF assms(2)])
  finally show ?thesis by (rule option.inject [THEN iffD1])
qed

text \<open>The part of a string before the first separator is determined by the whole.\<close>

lemma append_sep_inject:
  assumes "xs @ c # ys = xs' @ c # ys'" and "c \<notin> set xs" and "c \<notin> set xs'"
  shows "xs = xs' \<and> ys = ys'"
  using assms
proof (induction xs arbitrary: xs')
  case Nil
  then show ?case by (cases xs') auto
next
  case (Cons x xs)
  then show ?case by (cases xs') auto
qed

end
