(* ===== verification/Model.thy ===== *)
theory Model
  imports Prelude
begin

text \<open>
  The data of the gateway: the structs of \<open>internal/model\<close> as records (one field prefix per
  struct), their status strings as datatypes, the errors the packages return, and the
  database whose tables the migrations create. A \<open>*string\<close> or \<open>*time.Time\<close> is an
  option; \<open>time.Time\<close> is the number of nanoseconds since the Unix epoch; an \<open>int64\<close> is
  an integer. A table is the list of its rows in the order of insertion.
\<close>

type_synonym time = int

subsection \<open>Status values\<close>

text \<open>
  \<open>InvoiceStatus\<close> is a string type in the code, and \<open>payableInvoice\<close> has a default case
  for any other string: the last constructor.
\<close>

datatype InvoiceStatus =
    InvoiceStatusDraft
  | InvoiceStatusOpen
  | InvoiceStatusPaid
  | InvoiceStatusVoid
  | InvoiceStatusUncollectible
  | InvoiceStatusOther string

datatype PaymentAttemptStatus =
    PaymentAttemptStatusPending
  | PaymentAttemptStatusSucceeded
  | PaymentAttemptStatusFailed

datatype WebhookEventStatus =
    WebhookEventStatusPending
  | WebhookEventStatusProcessed
  | WebhookEventStatusFailed

datatype OutboundEventStatus =
    OutboundEventStatusPending
  | OutboundEventStatusDelivering
  | OutboundEventStatusDelivered
  | OutboundEventStatusFailed

definition EventTypePaymentSucceeded :: string where
  "EventTypePaymentSucceeded = ''payment.succeeded''"

definition EventTypePaymentFailed :: string where
  "EventTypePaymentFailed = ''payment.failed''"

text \<open>
  The life cycles as partial orders: \<open>s \<le> t\<close> when the life cycle leads from \<open>s\<close> to
  \<open>t\<close>. An invoice goes from draft to open to one of three final states; an attempt goes
  from pending to one of two.
\<close>

instantiation InvoiceStatus :: order
begin

fun less_eq_InvoiceStatus :: "InvoiceStatus \<Rightarrow> InvoiceStatus \<Rightarrow> bool" where
  "less_eq_InvoiceStatus InvoiceStatusDraft t \<longleftrightarrow> (case t of InvoiceStatusOther _ \<Rightarrow> False | _ \<Rightarrow> True)"
| "less_eq_InvoiceStatus InvoiceStatusOpen t \<longleftrightarrow>
     (case t of InvoiceStatusDraft \<Rightarrow> False | InvoiceStatusOther _ \<Rightarrow> False | _ \<Rightarrow> True)"
| "less_eq_InvoiceStatus s t \<longleftrightarrow> s = t"

definition less_InvoiceStatus :: "InvoiceStatus \<Rightarrow> InvoiceStatus \<Rightarrow> bool" where
  "less_InvoiceStatus s t \<longleftrightarrow> s \<le> t \<and> \<not> t \<le> s"

instance
proof
  fix x y z :: InvoiceStatus
  show "(x < y) = (x \<le> y \<and> \<not> y \<le> x)" by (rule less_InvoiceStatus_def)
  show "x \<le> x" by (cases x) auto
  show "x \<le> y \<Longrightarrow> y \<le> z \<Longrightarrow> x \<le> z" by (cases x; cases y; cases z) auto
  show "x \<le> y \<Longrightarrow> y \<le> x \<Longrightarrow> x = y" by (cases x; cases y) auto
qed

end

instantiation PaymentAttemptStatus :: order
begin

fun less_eq_PaymentAttemptStatus :: "PaymentAttemptStatus \<Rightarrow> PaymentAttemptStatus \<Rightarrow> bool" where
  "less_eq_PaymentAttemptStatus PaymentAttemptStatusPending t \<longleftrightarrow> True"
| "less_eq_PaymentAttemptStatus s t \<longleftrightarrow> s = t"

definition less_PaymentAttemptStatus :: "PaymentAttemptStatus \<Rightarrow> PaymentAttemptStatus \<Rightarrow> bool" where
  "less_PaymentAttemptStatus s t \<longleftrightarrow> s \<le> t \<and> \<not> t \<le> s"

instance
proof
  fix x y z :: PaymentAttemptStatus
  show "(x < y) = (x \<le> y \<and> \<not> y \<le> x)" by (rule less_PaymentAttemptStatus_def)
  show "x \<le> x" by (cases x) auto
  show "x \<le> y \<Longrightarrow> y \<le> z \<Longrightarrow> x \<le> z" by (cases x; cases y; cases z) auto
  show "x \<le> y \<Longrightarrow> y \<le> x \<Longrightarrow> x = y" by (cases x; cases y) auto
qed

end

lemma attempt_pending_le [simp]: "PaymentAttemptStatusPending \<le> s"
  by simp

subsection \<open>Records\<close>

record Business =
  biz_ID :: string
  biz_Name :: string
  biz_WebhookURL :: "string option"
  biz_WebhookSecret :: string
  biz_CreatedAt :: time

record Customer =
  cus_ID :: string
  cus_BusinessID :: string
  cus_Name :: string
  cus_Email :: string
  cus_CreatedAt :: time

record APIKey =
  key_ID :: string
  key_BusinessID :: string
  key_Name :: "string option"
  key_KeyPrefix :: string
  key_KeyHash :: string
  key_CreatedAt :: time
  key_LastUsedAt :: "time option"
  key_RevokedAt :: "time option"

record Invoice =
  inv_ID :: string
  inv_BusinessID :: string
  inv_CustomerID :: string
  inv_Currency :: string
  inv_Amount :: int
  inv_Status :: InvoiceStatus
  inv_CreatedAt :: time
  inv_UpdatedAt :: time

record PaymentAttempt =
  att_ID :: string
  att_InvoiceID :: string
  att_BusinessID :: string
  att_Amount :: int
  att_Currency :: string
  att_Status :: PaymentAttemptStatus
  att_PSPTransactionID :: "string option"
  att_FailureCode :: "string option"
  att_CreatedAt :: time
  att_UpdatedAt :: time

record IdempotencyKey =
  ik_ID :: string
  ik_BusinessID :: string
  ik_IdempotencyKey :: string
  ik_InvoiceID :: string
  ik_RequestHash :: string
  ik_PaymentAttemptID :: "string option"
  ik_CreatedAt :: time

record WebhookEvent =
  whe_ID :: string
  whe_EventID :: string
  whe_EventType :: string
  whe_Payload :: string
  whe_Status :: WebhookEventStatus
  whe_CreatedAt :: time
  whe_ProcessedAt :: "time option"

text \<open>
  The JSON document \<open>enqueueOutboundEvent\<close> marshals, kept as a value: the text the
  database gives back for it is a parameter of the runtime below.
\<close>

record OutboundPayload =
  pl_id :: string
  pl_type :: string
  pl_payment_attempt_id :: string
  pl_invoice_id :: string
  pl_business_id :: string
  pl_amount :: int
  pl_currency :: string
  pl_status :: PaymentAttemptStatus
  pl_psp_transaction_id :: "string option"
  pl_failure_code :: "string option"

record OutboundEvent =
  evt_ID :: string
  evt_BusinessID :: string
  evt_SourceID :: string
  evt_EventType :: string
  evt_Payload :: OutboundPayload
  evt_Status :: OutboundEventStatus
  evt_AttemptCount :: int
  evt_NextRetryAt :: time
  evt_LastError :: "string option"
  evt_CreatedAt :: time
  evt_DeliveredAt :: "time option"

text \<open>The body of an inbound provider webhook, after \<open>json.Unmarshal\<close>.\<close>

record pspWebhookPayload =
  EventID :: string
  EventType :: string
  Data_PSPRef :: string
  Data_IdempotencyKey :: string
  Data_Status :: string
  Data_Code :: string

subsection \<open>Errors\<close>

text \<open>What a database statement can fail with: the outcomes the code tells apart, and the rest.\<close>

datatype dberr =
    NoRows                \<comment> \<open>\<open>pgx.ErrNoRows\<close>\<close>
  | UniqueViolation       \<comment> \<open>SQLSTATE 23505\<close>
  | ForeignKeyViolation   \<comment> \<open>SQLSTATE 23503\<close>
  | CheckViolation        \<comment> \<open>SQLSTATE 23514\<close>
  | InvalidText           \<comment> \<open>SQLSTATE 22P02, a malformed uuid or json text\<close>
  | UndefinedOperator     \<comment> \<open>SQLSTATE 42883, no operator for the types of its operands\<close>
  | ConnLost              \<comment> \<open>the connection failed; the statement may or may not have run\<close>

text \<open>Go errors: the sentinel values of the packages and the errors built in place.\<close>

datatype goerr =
    DBError dberr
  | ErrInvoiceNotFound
  | ErrInvoiceNotOwned
  | ErrInvoiceAlreadyPaid
  | ErrInvoiceVoid
  | ErrInvoiceUncollectible
  | ErrPaymentInProgress
  | ErrIdempotencyConflict
  | ErrPaymentAttemptNotFound
  | ErrPaymentAttemptNotOwned
  | ErrWebhookURLRequired
  | ErrEventNotFound
  | ErrEventNotOwned
  | ErrAPIKeyNotFound
  | ErrAPIKeyNotOwned
  | ErrAPIKeyRevoked
  | ErrAPIKeyBootstrap
  | ErrBusinessNotFound
  | ErrInvalidSignature
  | ErrReplay
  | ErrTimeout
  | ErrUnavailable string   \<comment> \<open>the sentinel, or an error that wraps it and adds this text\<close>
  | DeadlineExceeded
  | Canceled
  | ErrorString string      \<comment> \<open>\<open>errors.New\<close> or \<open>fmt.Errorf\<close> in place\<close>

type_synonym 'a result = "goerr + 'a"

subsection \<open>The database\<close>

record db =
  businesses :: "Business list"
  customers :: "Customer list"
  invoices :: "Invoice list"
  api_keys :: "APIKey list"
  payment_attempts :: "PaymentAttempt list"
  idempotency_keys :: "IdempotencyKey list"
  webhook_events :: "WebhookEvent list"
  outbound_events :: "OutboundEvent list"

definition empty_db :: db where
  "empty_db = \<lparr>businesses = [], customers = [], invoices = [], api_keys = [], payment_attempts = [],
     idempotency_keys = [], webhook_events = [], outbound_events = []\<rparr>"

end
