(* ===== verification/Resumption.thy ===== *)
theory Resumption
  imports Prelude
begin

text \<open>
  Programs that share a state. A handler of the server is a \<open>prog\<close>: it is finished, or
  it makes one atomic step on the shared state and goes on. The sequential meaning of a
  handler is \<open>run\<close>; the server, in which requests arrive at any time and handlers
  interleave between their steps, is the relation \<open>pool_step\<close>. A handler that is never
  scheduled again is one whose process crashed, so every state of an interleaving is also a
  state a crash leaves behind. The locales state the rely/guarantee argument once: an
  invariant \<open>I\<close> and an evolution relation \<open>R\<close> that every step keeps.
\<close>

subsection \<open>Programs\<close>

datatype ('w, 'a) prog = Done 'a | Step "'w \<Rightarrow> ('w, 'a) prog \<times> 'w"

lemma prog_induct [case_names Done Step]:
  assumes fin: "\<And>a. P (Done a)"
    and more: "\<And>f. (\<And>w. P (fst (f w))) \<Longrightarrow> P (Step f)"
  shows "P p"
proof (induction p)
  case (Done a)
  show ?case by (rule fin)
next
  case (Step f)
  have "P (fst (f w))" for w
    by (rule Step) (auto simp: fsts.simps intro: prod.collapse [symmetric])
  then show ?case by (rule more)
qed

text \<open>Sequencing; \<open>k\<close> receives the value, an error result included.\<close>

primrec bindp :: "('w, 'a) prog \<Rightarrow> ('a \<Rightarrow> ('w, 'b) prog) \<Rightarrow> ('w, 'b) prog" where
  "bindp (Done a) k = k a"
| "bindp (Step f) k = Step (\<lambda>w. map_prod (\<lambda>p. bindp p k) id (f w))"

text \<open>One atomic step.\<close>

definition atom :: "('w \<Rightarrow> 'a \<times> 'w) \<Rightarrow> ('w, 'a) prog" where
  "atom m = Step (\<lambda>w. (Done (fst (m w)), snd (m w)))"

text \<open>The handler's value is sent back to the client; the pool only keeps its effects.\<close>

definition handler :: "('w, 'a) prog \<Rightarrow> ('w, unit) prog" where
  "handler p = bindp p (\<lambda>_. Done ())"

subsection \<open>Sequential runs\<close>

primrec run :: "('w, 'a) prog \<Rightarrow> 'w \<Rightarrow> 'a \<times> 'w" where
  "run (Done a) = (\<lambda>w. (a, w))"
| "run (Step f) = (\<lambda>w. case map_prod run id (f w) of (g, w') \<Rightarrow> g w')"

lemma run_Done [simp]: "run (Done a) w = (a, w)"
  by simp

lemma run_Step [simp]: "run (Step f) w = run (fst (f w)) (snd (f w))"
  by (simp add: case_prod_beta)

declare run.simps [simp del]

lemma run_atom [simp]: "run (atom m) w = m w"
  by (simp add: atom_def)

lemma run_bindp [simp]: "run (bindp m k) w = (case run m w of (a, w') \<Rightarrow> run (k a) w')"
proof (induction m arbitrary: w rule: prog_induct)
  case (Done a)
  show ?case by simp
next
  case (Step f)
  then show ?case by simp
qed

lemma bindp_assoc: "bindp (bindp m k) h = bindp m (\<lambda>a. bindp (k a) h)"
  by (induction m rule: prog_induct) (simp_all add: fun_eq_iff prod_eq_iff)

subsection \<open>Guarantees of a program under interference\<close>

text \<open>
  \<open>guar I R Q p w\<close>: started in \<open>w\<close>, with other programs moving the state along
  \<open>R\<close> between the steps of \<open>p\<close>, every step of \<open>p\<close> keeps \<open>I\<close> and moves along
  \<open>R\<close>, and a value \<open>a\<close> it finishes with satisfies \<open>Q a\<close> from then on.
\<close>

inductive guar :: "('w \<Rightarrow> bool) \<Rightarrow> ('w \<Rightarrow> 'w \<Rightarrow> bool) \<Rightarrow> ('a \<Rightarrow> 'w \<Rightarrow> bool)
    \<Rightarrow> ('w, 'a) prog \<Rightarrow> 'w \<Rightarrow> bool" for I R Q where
  guar_Done: "(\<And>w'. R w w' \<Longrightarrow> I w' \<Longrightarrow> Q a w') \<Longrightarrow> guar I R Q (Done a) w"
| guar_Step: "(\<And>w'. R w w' \<Longrightarrow> I w' \<Longrightarrow>
      I (snd (f w')) \<and> R w' (snd (f w')) \<and> guar I R Q (fst (f w')) (snd (f w')))
    \<Longrightarrow> guar I R Q (Step f) w"

inductive_cases guar_DoneE: "guar I R Q (Done a) w"
inductive_cases guar_StepE: "guar I R Q (Step f) w"

text \<open>
  \<open>stepwise P p\<close>: every step \<open>p\<close> can ever make, from whatever state, is related by \<open>P\<close>.
  It needs no invariant; with one it strengthens a guarantee (\<open>guar_stepwise_from\<close> below).
\<close>

inductive stepwise :: "('w \<Rightarrow> 'w \<Rightarrow> bool) \<Rightarrow> ('w, 'a) prog \<Rightarrow> bool" for P where
  stepwise_Done: "stepwise P (Done a)"
| stepwise_Step: "(\<And>w. P w (snd (f w)) \<and> stepwise P (fst (f w))) \<Longrightarrow> stepwise P (Step f)"

inductive_cases stepwise_StepE: "stepwise P (Step f)"

lemma stepwise_atom: "(\<And>w. P w (snd (m w))) \<Longrightarrow> stepwise P (atom m)"
  unfolding atom_def by (rule stepwise_Step) (auto intro: stepwise_Done)

lemma stepwise_bind: "stepwise P m \<Longrightarrow> (\<And>a. stepwise P (k a)) \<Longrightarrow> stepwise P (bindp m k)"
proof (induction rule: stepwise.induct)
  case (stepwise_Done a)
  then show ?case by simp
next
  case (stepwise_Step f)
  then show ?case by (auto intro!: stepwise.stepwise_Step)
qed

subsection \<open>Results of a program under any interference\<close>

inductive yields :: "('a \<Rightarrow> bool) \<Rightarrow> ('w, 'a) prog \<Rightarrow> bool" for Q where
  yields_Done: "Q a \<Longrightarrow> yields Q (Done a)"
| yields_Step: "(\<And>w. yields Q (fst (f w))) \<Longrightarrow> yields Q (Step f)"

inductive_cases yields_DoneE: "yields Q (Done a)"
inductive_cases yields_StepE: "yields Q (Step f)"

lemma yields_bind: "yields Q m \<Longrightarrow> (\<And>a. Q a \<Longrightarrow> yields Q' (k a)) \<Longrightarrow> yields Q' (bindp m k)"
proof (induction rule: yields.induct)
  case (yields_Done a)
  then show ?case by simp
next
  case (yields_Step f)
  then show ?case by (auto intro!: yields.yields_Step)
qed

lemma yields_atom: "(\<And>w. Q (fst (m w))) \<Longrightarrow> yields Q (atom m)"
  unfolding atom_def by (rule yields_Step) (auto intro: yields_Done)

lemma yields_any: "yields (\<lambda>_. True) p"
  by (induction p rule: prog_induct) (auto intro: yields.intros)

text \<open>A step relation and what the first part yields.\<close>

lemma stepwise_bind_yields:
  "stepwise P m \<Longrightarrow> yields Q m \<Longrightarrow> (\<And>a. Q a \<Longrightarrow> stepwise P (k a)) \<Longrightarrow> stepwise P (bindp m k)"
proof (induction rule: stepwise.induct)
  case (stepwise_Done a)
  then show ?case by (auto elim: yields_DoneE)
next
  case (stepwise_Step f)
  from stepwise_Step.prems(1) have y: "yields Q (fst (f w))" for w by (rule yields_StepE) blast
  show ?case unfolding bindp.simps
    by (rule stepwise.stepwise_Step) (use stepwise_Step.IH stepwise_Step.prems(2) y in \<open>auto simp: map_prod_def case_prod_beta\<close>)
qed

subsection \<open>The pool of handlers\<close>

type_synonym 'w pool = "('w, unit) prog list \<times> 'w"

text \<open>
  A step of the server: a running handler makes its next step; a request arrives and its
  handler joins the pool; the environment (the clock, the payment provider) moves.
\<close>

inductive pool_step :: "('w \<Rightarrow> ('w, unit) prog \<Rightarrow> bool) \<Rightarrow> ('w \<Rightarrow> 'w \<Rightarrow> bool) \<Rightarrow> 'w pool \<Rightarrow> 'w pool \<Rightarrow> bool"
  for Arrives Env where
  thread: "i < length ps \<Longrightarrow> ps ! i = Step f \<Longrightarrow>
    pool_step Arrives Env (ps, w) (ps[i := fst (f w)], snd (f w))"
| arrival: "Arrives w p \<Longrightarrow> pool_step Arrives Env (ps, w) (ps @ [p], w)"
| environment: "Env w w' \<Longrightarrow> pool_step Arrives Env (ps, w) (ps, w')"

inductive_cases pool_stepE: "pool_step Arrives Env c c'"

inductive pool_reach :: "('w \<Rightarrow> ('w, unit) prog \<Rightarrow> bool) \<Rightarrow> ('w \<Rightarrow> 'w \<Rightarrow> bool) \<Rightarrow> 'w pool \<Rightarrow> 'w pool \<Rightarrow> bool"
  for Arrives Env where
  pool_refl: "pool_reach Arrives Env c c"
| pool_more: "pool_reach Arrives Env c c' \<Longrightarrow> pool_step Arrives Env c' c'' \<Longrightarrow> pool_reach Arrives Env c c''"

lemma pool_reach_trans:
  assumes "pool_reach A E c c'" and "pool_reach A E c' c''"
  shows "pool_reach A E c c''"
  using assms(2,1) by (induction rule: pool_reach.induct) (auto intro: pool_more)

text \<open>A finished run of one handler is one of the pool's executions.\<close>

lemma pool_reach_run:
  assumes "i < length ps" and "ps ! i = p"
  shows "pool_reach A E (ps, w) (ps[i := Done (fst (run p w))], snd (run p w))"
  using assms
proof (induction p arbitrary: ps w rule: prog_induct)
  case (Done a)
  then show ?case by (metis fst_conv list_update_id pool_refl run_Done snd_conv)
next
  case (Step f)
  let ?ps = "ps[i := fst (f w)]"
  have one: "pool_reach A E (ps, w) (?ps, snd (f w))"
    by (rule pool_more [OF pool_refl]) (rule thread [OF Step.prems])
  have "pool_reach A E (?ps, snd (f w))
      (?ps[i := Done (fst (run (fst (f w)) (snd (f w))))], snd (run (fst (f w)) (snd (f w))))"
    by (rule Step.IH) (use Step.prems in auto)
  with one show ?case by (auto intro: pool_reach_trans)
qed

subsection \<open>Rely/guarantee reasoning, once for every invariant\<close>

locale rely_guarantee =
  fixes I :: "'w \<Rightarrow> bool" and R :: "'w \<Rightarrow> 'w \<Rightarrow> bool"
  assumes evolve_refl: "R w w"
    and evolve_trans: "R u v \<Longrightarrow> R v w \<Longrightarrow> R u w"
begin

lemma guar_later: "guar I R Q p w \<Longrightarrow> R w w' \<Longrightarrow> guar I R Q p w'"
  by (erule guar.cases) (auto intro!: guar.intros dest: evolve_trans)

lemma guar_mono:
  assumes "guar I R Q p w" and "\<And>a w'. R w w' \<Longrightarrow> I w' \<Longrightarrow> Q a w' \<Longrightarrow> Q' a w'"
  shows "guar I R Q' p w"
  using assms
proof (induction rule: guar.induct)
  case (guar_Done w a)
  then show ?case by (auto intro: guar.guar_Done)
next
  case (guar_Step w f)
  show ?case
  proof (rule guar.guar_Step, intro conjI)
    fix w' assume w': "R w w'" "I w'"
    from guar_Step.IH [OF w'] show i: "I (snd (f w'))" and r: "R w' (snd (f w'))" by auto
    have "R w (snd (f w'))" by (rule evolve_trans [OF w'(1) r])
    with guar_Step.IH [OF w'] guar_Step.prems show "guar I R Q' (fst (f w')) (snd (f w'))"
      by (auto intro: evolve_trans)
  qed
qed

lemma guar_bind:
  assumes "guar I R Q m w" and "I w"
    and "\<And>a w'. R w w' \<Longrightarrow> I w' \<Longrightarrow> Q a w' \<Longrightarrow> guar I R Q' (k a) w'"
  shows "guar I R Q' (bindp m k) w"
  using assms
proof (induction rule: guar.induct)
  case (guar_Done w a)
  then show ?case by (auto intro: evolve_refl)
next
  case (guar_Step w f)
  show ?case unfolding bindp.simps
  proof (rule guar.guar_Step, unfold map_prod_def case_prod_beta fst_conv snd_conv id_apply, intro conjI)
    fix w' assume w': "R w w'" "I w'"
    from guar_Step.IH [OF w'] show i: "I (snd (f w'))" and r: "R w' (snd (f w'))" by auto
    have "R w (snd (f w'))" by (rule evolve_trans [OF w'(1) r])
    with guar_Step.IH [OF w'] guar_Step.prems i
    show "guar I R Q' (bindp (fst (f w')) k) (snd (f w'))"
      by (auto intro: evolve_trans)
  qed
qed

lemma guar_atom:
  assumes "\<And>w'. R w w' \<Longrightarrow> I w' \<Longrightarrow> I (snd (m w')) \<and> R w' (snd (m w'))
      \<and> (\<forall>w''. R (snd (m w')) w'' \<longrightarrow> I w'' \<longrightarrow> Q (fst (m w')) w'')"
  shows "guar I R Q (atom m) w"
  unfolding atom_def by (rule guar.guar_Step) (use assms in \<open>auto intro: guar.guar_Done\<close>)

lemma guar_handler: "guar I R Q p w \<Longrightarrow> I w \<Longrightarrow> guar I R (\<lambda>_ _. True) (handler p) w"
  unfolding handler_def by (erule guar_bind) (auto intro: guar.guar_Done)

text \<open>
  A guarantee is strengthened by a further invariant \<open>J\<close> and a further relation \<open>G\<close> when the
  steps of the program, which are all related by \<open>P\<close>, keep them from the states that the start leads to.
\<close>

lemma guar_strengthen:
  assumes "guar I R Q p w" and "stepwise P p" and G: "\<And>u v x. G u v \<Longrightarrow> G v x \<Longrightarrow> G u x"
    and "\<And>u v. R w u \<Longrightarrow> G w u \<Longrightarrow> I u \<Longrightarrow> J u \<Longrightarrow> I v \<Longrightarrow> R u v \<Longrightarrow> P u v \<Longrightarrow> J v \<and> G u v"
  shows "guar (\<lambda>w. I w \<and> J w) (\<lambda>u v. R u v \<and> G u v) Q p w"
  using assms(1,2,4)
proof (induction rule: guar.induct)
  case (guar_Done w a)
  then show ?case by (auto intro: guar.guar_Done)
next
  case (guar_Step w f)
  from guar_Step.prems(1) have p: "P u (snd (f u)) \<and> stepwise P (fst (f u))" for u
    by (rule stepwise_StepE) blast
  show ?case
  proof (rule guar.guar_Step)
    fix w' assume w': "R w w' \<and> G w w'" and I: "I w' \<and> J w'"
    from w' have r0: "R w w'" by simp
    from guar_Step.IH [OF r0] I have i: "I (snd (f w'))" "R w' (snd (f w'))" by auto
    have J: "J (snd (f w')) \<and> G w' (snd (f w'))" using guar_Step.prems(2) [OF r0 _ _ _ i] I p w' by blast
    have r: "R w (snd (f w'))" by (rule evolve_trans [OF r0 i(2)])
    have g: "G w (snd (f w'))" using G w' J by blast
    have "guar (\<lambda>w. I w \<and> J w) (\<lambda>u v. R u v \<and> G u v) Q (fst (f w')) (snd (f w'))"
    proof (rule guar_Step.IH [OF r0, THEN conjunct2, THEN conjunct2, THEN conjunct2, rule_format])
      show "I w'" using I by simp
      show "stepwise P (fst (f w'))" using p by blast
      fix u v assume "R (snd (f w')) u" "G (snd (f w')) u" "I u" "J u" "I v" "R u v" "P u v"
      with guar_Step.prems(2) evolve_trans [OF r] G [OF g] show "J v \<and> G u v" by blast
    qed
    with i J show "(I (snd (f w')) \<and> J (snd (f w'))) \<and> (R w' (snd (f w')) \<and> G w' (snd (f w')))
        \<and> guar (\<lambda>w. I w \<and> J w) (\<lambda>u v. R u v \<and> G u v) Q (fst (f w')) (snd (f w'))" by blast
  qed
qed

lemma guar_stepwise_from:
  assumes "guar I R Q p w" and "stepwise P p"
    and "\<And>u v. R w u \<Longrightarrow> I u \<Longrightarrow> J u \<Longrightarrow> I v \<Longrightarrow> R u v \<Longrightarrow> P u v \<Longrightarrow> J v"
  shows "guar (\<lambda>w. I w \<and> J w) R Q p w"
proof -
  have "guar (\<lambda>w. I w \<and> J w) (\<lambda>u v. R u v \<and> True) Q p w"
    by (rule guar_strengthen [OF assms(1,2)]) (use assms(3) in blast)+
  then show ?thesis by simp
qed

text \<open>A sequential run is one without interference.\<close>

lemma guar_run:
  assumes "guar I R Q p w" and "I w"
  shows "I (snd (run p w)) \<and> R w (snd (run p w)) \<and> Q (fst (run p w)) (snd (run p w))"
  using assms
proof (induction rule: guar.induct)
  case (guar_Done w a)
  then show ?case by (simp add: evolve_refl)
next
  case (guar_Step w f)
  from guar_Step.IH [OF evolve_refl guar_Step.prems] show ?case
    by (auto intro: evolve_trans)
qed

end

text \<open>
  A server whose requests are all answered by handlers that keep the guarantee, in an
  environment that keeps it too.
\<close>

locale handler_pool = rely_guarantee +
  fixes Arrives :: "'a \<Rightarrow> ('a, unit) prog \<Rightarrow> bool" and Env :: "'a \<Rightarrow> 'a \<Rightarrow> bool"
  assumes arrival_guar: "Arrives w p \<Longrightarrow> I w \<Longrightarrow> guar I R (\<lambda>_ _. True) p w"
    and env_keeps: "Env w w' \<Longrightarrow> I w \<Longrightarrow> I w' \<and> R w w'"
begin

definition pool_ok :: "'a pool \<Rightarrow> bool" where
  "pool_ok c \<longleftrightarrow> I (snd c) \<and> (\<forall>p \<in> set (fst c). guar I R (\<lambda>_ _. True) p (snd c))"

lemma pool_step_ok:
  assumes "pool_step Arrives Env c c'" and "pool_ok c"
  shows "pool_ok c' \<and> R (snd c) (snd c')"
  using assms
proof (cases rule: pool_step.cases)
  case (thread i ps f w)
  from assms(2) thread have I: "I w" and g: "\<And>p. p \<in> set ps \<Longrightarrow> guar I R (\<lambda>_ _. True) p w"
    by (auto simp: pool_ok_def)
  from g [of "Step f"] thread have "guar I R (\<lambda>_ _. True) (Step f) w"
    by (metis nth_mem)
  then have s: "I (snd (f w)) \<and> R w (snd (f w)) \<and> guar I R (\<lambda>_ _. True) (fst (f w)) (snd (f w))"
    by (rule guar_StepE) (use I evolve_refl in blast)
  have "guar I R (\<lambda>_ _. True) p (snd (f w))" if "p \<in> set (ps[i := fst (f w)])" for p
    using that s g set_update_subset_insert [of ps i "fst (f w)"] by (auto intro: guar_later)
  with s thread show ?thesis by (simp add: pool_ok_def)
next
  case (arrival w p ps)
  with assms(2) show ?thesis by (auto simp: pool_ok_def evolve_refl intro: arrival_guar)
next
  case (environment w w' ps)
  with assms(2) env_keeps [of w w'] show ?thesis by (auto simp: pool_ok_def intro: guar_later)
qed

lemma pool_reach_ok:
  assumes "pool_reach Arrives Env c c'" and "pool_ok c"
  shows "pool_ok c' \<and> R (snd c) (snd c')"
  using assms
proof (induction rule: pool_reach.induct)
  case (pool_refl c)
  then show ?case by (simp add: evolve_refl)
next
  case (pool_more c c' c'')
  then show ?case using pool_step_ok evolve_trans by blast
qed

lemma reachable_invariant:
  assumes "pool_reach Arrives Env ([], w) (ps, w')" and "I w"
  shows "I w'" and "R w w'"
  using pool_reach_ok [OF assms(1)] assms(2) by (auto simp: pool_ok_def)

end

end
