(* ===== verification/Runtime.thy ===== *)
theory Runtime
  imports Model Resumption
begin

text \<open>
  What the server runs on. \<open>runtime\<close> holds the functions the code calls and does not define
  (hashes, identifier generation, the database's reading of an identifier text, JSON, the Unicode tables), as
  parameters. \<open>world\<close> is the shared state: the database, the clock, the number of
  identifiers and secrets drawn so far, the fate of the statements to come, and the state
  of the payment provider. A statement runs atomically; a transaction is one atomic step,
  because the only transactions of the code lock the invoice row first and every other
  writer of those rows is a single conditional statement.
\<close>

subsection \<open>Parameters of the model\<close>

record runtime =
  sha256_hex :: "string \<Rightarrow> string"
  hmac_sha256_hex :: "string \<Rightarrow> string \<Rightarrow> string"
  uuid_New :: "nat \<Rightarrow> string"
  rand_hex :: "nat \<Rightarrow> string"
  parse_uuid :: "string \<Rightarrow> string option"
  jsonb_ok :: "string \<Rightarrow> bool"
  json_webhook :: "string \<Rightarrow> pspWebhookPayload option"
  payload_text :: "OutboundPayload \<Rightarrow> string"
  driver_text :: "dberr \<Rightarrow> string"
  unicode_trim :: "string \<Rightarrow> string"
  unicode_upper :: "string \<Rightarrow> string"

text \<open>
  PostgreSQL accepts several spellings of a uuid and returns the standard one, which it
  accepts again as itself. \<open>uuid.New().String()\<close> prints the standard one, and identifiers
  do not repeat.
\<close>

definition uuid_ok :: "runtime \<Rightarrow> bool" where
  "uuid_ok rt \<longleftrightarrow> (\<forall>s c. parse_uuid rt s = Some c \<longrightarrow> parse_uuid rt c = Some c)
     \<and> (\<forall>n. parse_uuid rt (uuid_New rt n) = Some (uuid_New rt n))"

definition uuid_fresh :: "runtime \<Rightarrow> bool" where
  "uuid_fresh rt \<longleftrightarrow> uuid_ok rt \<and> inj (uuid_New rt)"

lemma uuid_okD:
  assumes "uuid_ok rt"
  shows "parse_uuid rt s = Some c \<Longrightarrow> parse_uuid rt c = Some c"
    and "parse_uuid rt (uuid_New rt n) = Some (uuid_New rt n)"
  using assms by (auto simp: uuid_ok_def)

subsection \<open>Time and error texts\<close>

definition second :: int where "second = 1000000000"
definition minute :: int where "minute = 60 * second"
definition hour :: int where "hour = 60 * minute"

text \<open>Go's internal clock counts from year 1; this is the distance to the Unix epoch in seconds.\<close>

definition unixToInternal :: int where "unixToInternal = 62135596800"

text \<open>The zero value \<open>time.Time{}\<close>, January 1 of year 1.\<close>

definition time_zero :: time where "time_zero = - (unixToInternal * second)"

text \<open>\<open>err.Error()\<close>.\<close>

fun err_text :: "runtime \<Rightarrow> goerr \<Rightarrow> string" where
  "err_text rt (DBError e) = driver_text rt e"
| "err_text rt ErrInvoiceNotFound = ''invoice not found''"
| "err_text rt ErrInvoiceNotOwned = ''invoice does not belong to business''"
| "err_text rt ErrInvoiceAlreadyPaid = ''invoice already paid''"
| "err_text rt ErrInvoiceVoid = ''invoice is void''"
| "err_text rt ErrInvoiceUncollectible = ''invoice is uncollectible''"
| "err_text rt ErrPaymentInProgress = ''payment is already being processed''"
| "err_text rt ErrIdempotencyConflict = ''idempotency key reused with different request''"
| "err_text rt ErrPaymentAttemptNotFound = ''payment attempt not found''"
| "err_text rt ErrPaymentAttemptNotOwned = ''payment attempt does not belong to business''"
| "err_text rt ErrWebhookURLRequired = ''webhook url is required''"
| "err_text rt ErrEventNotFound = ''event not found''"
| "err_text rt ErrEventNotOwned = ''event does not belong to business''"
| "err_text rt ErrAPIKeyNotFound = ''api key not found''"
| "err_text rt ErrAPIKeyNotOwned = ''api key does not belong to business''"
| "err_text rt ErrAPIKeyRevoked = ''api key already revoked''"
| "err_text rt ErrAPIKeyBootstrap = ''business already has an active api key''"
| "err_text rt ErrBusinessNotFound = ''business not found''"
| "err_text rt ErrInvalidSignature = ''invalid webhook signature''"
| "err_text rt ErrReplay = ''webhook timestamp outside replay window''"
| "err_text rt ErrTimeout = ''psp timeout''"
| "err_text rt (ErrUnavailable d) = (if d = [] then ''psp unavailable'' else ''psp unavailable: '' @ d)"
| "err_text rt DeadlineExceeded = ''context deadline exceeded''"
| "err_text rt Canceled = ''context canceled''"
| "err_text rt (ErrorString s) = s"

subsection \<open>The shared state\<close>

text \<open>
  The fate of a statement: it runs and its result arrives; it never reaches the database;
  it runs and the result is lost. Go sees the last two as the same error.
\<close>

datatype fate = Delivered | LostRequest | LostReply

record 'p world =
  wdb :: db
  wfates :: "fate list"     \<comment> \<open>of the next statements; all those after are delivered\<close>
  wclock :: time
  wticks :: "nat list"      \<comment> \<open>nanoseconds that pass before each of the next readings of the clock\<close>
  wuuids :: nat
  wrands :: nat
  wpsp :: 'p

type_synonym ('p, 'a) act = "'p world \<Rightarrow> 'a \<times> 'p world"

definition time_Now :: "('p, time) act" where
  "time_Now w = (case wticks w of
      [] \<Rightarrow> (wclock w, w)
    | d # ds \<Rightarrow> (wclock w + int d, w\<lparr>wclock := wclock w + int d, wticks := ds\<rparr>))"

definition uuid_Next :: "runtime \<Rightarrow> ('p, string) act" where
  "uuid_Next rt w = (uuid_New rt (wuuids w), w\<lparr>wuuids := Suc (wuuids w)\<rparr>)"

definition rand_Next :: "runtime \<Rightarrow> ('p, string) act" where
  "rand_Next rt w = (rand_hex rt (wrands w), w\<lparr>wrands := Suc (wrands w)\<rparr>)"

definition next_fate :: "('p, fate) act" where
  "next_fate w = (case wfates w of [] \<Rightarrow> (Delivered, w) | f # fs \<Rightarrow> (f, w\<lparr>wfates := fs\<rparr>))"

subsection \<open>Statements and transactions\<close>

text \<open>
  A statement takes the database's \<open>NOW()\<close> and the tables, and fails or gives its result
  with the new tables. A failed statement changes nothing.
\<close>

type_synonym 'a stmt = "time \<Rightarrow> db \<Rightarrow> dberr + 'a \<times> db"

definition exec_stmt :: "'a stmt \<Rightarrow> ('p, 'a result) act" where
  "exec_stmt q w =
     (case next_fate w of (fate, w1) \<Rightarrow>
       (case fate of
          LostRequest \<Rightarrow> (Inl (DBError ConnLost), w1)
        | Delivered \<Rightarrow>
            (case q (wclock w1) (wdb w1) of
               Inl e \<Rightarrow> (Inl (DBError e), w1)
             | Inr (a, d) \<Rightarrow> (Inr a, w1\<lparr>wdb := d\<rparr>))
        | LostReply \<Rightarrow>
            (case q (wclock w1) (wdb w1) of
               Inl e \<Rightarrow> (Inl (DBError ConnLost), w1)
             | Inr (a, d) \<Rightarrow> (Inl (DBError ConnLost), w1\<lparr>wdb := d\<rparr>))))"

text \<open>
  Go's \<open>if err != nil { return err }\<close> and the general form, in which the caller looks at
  the error.
\<close>

definition act_ret :: "'a \<Rightarrow> ('p, 'a result) act" where
  "act_ret a w = (Inr a, w)"

definition act_fail :: "goerr \<Rightarrow> ('p, 'a result) act" where
  "act_fail e w = (Inl e, w)"

definition act_try :: "('p, 'a) act \<Rightarrow> ('a \<Rightarrow> ('p, 'b) act) \<Rightarrow> ('p, 'b) act" where
  "act_try m k w = (case m w of (a, w') \<Rightarrow> k a w')"

definition act_bind :: "('p, 'a result) act \<Rightarrow> ('a \<Rightarrow> ('p, 'b result) act) \<Rightarrow> ('p, 'b result) act" where
  "act_bind m k w = (case m w of (Inl e, w') \<Rightarrow> (Inl e, w') | (Inr a, w') \<Rightarrow> k a w')"

text \<open>
  \<open>db.Begin\<close>, the body, and \<open>Commit\<close> when the body succeeds; otherwise the deferred
  \<open>Rollback\<close>. A commit whose reply is lost has happened.
\<close>

definition transaction :: "('p, 'a result) act \<Rightarrow> ('p, 'a result) act" where
  "transaction body w =
     (case next_fate w of (fate, w0) \<Rightarrow>
        if fate \<noteq> Delivered then (Inl (DBError ConnLost), w0)
        else (case body w0 of
                (Inl e, w1) \<Rightarrow> (Inl e, w1\<lparr>wdb := wdb w\<rparr>)
              | (Inr a, w1) \<Rightarrow>
                  (case next_fate w1 of (fate1, w2) \<Rightarrow>
                     (case fate1 of
                        Delivered \<Rightarrow> (Inr a, w2)
                      | LostRequest \<Rightarrow> (Inl (DBError ConnLost), w2\<lparr>wdb := wdb w\<rparr>)
                      | LostReply \<Rightarrow> (Inl (DBError ConnLost), w2)))))"

text \<open>Sequencing of programs in which an error ends the handler.\<close>

definition bindr :: "('w, 'a result) prog \<Rightarrow> ('a \<Rightarrow> ('w, 'b result) prog) \<Rightarrow> ('w, 'b result) prog" where
  "bindr m k = bindp m (\<lambda>r. case r of Inl e \<Rightarrow> Done (Inl e) | Inr a \<Rightarrow> k a)"

text \<open>\<open>errors.As(err, &pgErr) && pgErr.Code == "23505"\<close>.\<close>

definition isUniqueViolation :: "goerr \<Rightarrow> bool" where
  "isUniqueViolation e \<longleftrightarrow> e = DBError UniqueViolation"

subsection \<open>A world without faults\<close>

text \<open>Every statement to come is delivered.\<close>

abbreviation no_faults :: "'p world \<Rightarrow> bool" where
  "no_faults w \<equiv> wfates w = []"

lemma next_fate_frame [frame]:
  "next_fate w = (f, w') \<Longrightarrow> wdb w' = wdb w \<and> wpsp w' = wpsp w \<and> wuuids w' = wuuids w \<and> wclock w' = wclock w"
  by (auto simp: next_fate_def split: list.splits)

lemma next_fate_ok [exec]: "no_faults w \<Longrightarrow> next_fate w = (Delivered, w)"
  by (simp add: next_fate_def)

lemma exec_stmt_ok [exec]:
  "no_faults w \<Longrightarrow> exec_stmt q w =
     (case q (wclock w) (wdb w) of Inl e \<Rightarrow> (Inl (DBError e), w) | Inr (a, d) \<Rightarrow> (Inr a, w\<lparr>wdb := d\<rparr>))"
  by (simp add: exec_stmt_def exec)

lemma transaction_ok [exec]:
  "no_faults w \<Longrightarrow> transaction body w =
     (case body w of
        (Inl e, w1) \<Rightarrow> (Inl e, w1\<lparr>wdb := wdb w\<rparr>)
      | (Inr a, w1) \<Rightarrow>
          (case next_fate w1 of (fate1, w2) \<Rightarrow>
             (case fate1 of
                Delivered \<Rightarrow> (Inr a, w2)
              | LostRequest \<Rightarrow> (Inl (DBError ConnLost), w2\<lparr>wdb := wdb w\<rparr>)
              | LostReply \<Rightarrow> (Inl (DBError ConnLost), w2))))"
  by (simp add: transaction_def exec)

lemma run_bindr [simp]:
  "run (bindr m k) w = (case run m w of (Inl e, w') \<Rightarrow> (Inl e, w') | (Inr a, w') \<Rightarrow> run (k a) w')"
  by (auto simp: bindr_def split: prod.splits sum.splits)

subsection \<open>The outcome of a statement\<close>

text \<open>
  A statement answered with a value ran, on the tables it found; one answered with an error
  of its own left them; one whose connection failed may have done either.
\<close>

lemma exec_stmt_Inr:
  assumes "exec_stmt q w = (Inr a, w')"
  shows "q (wclock w) (wdb w) = Inr (a, wdb w')"
  using assms by (auto simp: exec_stmt_def dest!: next_fate_frame split: prod.splits fate.splits sum.splits)

lemma exec_stmt_frame [frame]:
  assumes "exec_stmt q w = (r, w')"
  shows "wpsp w' = wpsp w" and "wuuids w' = wuuids w" and "wclock w' = wclock w"
  using assms
  by (auto simp: exec_stmt_def dest!: next_fate_frame split: prod.splits fate.splits sum.splits)

lemma exec_stmt_db:
  assumes "exec_stmt q w = (r, w')"
  shows "wdb w' = wdb w \<or> (\<exists>a. q (wclock w) (wdb w) = Inr (a, wdb w'))"
  using assms by (auto simp: exec_stmt_def dest!: next_fate_frame split: prod.splits fate.splits sum.splits)

text \<open>A query keeps the tables, so its execution does.\<close>

definition read_only :: "'a stmt \<Rightarrow> bool" where
  "read_only q \<longleftrightarrow> (\<forall>t d a d'. q t d = Inr (a, d') \<longrightarrow> d' = d)"

lemma exec_read_only [frame]: "read_only q \<Longrightarrow> wdb (snd (exec_stmt q w)) = wdb w"
  using exec_stmt_db [of q w "fst (exec_stmt q w)" "snd (exec_stmt q w)"]
  by (auto simp: read_only_def)

text \<open>
  A transaction leaves the database as it was or as its successful body made it, and a value
  it returns is the body's.
\<close>

lemma transaction_db:
  assumes "transaction body w = (r, w')"
  obtains (unchanged) e where "r = Inl e" "wdb w' = wdb w"
    | (committed) w0 a w1 where "wdb w0 = wdb w" "wclock w0 = wclock w" "wuuids w0 = wuuids w"
        "body w0 = (Inr a, w1)" "wdb w' = wdb w1" "r = Inr a \<or> r = Inl (DBError ConnLost)"
proof -
  obtain f w0 where f: "next_fate w = (f, w0)" by (cases "next_fate w")
  note fr = next_fate_frame [OF f]
  show thesis
  proof (cases "f = Delivered")
    case False
    with assms f fr show ?thesis by (auto simp: transaction_def intro: unchanged)
  next
    case True
    obtain r1 w1 where b: "body w0 = (r1, w1)" by (cases "body w0")
    show ?thesis
    proof (cases r1)
      case (Inl e)
      with assms f True b show ?thesis by (auto simp: transaction_def intro: unchanged)
    next
      case (Inr a)
      obtain f2 w2 where f2: "next_fate w1 = (f2, w2)" by (cases "next_fate w1")
      from next_fate_frame [OF f2] have "wdb w2 = wdb w1" by simp
      with assms f True b Inr f2 fr show ?thesis
        by (cases f2) (auto simp: transaction_def intro: unchanged committed)
    qed
  qed
qed

lemma act_try_E:
  assumes "act_try m k w = (r, w')"
  obtains a w1 where "m w = (a, w1)" "k a w1 = (r, w')"
  using assms by (auto simp: act_try_def split: prod.splits)

lemma act_ret_Inr [exec]: "act_ret a w = (Inr b, w') \<longleftrightarrow> b = a \<and> w' = w"
  by (auto simp: act_ret_def)

lemma act_fail_Inr [exec]: "act_fail e w \<noteq> (Inr b, w')"
  by (simp add: act_fail_def)

lemma act_bind_Inr:
  assumes "act_bind m k w = (Inr b, w')"
  obtains a w1 where "m w = (Inr a, w1)" "k a w1 = (Inr b, w')"
  using assms by (auto simp: act_bind_def split: prod.splits sum.splits)

lemma time_Now_frame [frame]:
  "time_Now w = (t, w') \<Longrightarrow> wdb w' = wdb w \<and> wpsp w' = wpsp w \<and> wuuids w' = wuuids w \<and> wfates w' = wfates w"
  by (auto simp: time_Now_def split: list.splits)

lemma uuid_Next_frame [frame]:
  "uuid_Next rt w = (u, w') \<Longrightarrow> wdb w' = wdb w \<and> wpsp w' = wpsp w \<and> wclock w' = wclock w \<and> wfates w' = wfates w"
  by (auto simp: uuid_Next_def)

subsection \<open>What a program can finish with\<close>

text \<open>Programs with an error result: the predicate is about the value.\<close>

abbreviation gives :: "('a \<Rightarrow> bool) \<Rightarrow> ('w, 'a result) prog \<Rightarrow> bool" where
  "gives Q \<equiv> yields (\<lambda>r. \<forall>a. r = Inr a \<longrightarrow> Q a)"

lemma gives_any: "gives (\<lambda>_. True) p"
  by (simp add: yields_any)

lemma gives_bindr: "gives Q m \<Longrightarrow> (\<And>a. Q a \<Longrightarrow> gives Q' (k a)) \<Longrightarrow> gives Q' (bindr m k)"
  unfolding bindr_def by (erule yields_bind) (auto split: sum.splits intro: yields_Done)

lemma gives_exec: "(\<And>t d a d'. q t d = Inr (a, d') \<Longrightarrow> Q a) \<Longrightarrow> gives Q (atom (exec_stmt q))"
proof (rule yields_atom, intro allI impI)
  fix w a assume q: "\<And>t d a d'. q t d = Inr (a, d') \<Longrightarrow> Q a" and a: "fst (exec_stmt q w) = Inr a"
  obtain w' where "exec_stmt q w = (Inr a, w')" using a by (metis prod.collapse)
  from q [OF exec_stmt_Inr [OF this]] show "Q a" .
qed

end
