(* ===== verification/Repo_Payments.thy ===== *)
theory Repo_Payments
  imports Runtime
begin

text \<open>
  The repositories of invoices, payment attempts and idempotency keys
  (\<open>internal/repository\<close>): each method is the statement it sends, with the constraints the
  migrations declare (primary keys, unique indexes, checks, references). A uuid parameter
  goes through the database's reading of its text.
\<close>

subsection \<open>Statements in general\<close>

definition with_uuid :: "runtime \<Rightarrow> string \<Rightarrow> (string \<Rightarrow> dberr + 'a) \<Rightarrow> dberr + 'a" where
  "with_uuid rt s k = (case parse_uuid rt s of None \<Rightarrow> Inl InvalidText | Some c \<Rightarrow> k c)"

text \<open>\<open>QueryRow(...).Scan(...)\<close> of a query that returns at most one row.\<close>

definition scan_row :: "'r option \<Rightarrow> db \<Rightarrow> dberr + 'r \<times> db" where
  "scan_row r d = (case r of None \<Rightarrow> Inl NoRows | Some x \<Rightarrow> Inr (x, d))"

text \<open>The constraints a statement would violate, in the order the database reports them.\<close>

definition constrained :: "(bool \<times> dberr) list \<Rightarrow> 'a \<Rightarrow> dberr + 'a" where
  "constrained cs a = (case find (\<lambda>c. \<not> fst c) cs of None \<Rightarrow> Inr a | Some c \<Rightarrow> Inl (snd c))"

lemma with_uuid_Inr [exec]:
  "with_uuid rt s k = Inr r \<longleftrightarrow> (\<exists>c. parse_uuid rt s = Some c \<and> k c = Inr r)"
  by (auto simp: with_uuid_def split: option.splits)

lemma with_uuid_Some [exec]: "parse_uuid rt s = Some c \<Longrightarrow> with_uuid rt s k = k c"
  by (simp add: with_uuid_def)

lemma scan_row_Inr [exec]: "scan_row r d = Inr (x, d') \<longleftrightarrow> r = Some x \<and> d' = d"
  by (auto simp: scan_row_def split: option.splits)

lemma scan_row_simps [simp]: "scan_row None d = Inl NoRows" "scan_row (Some x) d = Inr (x, d)"
  by (simp_all add: scan_row_def)

lemma constrained_Inr [exec]: "constrained cs a = Inr r \<longleftrightarrow> (\<forall>c \<in> set cs. fst c) \<and> r = a"
  by (induction cs) (auto simp: constrained_def)

lemma constrained_simps [simp]:
  "constrained [] a = Inr a"
  "constrained ((b, e) # cs) a = (if b then constrained cs a else Inl e)"
  by (simp_all add: constrained_def)

subsection \<open>Invoices\<close>

definition invoice_status_valid :: "InvoiceStatus \<Rightarrow> bool" where
  "invoice_status_valid s = (case s of InvoiceStatusOther _ \<Rightarrow> False | _ \<Rightarrow> True)"

definition business_exists :: "string \<Rightarrow> db \<Rightarrow> bool" where
  "business_exists b d \<longleftrightarrow> list_ex (\<lambda>r. biz_ID r = b) (businesses d)"

definition customer_exists :: "string \<Rightarrow> db \<Rightarrow> bool" where
  "customer_exists c d \<longleftrightarrow> list_ex (\<lambda>r. cus_ID r = c) (customers d)"

definition invoice_exists :: "string \<Rightarrow> db \<Rightarrow> bool" where
  "invoice_exists i d \<longleftrightarrow> list_ex (\<lambda>r. inv_ID r = i) (invoices d)"

definition InvoiceRepository_Create :: "runtime \<Rightarrow> Invoice \<Rightarrow> Invoice stmt" where
  "InvoiceRepository_Create rt invoice now d =
     with_uuid rt (inv_ID invoice) (\<lambda>i.
     with_uuid rt (inv_BusinessID invoice) (\<lambda>b.
     with_uuid rt (inv_CustomerID invoice) (\<lambda>c.
       constrained
         [(0 < inv_Amount invoice, CheckViolation),
          (invoice_status_valid (inv_Status invoice), CheckViolation),
          (\<not> invoice_exists i d, UniqueViolation),
          (business_exists b d, ForeignKeyViolation),
          (customer_exists c d, ForeignKeyViolation)]
         (invoice\<lparr>inv_CreatedAt := now, inv_UpdatedAt := now\<rparr>,
          d\<lparr>invoices := invoices d @
              [invoice\<lparr>inv_ID := i, inv_BusinessID := b, inv_CustomerID := c,
                       inv_CreatedAt := now, inv_UpdatedAt := now\<rparr>]\<rparr>))))"

definition InvoiceRepository_GetByID :: "runtime \<Rightarrow> string \<Rightarrow> Invoice stmt" where
  "InvoiceRepository_GetByID rt rid now d =
     with_uuid rt rid (\<lambda>i. scan_row (find (\<lambda>r. inv_ID r = i) (invoices d)) d)"

text \<open>\<open>FOR UPDATE\<close>: the same row, locked until the transaction ends.\<close>

definition InvoiceRepository_GetByIDForUpdate :: "runtime \<Rightarrow> string \<Rightarrow> Invoice stmt" where
  "InvoiceRepository_GetByIDForUpdate rt rid now d =
     with_uuid rt rid (\<lambda>i. scan_row (find (\<lambda>r. inv_ID r = i) (invoices d)) d)"

definition InvoiceRepository_UpdateStatus :: "runtime \<Rightarrow> string \<Rightarrow> InvoiceStatus \<Rightarrow> unit stmt" where
  "InvoiceRepository_UpdateStatus rt rid status now d =
     with_uuid rt rid (\<lambda>i.
       constrained [(invoice_exists i d \<longrightarrow> invoice_status_valid status, CheckViolation)]
         ((), d\<lparr>invoices := update_where (\<lambda>r. inv_ID r = i)
                  (\<lambda>r. r\<lparr>inv_Status := status, inv_UpdatedAt := now\<rparr>) (invoices d)\<rparr>))"

definition unpaid_status :: "InvoiceStatus \<Rightarrow> bool" where
  "unpaid_status s \<longleftrightarrow> s = InvoiceStatusDraft \<or> s = InvoiceStatusOpen"

definition InvoiceRepository_MarkPaidIfOpen :: "runtime \<Rightarrow> string \<Rightarrow> unit stmt" where
  "InvoiceRepository_MarkPaidIfOpen rt rid now d =
     with_uuid rt rid (\<lambda>i.
       Inr ((), d\<lparr>invoices := update_where (\<lambda>r. inv_ID r = i \<and> unpaid_status (inv_Status r))
                    (\<lambda>r. r\<lparr>inv_Status := InvoiceStatusPaid, inv_UpdatedAt := now\<rparr>) (invoices d)\<rparr>))"

subsection \<open>Payment attempts\<close>

definition attempt_pending :: "PaymentAttempt \<Rightarrow> bool" where
  "attempt_pending a \<longleftrightarrow> att_Status a = PaymentAttemptStatusPending"

text \<open>
  The insert writes six columns; the provider's reference and the failure code start out
  empty. \<open>idx_one_pending_attempt_per_invoice\<close> admits one pending attempt per invoice.
\<close>

definition PaymentAttemptRepository_Create :: "runtime \<Rightarrow> PaymentAttempt \<Rightarrow> PaymentAttempt stmt" where
  "PaymentAttemptRepository_Create rt attempt now d =
     with_uuid rt (att_ID attempt) (\<lambda>a.
     with_uuid rt (att_InvoiceID attempt) (\<lambda>i.
     with_uuid rt (att_BusinessID attempt) (\<lambda>b.
       constrained
         [(0 < att_Amount attempt, CheckViolation),
          (\<not> list_ex (\<lambda>r. att_ID r = a) (payment_attempts d), UniqueViolation),
          (attempt_pending attempt \<longrightarrow>
             \<not> list_ex (\<lambda>r. att_InvoiceID r = i \<and> attempt_pending r) (payment_attempts d), UniqueViolation),
          (invoice_exists i d, ForeignKeyViolation),
          (business_exists b d, ForeignKeyViolation)]
         (attempt\<lparr>att_CreatedAt := now, att_UpdatedAt := now\<rparr>,
          d\<lparr>payment_attempts := payment_attempts d @
              [attempt\<lparr>att_ID := a, att_InvoiceID := i, att_BusinessID := b,
                       att_PSPTransactionID := None, att_FailureCode := None,
                       att_CreatedAt := now, att_UpdatedAt := now\<rparr>]\<rparr>))))"

definition set_attempt_status ::
  "PaymentAttemptStatus \<Rightarrow> string option \<Rightarrow> string option \<Rightarrow> time \<Rightarrow> PaymentAttempt \<Rightarrow> PaymentAttempt" where
  "set_attempt_status status ref code now r =
     r\<lparr>att_Status := status, att_PSPTransactionID := ref, att_FailureCode := code, att_UpdatedAt := now\<rparr>"

definition PaymentAttemptRepository_UpdateStatus ::
  "runtime \<Rightarrow> string \<Rightarrow> PaymentAttemptStatus \<Rightarrow> string option \<Rightarrow> string option \<Rightarrow> unit stmt" where
  "PaymentAttemptRepository_UpdateStatus rt rid status ref code now d =
     with_uuid rt rid (\<lambda>a.
       constrained
         [(status = PaymentAttemptStatusPending \<longrightarrow>
             \<not> list_ex (\<lambda>r. att_ID r = a \<and>
                 list_ex (\<lambda>s. att_ID s \<noteq> a \<and> att_InvoiceID s = att_InvoiceID r \<and> attempt_pending s)
                   (payment_attempts d)) (payment_attempts d), UniqueViolation)]
         ((), d\<lparr>payment_attempts := update_where (\<lambda>r. att_ID r = a)
                  (set_attempt_status status ref code now) (payment_attempts d)\<rparr>))"

text \<open>The update only reaches a pending row; the result tells whether it did.\<close>

definition PaymentAttemptRepository_UpdateStatusIfPending ::
  "runtime \<Rightarrow> string \<Rightarrow> PaymentAttemptStatus \<Rightarrow> string option \<Rightarrow> string option \<Rightarrow> bool stmt" where
  "PaymentAttemptRepository_UpdateStatusIfPending rt rid status ref code now d =
     with_uuid rt rid (\<lambda>a.
       Inr (0 < rows_affected (\<lambda>r. att_ID r = a \<and> attempt_pending r) (payment_attempts d),
            d\<lparr>payment_attempts := update_where (\<lambda>r. att_ID r = a \<and> attempt_pending r)
                (set_attempt_status status ref code now) (payment_attempts d)\<rparr>))"

definition PaymentAttemptRepository_GetPendingByInvoiceID :: "runtime \<Rightarrow> string \<Rightarrow> PaymentAttempt stmt" where
  "PaymentAttemptRepository_GetPendingByInvoiceID rt invoiceID now d =
     with_uuid rt invoiceID (\<lambda>i.
       scan_row (find (\<lambda>r. att_InvoiceID r = i \<and> attempt_pending r) (payment_attempts d)) d)"

definition PaymentAttemptRepository_GetByID :: "runtime \<Rightarrow> string \<Rightarrow> PaymentAttempt stmt" where
  "PaymentAttemptRepository_GetByID rt rid now d =
     with_uuid rt rid (\<lambda>a. scan_row (find (\<lambda>r. att_ID r = a) (payment_attempts d)) d)"

subsection \<open>Idempotency keys\<close>

text \<open>A nullable uuid parameter.\<close>

definition with_uuid_opt :: "runtime \<Rightarrow> string option \<Rightarrow> (string option \<Rightarrow> dberr + 'a) \<Rightarrow> dberr + 'a" where
  "with_uuid_opt rt s k = (case s of None \<Rightarrow> k None | Some x \<Rightarrow> with_uuid rt x (\<lambda>c. k (Some c)))"

definition IdempotencyRepository_Create :: "runtime \<Rightarrow> IdempotencyKey \<Rightarrow> IdempotencyKey stmt" where
  "IdempotencyRepository_Create rt key now d =
     with_uuid rt (ik_ID key) (\<lambda>k.
     with_uuid rt (ik_BusinessID key) (\<lambda>b.
     with_uuid rt (ik_InvoiceID key) (\<lambda>i.
     with_uuid_opt rt (ik_PaymentAttemptID key) (\<lambda>a.
       constrained
         [(\<not> list_ex (\<lambda>r. ik_ID r = k) (idempotency_keys d), UniqueViolation),
          (\<not> list_ex (\<lambda>r. ik_BusinessID r = b \<and> ik_IdempotencyKey r = ik_IdempotencyKey key)
               (idempotency_keys d), UniqueViolation),
          (business_exists b d, ForeignKeyViolation),
          (invoice_exists i d, ForeignKeyViolation)]
         (key\<lparr>ik_CreatedAt := now\<rparr>,
          d\<lparr>idempotency_keys := idempotency_keys d @
              [key\<lparr>ik_ID := k, ik_BusinessID := b, ik_InvoiceID := i, ik_PaymentAttemptID := a,
                   ik_CreatedAt := now\<rparr>]\<rparr>)))))"

definition IdempotencyRepository_GetByKey :: "runtime \<Rightarrow> string \<Rightarrow> string \<Rightarrow> IdempotencyKey stmt" where
  "IdempotencyRepository_GetByKey rt businessID idempotencyKey now d =
     with_uuid rt businessID (\<lambda>b.
       scan_row (find (\<lambda>r. ik_BusinessID r = b \<and> ik_IdempotencyKey r = idempotencyKey)
                   (idempotency_keys d)) d)"

definition IdempotencyRepository_SetPaymentAttemptID :: "runtime \<Rightarrow> string \<Rightarrow> string \<Rightarrow> unit stmt" where
  "IdempotencyRepository_SetPaymentAttemptID rt rid paymentAttemptID now d =
     with_uuid rt paymentAttemptID (\<lambda>a. with_uuid rt rid (\<lambda>k.
       Inr ((), d\<lparr>idempotency_keys := update_where (\<lambda>r. ik_ID r = k)
                    (\<lambda>r. r\<lparr>ik_PaymentAttemptID := Some a\<rparr>) (idempotency_keys d)\<rparr>)))"

lemmas payment_reads =
  InvoiceRepository_GetByID_def InvoiceRepository_GetByIDForUpdate_def
  PaymentAttemptRepository_GetPendingByInvoiceID_def PaymentAttemptRepository_GetByID_def
  IdempotencyRepository_GetByKey_def

lemmas payment_writes =
  InvoiceRepository_Create_def InvoiceRepository_UpdateStatus_def InvoiceRepository_MarkPaidIfOpen_def
  PaymentAttemptRepository_Create_def PaymentAttemptRepository_UpdateStatusIfPending_def
  IdempotencyRepository_Create_def with_uuid_opt_def

lemma payment_read_only [frame]:
  "read_only (InvoiceRepository_GetByID rt rid)"
  "read_only (InvoiceRepository_GetByIDForUpdate rt rid)"
  "read_only (PaymentAttemptRepository_GetPendingByInvoiceID rt rid)"
  "read_only (PaymentAttemptRepository_GetByID rt rid)"
  "read_only (IdempotencyRepository_GetByKey rt b key)"
  by (auto simp: read_only_def payment_reads exec)

end
