(* ===== verification/Repo_Events.thy ===== *)
theory Repo_Events
  imports Repo_Payments "HOL-Library.Char_ord" "HOL-Library.List_Lexorder" "HOL-Library.Product_Lexorder"
begin

text \<open>
  The repositories of the two event tables (\<open>internal/repository\<close>): inbound provider
  webhooks, deduplicated by their event id, and the outbox of merchant notifications.
\<close>

subsection \<open>Inbound webhooks\<close>

definition WebhookEventRepository_Create :: "runtime \<Rightarrow> WebhookEvent \<Rightarrow> WebhookEvent stmt" where
  "WebhookEventRepository_Create rt event now d =
     with_uuid rt (whe_ID event) (\<lambda>k.
       constrained
         [(jsonb_ok rt (whe_Payload event), InvalidText),
          (\<not> list_ex (\<lambda>r. whe_ID r = k) (webhook_events d), UniqueViolation),
          (\<not> list_ex (\<lambda>r. whe_EventID r = whe_EventID event) (webhook_events d), UniqueViolation)]
         (event\<lparr>whe_CreatedAt := now\<rparr>,
          d\<lparr>webhook_events := webhook_events d @
              [event\<lparr>whe_ID := k, whe_CreatedAt := now, whe_ProcessedAt := None\<rparr>]\<rparr>))"

definition WebhookEventRepository_GetByEventID :: "runtime \<Rightarrow> string \<Rightarrow> WebhookEvent stmt" where
  "WebhookEventRepository_GetByEventID rt eventID now d =
     scan_row (find (\<lambda>r. whe_EventID r = eventID) (webhook_events d)) d"

definition WebhookEventRepository_GetPending :: "runtime \<Rightarrow> nat \<Rightarrow> WebhookEvent list stmt" where
  "WebhookEventRepository_GetPending rt limit now d =
     Inr (take limit (sort_key whe_CreatedAt
            (filter (\<lambda>r. whe_Status r = WebhookEventStatusPending) (webhook_events d))), d)"

definition WebhookEventRepository_MarkProcessed :: "runtime \<Rightarrow> string \<Rightarrow> time \<Rightarrow> unit stmt" where
  "WebhookEventRepository_MarkProcessed rt rid processedAt now d =
     with_uuid rt rid (\<lambda>k.
       Inr ((), d\<lparr>webhook_events := update_where (\<lambda>r. whe_ID r = k)
                    (\<lambda>r. r\<lparr>whe_Status := WebhookEventStatusProcessed, whe_ProcessedAt := Some processedAt\<rparr>)
                    (webhook_events d)\<rparr>))"

definition WebhookEventRepository_MarkFailed :: "runtime \<Rightarrow> string \<Rightarrow> unit stmt" where
  "WebhookEventRepository_MarkFailed rt rid now d =
     with_uuid rt rid (\<lambda>k.
       Inr ((), d\<lparr>webhook_events := update_where (\<lambda>r. whe_ID r = k)
                    (\<lambda>r. r\<lparr>whe_Status := WebhookEventStatusFailed\<rparr>) (webhook_events d)\<rparr>))"

subsection \<open>The outbox\<close>

text \<open>
  \<open>ON CONFLICT (event_type, source_id) DO NOTHING\<close>: a second event of the same type and
  source is dropped, and the \<open>ErrNoRows\<close> that reports it counts as success.
\<close>

definition same_source :: "OutboundEvent \<Rightarrow> OutboundEvent \<Rightarrow> bool" where
  "same_source e r \<longleftrightarrow> evt_EventType r = evt_EventType e \<and> evt_SourceID r = evt_SourceID e"

definition OutboundEventRepository_Create :: "runtime \<Rightarrow> OutboundEvent \<Rightarrow> unit stmt" where
  "OutboundEventRepository_Create rt event now d =
     with_uuid rt (evt_ID event) (\<lambda>k.
     with_uuid rt (evt_BusinessID event) (\<lambda>b.
       if list_ex (same_source event) (outbound_events d) then Inr ((), d)
       else constrained
         [(\<not> list_ex (\<lambda>r. evt_ID r = k) (outbound_events d), UniqueViolation),
          (business_exists b d, ForeignKeyViolation)]
         ((), d\<lparr>outbound_events := outbound_events d @
                  [event\<lparr>evt_ID := k, evt_BusinessID := b, evt_LastError := None,
                         evt_CreatedAt := now, evt_DeliveredAt := None\<rparr>]\<rparr>)))"

definition OutboundEventRepository_GetByID :: "runtime \<Rightarrow> string \<Rightarrow> OutboundEvent stmt" where
  "OutboundEventRepository_GetByID rt rid now d =
     with_uuid rt rid (\<lambda>k. scan_row (find (\<lambda>r. evt_ID r = k) (outbound_events d)) d)"

text \<open>
  A page of a business's events: those after the event \<open>afterID\<close>, or from the first when
  it is empty, in the order of their creation. PostgreSQL resolves the operators of a
  statement when the driver prepares it, before any row is read: the comparison of \<open>$2\<close>
  with a text literal makes \<open>$2\<close> a text parameter, and \<open>id = $2\<close> then compares the uuid
  column with a text. Its equality operators for these two types take two operands of one
  type, so the statement is refused.
\<close>

datatype sql_type = SqlText | SqlUuid

definition equality_operator :: "sql_type \<Rightarrow> sql_type \<Rightarrow> bool" where
  "equality_operator a b \<longleftrightarrow> a = b"

definition event_pos :: "OutboundEvent \<Rightarrow> time \<times> string" where
  "event_pos r = (evt_CreatedAt r, evt_ID r)"

definition OutboundEventRepository_ListByBusiness ::
  "runtime \<Rightarrow> string \<Rightarrow> string \<Rightarrow> nat \<Rightarrow> OutboundEvent list stmt" where
  "OutboundEventRepository_ListByBusiness rt businessID afterID limit now d =
     (if \<not> equality_operator SqlUuid SqlText then Inl UndefinedOperator
      else with_uuid rt businessID (\<lambda>b.
        let cursor = find (\<lambda>x. evt_ID x = afterID) (outbound_events d);
            after = (\<lambda>r. afterID = [] \<or> (case cursor of None \<Rightarrow> False | Some x \<Rightarrow> event_pos x < event_pos r))
        in Inr (take limit (sort_key event_pos
                  (filter (\<lambda>r. evt_BusinessID r = b \<and> after r) (outbound_events d))), d)))"

text \<open>
  The claim: the first \<open>limit\<close> pending events that are due, by the time they are due,
  become delivering. The statement returns the rows it changed.
\<close>

definition event_due :: "time \<Rightarrow> OutboundEvent \<Rightarrow> bool" where
  "event_due t r \<longleftrightarrow> evt_Status r = OutboundEventStatusPending \<and> evt_NextRetryAt r \<le> t"

definition due_ids :: "nat \<Rightarrow> time \<Rightarrow> OutboundEvent list \<Rightarrow> string list" where
  "due_ids limit t rs = map evt_ID (take limit (sort_key evt_NextRetryAt (filter (event_due t) rs)))"

definition OutboundEventRepository_ClaimDue :: "nat \<Rightarrow> time \<Rightarrow> OutboundEvent list stmt" where
  "OutboundEventRepository_ClaimDue limit t now d =
     (let ids = due_ids limit t (outbound_events d);
          claim = (\<lambda>r. r\<lparr>evt_Status := OutboundEventStatusDelivering\<rparr>)
      in Inr (map claim (filter (\<lambda>r. evt_ID r \<in> set ids) (outbound_events d)),
              d\<lparr>outbound_events := update_where (\<lambda>r. evt_ID r \<in> set ids) claim (outbound_events d)\<rparr>))"

definition OutboundEventRepository_MarkDelivered :: "runtime \<Rightarrow> string \<Rightarrow> time \<Rightarrow> unit stmt" where
  "OutboundEventRepository_MarkDelivered rt rid deliveredAt now d =
     with_uuid rt rid (\<lambda>k.
       Inr ((), d\<lparr>outbound_events := update_where (\<lambda>r. evt_ID r = k)
                    (\<lambda>r. r\<lparr>evt_Status := OutboundEventStatusDelivered, evt_DeliveredAt := Some deliveredAt,
                            evt_LastError := None\<rparr>) (outbound_events d)\<rparr>))"

definition OutboundEventRepository_MarkRetry ::
  "runtime \<Rightarrow> string \<Rightarrow> int \<Rightarrow> time \<Rightarrow> string \<Rightarrow> unit stmt" where
  "OutboundEventRepository_MarkRetry rt rid attemptCount nextRetryAt lastError now d =
     with_uuid rt rid (\<lambda>k.
       Inr ((), d\<lparr>outbound_events := update_where (\<lambda>r. evt_ID r = k)
                    (\<lambda>r. r\<lparr>evt_Status := OutboundEventStatusPending, evt_AttemptCount := attemptCount,
                            evt_NextRetryAt := nextRetryAt, evt_LastError := Some lastError\<rparr>)
                    (outbound_events d)\<rparr>))"

definition OutboundEventRepository_MarkFailed :: "runtime \<Rightarrow> string \<Rightarrow> int \<Rightarrow> string \<Rightarrow> unit stmt" where
  "OutboundEventRepository_MarkFailed rt rid attemptCount lastError now d =
     with_uuid rt rid (\<lambda>k.
       Inr ((), d\<lparr>outbound_events := update_where (\<lambda>r. evt_ID r = k)
                    (\<lambda>r. r\<lparr>evt_Status := OutboundEventStatusFailed, evt_AttemptCount := attemptCount,
                            evt_LastError := Some lastError\<rparr>) (outbound_events d)\<rparr>))"

definition OutboundEventRepository_ResetForRedelivery :: "runtime \<Rightarrow> string \<Rightarrow> time \<Rightarrow> unit stmt" where
  "OutboundEventRepository_ResetForRedelivery rt rid t now d =
     with_uuid rt rid (\<lambda>k.
       Inr ((), d\<lparr>outbound_events := update_where (\<lambda>r. evt_ID r = k)
                    (\<lambda>r. r\<lparr>evt_Status := OutboundEventStatusPending, evt_AttemptCount := 0,
                            evt_NextRetryAt := t, evt_LastError := None, evt_DeliveredAt := None\<rparr>)
                    (outbound_events d)\<rparr>))"

lemmas outbox_marks =
  OutboundEventRepository_MarkDelivered_def OutboundEventRepository_MarkRetry_def
  OutboundEventRepository_MarkFailed_def OutboundEventRepository_ResetForRedelivery_def

end
