(* ===== verification/Signature.thy ===== *)
theory Signature
  imports Runtime
begin

text \<open>
  Webhook signatures (\<open>internal/webhook/signature.go\<close>): the signed text, the signature, and
  the check of an incoming one, with the replay window computed in Go's \<open>time.Duration\<close>.
\<close>

definition ReplayWindow :: int where "ReplayWindow = 5 * minute"

definition DefaultPSPSecret :: string where "DefaultPSPSecret = ''whsec_mock_psp_dev''"

definition NewSecret :: "runtime \<Rightarrow> ('p, string) act" where
  "NewSecret rt = act_try (rand_Next rt) (\<lambda>b w. (''whsec_'' @ b, w))"

text \<open>\<open>fmt.Sprintf("%s.%d.%s", eventID, unixTs, body)\<close>.\<close>

definition signedPayload :: "string \<Rightarrow> int \<Rightarrow> string \<Rightarrow> string" where
  "signedPayload eventID unixTs body = eventID @ ''.'' @ show_int unixTs @ ''.'' @ body"

text \<open>
  \<open>time.Unix(s, 0)\<close> stores \<open>s\<close> plus a constant in an \<open>int64\<close>; \<open>Unix()\<close> subtracts the
  constant again; \<open>Sub\<close> is the difference, saturated to a \<open>Duration\<close>.
\<close>

definition time_Unix :: "int \<Rightarrow> time" where
  "time_Unix s = (wrap64 (s + unixToInternal) - unixToInternal) * second"

definition unix_of :: "time \<Rightarrow> int" where
  "unix_of t = wrap64 (t div second)"

definition time_Sub :: "time \<Rightarrow> time \<Rightarrow> int" where
  "time_Sub t u = sat64 (t - u)"

definition Sign :: "runtime \<Rightarrow> string \<Rightarrow> string \<Rightarrow> time \<Rightarrow> string \<Rightarrow> string" where
  "Sign rt secret eventID timestamp body =
     ''v1='' @ hmac_sha256_hex rt secret (signedPayload eventID (unix_of timestamp) body)"

text \<open>The skew the code computes: the negation of the least \<open>Duration\<close> is itself.\<close>

definition clock_skew :: "time \<Rightarrow> int \<Rightarrow> int" where
  "clock_skew now unixTs =
     (let skew = time_Sub now (time_Unix unixTs) in if skew < 0 then wrap64 (- skew) else skew)"

definition Verify ::
  "runtime \<Rightarrow> string \<Rightarrow> string \<Rightarrow> string \<Rightarrow> string \<Rightarrow> string \<Rightarrow> time \<Rightarrow> goerr option" where
  "Verify rt secret eventID timestampHeader signature body now =
     (case ParseInt64 timestampHeader of
        None \<Rightarrow> Some ErrInvalidSignature
      | Some unixTs \<Rightarrow>
          if clock_skew now unixTs > ReplayWindow then Some ErrReplay
          else if Sign rt secret eventID (time_Unix unixTs) body \<noteq> signature
          then Some ErrInvalidSignature
          else None)"

subsection \<open>Reading a time back\<close>

lemma unix_of_time_Unix:
  assumes "in_int64 s"
  shows "unix_of (time_Unix s) = s"
proof -
  have "unix_of (time_Unix s) = wrap64 (wrap64 (s + unixToInternal) + - unixToInternal)"
    by (simp add: unix_of_def time_Unix_def second_def)
  also have "\<dots> = wrap64 s"
    by (subst wrap64_wrap64_add) simp
  finally show ?thesis using assms by (simp add: wrap64_id)
qed

text \<open>Timestamps whose internal form does not overflow stand for themselves.\<close>

lemma time_Unix_exact:
  assumes "in_int64 (s + unixToInternal)"
  shows "time_Unix s = s * second"
  using assms by (simp add: time_Unix_def wrap64_id)

lemma clock_skew_exact:
  assumes "in_int64 (s + unixToInternal)" and "in_int64 (now - s * second)" and "now - s * second \<noteq> min_int64"
  shows "clock_skew now s = \<bar>now - s * second\<bar>"
  using assms by (auto simp: clock_skew_def time_Sub_def time_Unix_exact sat64_id Let_def int64_defs)

end
