(* ===== verification/PSP.thy ===== *)
theory PSP
  imports Runtime
begin

text \<open>
  The payment provider as the gateway sees it (\<open>internal/psp\<close>): the interface, and the HTTP
  client that implements it over a transport. A call has two steps, because the provider works
  and other requests run while the client waits: the request leaves, and later the client
  goes on with the answer, or with an error when it stopped waiting or the connection broke.
  What the provider does with the request is not tied to either step. The transport is a
  parameter.
\<close>

record ChargeRequest =
  req_Amount :: int
  req_Currency :: string
  req_CardToken :: string
  req_IdempotencyKey :: string

record ChargeResponse =
  resp_Status :: string
  resp_PSPRef :: string
  resp_Code :: string

text \<open>
  The \<open>PSP\<close> interface. \<open>psp_send\<close> ends with an error at once, or has the request on its way and
  returns the number of the call; \<open>psp_wait\<close> is the end of the call, the provider's work
  during the wait included. \<open>Charge\<close> is a call whose two steps nothing comes between.
\<close>

record 'p charger =
  psp_send :: "ChargeRequest \<Rightarrow> 'p \<Rightarrow> (ChargeResponse result + nat) \<times> 'p"
  psp_wait :: "nat \<Rightarrow> 'p \<Rightarrow> ChargeResponse result \<times> 'p"

definition Charge :: "'p charger \<Rightarrow> ChargeRequest \<Rightarrow> 'p \<Rightarrow> ChargeResponse result \<times> 'p" where
  "Charge psp req p =
     (case psp_send psp req p of
        (Inl r, p') \<Rightarrow> (r, p')
      | (Inr call, p') \<Rightarrow> psp_wait psp call p')"

definition IsUnknownOutcome :: "goerr \<Rightarrow> bool" where
  "IsUnknownOutcome e =
     (case e of ErrTimeout \<Rightarrow> True | ErrUnavailable _ \<Rightarrow> True | DeadlineExceeded \<Rightarrow> True
      | Canceled \<Rightarrow> True | _ \<Rightarrow> False)"

subsection \<open>The HTTP client\<close>

text \<open>
  What \<open>httpClient.Do\<close> and the decoder bring: a network error, which may be a timeout, or
  a status code with the body, if it decodes.
\<close>

datatype net_error = NetDeadline | NetTimeout string | NetOther string

datatype http_outcome = NetError net_error | HTTPStatus nat "ChargeResponse option"

record HTTPRequest =
  hr_url :: string
  hr_idempotency_header :: "string option"
  hr_body :: ChargeRequest

record 'p transport =
  url_error :: "string \<Rightarrow> string option"
  http_Send :: "HTTPRequest \<Rightarrow> 'p \<Rightarrow> nat \<times> 'p"
  http_Wait :: "nat \<Rightarrow> 'p \<Rightarrow> http_outcome \<times> 'p"

definition isTimeout :: "net_error \<Rightarrow> bool" where
  "isTimeout e = (case e of NetDeadline \<Rightarrow> True | NetTimeout _ \<Rightarrow> True | NetOther _ \<Rightarrow> False)"

fun net_text :: "net_error \<Rightarrow> string" where
  "net_text NetDeadline = ''context deadline exceeded''"
| "net_text (NetTimeout s) = s"
| "net_text (NetOther s) = s"

definition charge_http_request :: "string \<Rightarrow> ChargeRequest \<Rightarrow> HTTPRequest" where
  "charge_http_request url req =
     \<lparr>hr_url = url,
      hr_idempotency_header = (if req_IdempotencyKey req \<noteq> [] then Some (req_IdempotencyKey req) else None),
      hr_body = req\<rparr>"

text \<open>What the client makes of the end of \<open>httpClient.Do\<close>.\<close>

definition charge_result :: "http_outcome \<Rightarrow> ChargeResponse result" where
  "charge_result outcome =
     (case outcome of
        NetError e \<Rightarrow> if isTimeout e then Inl ErrTimeout else Inl (ErrUnavailable (net_text e))
      | HTTPStatus code body \<Rightarrow>
          if code \<ge> 500 then Inl (ErrUnavailable [])
          else if code \<ge> 400 then Inl (ErrorString (''psp rejected request: status '' @ show_nat code))
          else (case body of None \<Rightarrow> Inl (ErrUnavailable ''invalid response body'') | Some b \<Rightarrow> Inr b))"

definition HTTPClient_Charge :: "'p transport \<Rightarrow> string \<Rightarrow> 'p charger" where
  "HTTPClient_Charge tr baseURL =
     \<lparr>psp_send = (\<lambda>req p.
        let url = baseURL @ ''/charges'' in
        case url_error tr url of
          Some e \<Rightarrow> (Inl (Inl (ErrorString e)), p)
        | None \<Rightarrow> (case http_Send tr (charge_http_request url req) p of (call, p') \<Rightarrow> (Inr call, p'))),
      psp_wait = (\<lambda>call p. case http_Wait tr call p of (outcome, p') \<Rightarrow> (charge_result outcome, p'))\<rparr>"

end
