(* ===== verification/Payment_Service.thy ===== *)
theory Payment_Service
  imports Repo_Events Signature PSP
begin

text \<open>
  The payment service (\<open>internal/service/payment_service.go\<close>). A handler is a program whose
  atomic steps are the statements it sends to the pool, its transactions, the two
  steps of a call of the provider, and its readings of the clock and of fresh identifiers. The \<open>*attempt\<close> the Go
  code mutates through a pointer is returned as a new value.
\<close>

record 'p PaymentService =
  svc_rt :: runtime
  svc_pspWebhookSecret :: string
  svc_psp :: "'p charger"

text \<open>
  A call of the provider: other handlers, the provider and the environment may move between the
  request and its answer.
\<close>

definition psp_Send :: "'p PaymentService \<Rightarrow> ChargeRequest \<Rightarrow> ('p, ChargeResponse result + nat) act" where
  "psp_Send S req w = (case psp_send (svc_psp S) req (wpsp w) of (sent, p) \<Rightarrow> (sent, w\<lparr>wpsp := p\<rparr>))"

definition psp_Wait :: "'p PaymentService \<Rightarrow> nat \<Rightarrow> ('p, ChargeResponse result) act" where
  "psp_Wait S call w = (case psp_wait (svc_psp S) call (wpsp w) of (r, p) \<Rightarrow> (r, w\<lparr>wpsp := p\<rparr>))"

definition psp_Charge :: "'p PaymentService \<Rightarrow> ChargeRequest \<Rightarrow> ('p world, ChargeResponse result) prog" where
  "psp_Charge S req =
     bindp (atom (psp_Send S req)) (\<lambda>sent.
       case sent of Inl r \<Rightarrow> Done r | Inr call \<Rightarrow> atom (psp_Wait S call))"

lemma run_psp_Charge [simp]:
  "run (psp_Charge S req) w = (case Charge (svc_psp S) req (wpsp w) of (r, p) \<Rightarrow> (r, w\<lparr>wpsp := p\<rparr>))"
  by (auto simp: psp_Charge_def psp_Send_def psp_Wait_def Charge_def split: prod.split sum.split)

subsection \<open>Pure helpers\<close>

definition payableInvoice :: "InvoiceStatus \<Rightarrow> goerr option" where
  "payableInvoice status =
     (case status of
        InvoiceStatusDraft \<Rightarrow> None
      | InvoiceStatusOpen \<Rightarrow> None
      | InvoiceStatusPaid \<Rightarrow> Some ErrInvoiceAlreadyPaid
      | InvoiceStatusVoid \<Rightarrow> Some ErrInvoiceVoid
      | InvoiceStatusUncollectible \<Rightarrow> Some ErrInvoiceUncollectible
      | InvoiceStatusOther _ \<Rightarrow> Some ErrInvoiceVoid)"

definition pay_request_text :: "string \<Rightarrow> string \<Rightarrow> string" where
  "pay_request_text invoiceID cardToken = invoiceID @ CHR 0x0A # cardToken"

definition hashPayRequest :: "runtime \<Rightarrow> string \<Rightarrow> string \<Rightarrow> string" where
  "hashPayRequest rt invoiceID cardToken = sha256_hex rt (pay_request_text invoiceID cardToken)"

subsection \<open>The outbox entry of an attempt\<close>

definition outbound_payload :: "PaymentAttempt \<Rightarrow> string \<Rightarrow> OutboundPayload" where
  "outbound_payload attempt eventType =
     \<lparr>pl_id = att_ID attempt, pl_type = eventType, pl_payment_attempt_id = att_ID attempt,
      pl_invoice_id = att_InvoiceID attempt, pl_business_id = att_BusinessID attempt,
      pl_amount = att_Amount attempt, pl_currency = att_Currency attempt,
      pl_status = att_Status attempt, pl_psp_transaction_id = att_PSPTransactionID attempt,
      pl_failure_code = att_FailureCode attempt\<rparr>"

definition source_id :: "string \<Rightarrow> string \<Rightarrow> string" where
  "source_id attemptID eventType = attemptID @ '':'' @ eventType"

definition enqueueOutboundEvent :: "runtime \<Rightarrow> PaymentAttempt \<Rightarrow> string \<Rightarrow> ('p, unit result) act" where
  "enqueueOutboundEvent rt attempt eventType =
     act_try (uuid_Next rt) (\<lambda>eventID.
     act_try time_Now (\<lambda>now.
       exec_stmt (OutboundEventRepository_Create rt
         \<lparr>evt_ID = eventID, evt_BusinessID = att_BusinessID attempt,
          evt_SourceID = source_id (att_ID attempt) eventType, evt_EventType = eventType,
          evt_Payload = outbound_payload attempt eventType, evt_Status = OutboundEventStatusPending,
          evt_AttemptCount = 0, evt_NextRetryAt = now, evt_LastError = None,
          evt_CreatedAt = time_zero, evt_DeliveredAt = None\<rparr>)))"

subsection \<open>Settling an attempt\<close>

definition succeeded_attempt :: "PaymentAttempt \<Rightarrow> string \<Rightarrow> PaymentAttempt" where
  "succeeded_attempt attempt pspRef =
     attempt\<lparr>att_Status := PaymentAttemptStatusSucceeded, att_PSPTransactionID := Some pspRef,
             att_FailureCode := None\<rparr>"

text \<open>From \<open>MarkPaidIfOpen\<close> to the commit: the invoice, the attempt in memory, the outbox.\<close>

definition settleSuccess :: "runtime \<Rightarrow> PaymentAttempt \<Rightarrow> string \<Rightarrow> ('p, PaymentAttempt result) act" where
  "settleSuccess rt attempt pspRef =
     act_bind (exec_stmt (InvoiceRepository_MarkPaidIfOpen rt (att_InvoiceID attempt))) (\<lambda>_.
     act_bind (enqueueOutboundEvent rt (succeeded_attempt attempt pspRef) EventTypePaymentSucceeded) (\<lambda>_.
     act_ret (succeeded_attempt attempt pspRef)))"

definition persistSuccess_body ::
  "runtime \<Rightarrow> PaymentAttempt \<Rightarrow> string \<Rightarrow> ('p, PaymentAttempt result) act" where
  "persistSuccess_body rt attempt pspRef =
     act_bind (exec_stmt (InvoiceRepository_GetByIDForUpdate rt (att_InvoiceID attempt))) (\<lambda>_.
     act_bind (exec_stmt (PaymentAttemptRepository_UpdateStatusIfPending rt (att_ID attempt)
                 PaymentAttemptStatusSucceeded (Some pspRef) None)) (\<lambda>updated.
       if updated then settleSuccess rt attempt pspRef
       else act_bind (exec_stmt (PaymentAttemptRepository_GetByID rt (att_ID attempt))) (\<lambda>existing.
              if att_Status existing \<noteq> PaymentAttemptStatusSucceeded then act_ret existing
              else settleSuccess rt existing pspRef)))"

definition persistSuccess ::
  "'p PaymentService \<Rightarrow> PaymentAttempt \<Rightarrow> string \<Rightarrow> ('p world, PaymentAttempt result) prog" where
  "persistSuccess S attempt pspRef = atom (transaction (persistSuccess_body (svc_rt S) attempt pspRef))"

text \<open>
  A failure is written outside a transaction: the status first, then the outbox entry.
\<close>

definition failed_attempt :: "PaymentAttempt \<Rightarrow> string \<Rightarrow> PaymentAttempt" where
  "failed_attempt attempt code =
     attempt\<lparr>att_Status := PaymentAttemptStatusFailed, att_FailureCode := Some code\<rparr>"

definition persistFailure ::
  "'p PaymentService \<Rightarrow> PaymentAttempt \<Rightarrow> string \<Rightarrow> ('p world, PaymentAttempt result) prog" where
  "persistFailure S attempt code =
     bindr (atom (exec_stmt (PaymentAttemptRepository_UpdateStatusIfPending (svc_rt S) (att_ID attempt)
              PaymentAttemptStatusFailed None (Some code)))) (\<lambda>updated.
       if \<not> updated
       then atom (exec_stmt (PaymentAttemptRepository_GetByID (svc_rt S) (att_ID attempt)))
       else bindr (atom (enqueueOutboundEvent (svc_rt S) (failed_attempt attempt code)
                     EventTypePaymentFailed)) (\<lambda>_.
            Done (Inr (failed_attempt attempt code))))"

definition decline_code :: "string \<Rightarrow> string" where
  "decline_code code = (if code = [] then ''card_declined'' else code)"

definition chargeAndSettle ::
  "'p PaymentService \<Rightarrow> PaymentAttempt \<Rightarrow> string \<Rightarrow> ('p world, PaymentAttempt result) prog" where
  "chargeAndSettle S attempt cardToken =
     bindp (psp_Charge S
              \<lparr>req_Amount = att_Amount attempt, req_Currency = att_Currency attempt,
               req_CardToken = cardToken, req_IdempotencyKey = att_ID attempt\<rparr>) (\<lambda>response.
       case response of
         Inl err \<Rightarrow>
           if IsUnknownOutcome err then Done (Inr attempt)
           else persistFailure S attempt (err_text (svc_rt S) err)
       | Inr resp \<Rightarrow>
           if resp_Status resp \<noteq> ''succeeded''
           then persistFailure S attempt (decline_code (resp_Code resp))
           else persistSuccess S attempt (resp_PSPRef resp))"

subsection \<open>Paying an invoice\<close>

definition replayIdempotentPay ::
  "'p PaymentService \<Rightarrow> IdempotencyKey \<Rightarrow> string \<Rightarrow> string \<Rightarrow> string
     \<Rightarrow> ('p world, PaymentAttempt result) prog" where
  "replayIdempotentPay S existingKey invoiceID cardToken requestHash =
     (if ik_RequestHash existingKey \<noteq> requestHash \<or> ik_InvoiceID existingKey \<noteq> invoiceID
      then Done (Inl ErrIdempotencyConflict)
      else case ik_PaymentAttemptID existingKey of
        None \<Rightarrow> Done (Inl ErrPaymentInProgress)
      | Some attemptID \<Rightarrow>
          bindr (atom (exec_stmt (PaymentAttemptRepository_GetByID (svc_rt S) attemptID))) (\<lambda>attempt.
            if att_Status attempt \<noteq> PaymentAttemptStatusPending then Done (Inr attempt)
            else chargeAndSettle S attempt cardToken))"

definition createPendingAttempt_body ::
  "runtime \<Rightarrow> string \<Rightarrow> string \<Rightarrow> string \<Rightarrow> string \<Rightarrow> ('p, PaymentAttempt result) act" where
  "createPendingAttempt_body rt businessID invoiceID idempotencyKey requestHash =
     act_try (exec_stmt (InvoiceRepository_GetByIDForUpdate rt invoiceID)) (\<lambda>found.
       case found of
         Inl _ \<Rightarrow> act_fail ErrInvoiceNotFound
       | Inr invoice \<Rightarrow>
           if inv_BusinessID invoice \<noteq> businessID then act_fail ErrInvoiceNotOwned
           else case payableInvoice (inv_Status invoice) of
             Some e \<Rightarrow> act_fail e
           | None \<Rightarrow>
               act_bind
                 (if inv_Status invoice = InvoiceStatusDraft
                  then exec_stmt (InvoiceRepository_UpdateStatus rt (inv_ID invoice) InvoiceStatusOpen)
                  else act_ret ()) (\<lambda>_.
               act_try (uuid_Next rt) (\<lambda>attemptID.
               act_try (uuid_Next rt) (\<lambda>keyID.
               act_bind (exec_stmt (IdempotencyRepository_Create rt
                 \<lparr>ik_ID = keyID, ik_BusinessID = businessID, ik_IdempotencyKey = idempotencyKey,
                  ik_InvoiceID = inv_ID invoice, ik_RequestHash = requestHash,
                  ik_PaymentAttemptID = Some attemptID, ik_CreatedAt = time_zero\<rparr>)) (\<lambda>_.
               act_try (exec_stmt (PaymentAttemptRepository_GetPendingByInvoiceID rt (inv_ID invoice))) (\<lambda>pending.
               case pending of
                 Inr _ \<Rightarrow> act_fail ErrPaymentInProgress
               | Inl pendingErr \<Rightarrow>
                   if pendingErr \<noteq> DBError NoRows then act_fail pendingErr
                   else act_try (exec_stmt (PaymentAttemptRepository_Create rt
                     \<lparr>att_ID = attemptID, att_InvoiceID = inv_ID invoice, att_BusinessID = businessID,
                      att_Amount = inv_Amount invoice, att_Currency = inv_Currency invoice,
                      att_Status = PaymentAttemptStatusPending, att_PSPTransactionID = None,
                      att_FailureCode = None, att_CreatedAt = time_zero, att_UpdatedAt = time_zero\<rparr>)) (\<lambda>created.
                   case created of
                     Inl e \<Rightarrow> act_fail (if isUniqueViolation e then ErrPaymentInProgress else e)
                   | Inr attempt \<Rightarrow> act_ret attempt)))))))"

definition createPendingAttempt ::
  "'p PaymentService \<Rightarrow> string \<Rightarrow> string \<Rightarrow> string \<Rightarrow> string \<Rightarrow> ('p world, PaymentAttempt result) prog" where
  "createPendingAttempt S businessID invoiceID idempotencyKey requestHash =
     atom (transaction (createPendingAttempt_body (svc_rt S) businessID invoiceID idempotencyKey requestHash))"

text \<open>The errors \<open>PayInvoice\<close> returns at once (\<open>ErrInvoiceUncollectible\<close> is not in the list).\<close>

definition pay_errors :: "goerr list" where
  "pay_errors = [ErrIdempotencyConflict, ErrPaymentInProgress, ErrInvoiceAlreadyPaid, ErrInvoiceVoid,
     ErrInvoiceNotOwned, ErrInvoiceNotFound]"

definition PayInvoice ::
  "'p PaymentService \<Rightarrow> string \<Rightarrow> string \<Rightarrow> string \<Rightarrow> string \<Rightarrow> ('p world, PaymentAttempt result) prog" where
  "PayInvoice S businessID invoiceID idempotencyKey cardToken =
     (let requestHash = hashPayRequest (svc_rt S) invoiceID cardToken;
          getByKey = atom (exec_stmt (IdempotencyRepository_GetByKey (svc_rt S) businessID idempotencyKey))
      in bindp getByKey (\<lambda>found.
         case found of
           Inr existingKey \<Rightarrow> replayIdempotentPay S existingKey invoiceID cardToken requestHash
         | Inl err \<Rightarrow>
             if err \<noteq> DBError NoRows then Done (Inl err)
             else bindp (createPendingAttempt S businessID invoiceID idempotencyKey requestHash) (\<lambda>created.
               case created of
                 Inl e \<Rightarrow>
                   if e \<in> set pay_errors then Done (Inl e)
                   else if isUniqueViolation e
                   then bindr getByKey (\<lambda>existingKey.
                          replayIdempotentPay S existingKey invoiceID cardToken requestHash)
                   else Done (Inl e)
               | Inr attempt \<Rightarrow> chargeAndSettle S attempt cardToken)))"

definition GetPaymentAttempt ::
  "'p PaymentService \<Rightarrow> string \<Rightarrow> string \<Rightarrow> ('p world, PaymentAttempt result) prog" where
  "GetPaymentAttempt S businessID attemptID =
     bindp (atom (exec_stmt (PaymentAttemptRepository_GetByID (svc_rt S) attemptID))) (\<lambda>found.
       case found of
         Inl _ \<Rightarrow> Done (Inl ErrPaymentAttemptNotFound)
       | Inr attempt \<Rightarrow>
           if att_BusinessID attempt \<noteq> businessID then Done (Inl ErrPaymentAttemptNotOwned)
           else Done (Inr attempt))"

subsection \<open>Provider webhooks\<close>

definition applyWebhook :: "'p PaymentService \<Rightarrow> pspWebhookPayload \<Rightarrow> ('p world, unit result) prog" where
  "applyWebhook S body =
     (if Data_IdempotencyKey body = [] then Done (Inr ())
      else bindp (atom (exec_stmt (PaymentAttemptRepository_GetByID (svc_rt S) (Data_IdempotencyKey body)))) (\<lambda>found.
        case found of
          Inl _ \<Rightarrow> Done (Inr ())
        | Inr attempt \<Rightarrow>
            if EventType body = ''charge.succeeded'' \<or> Data_Status body = ''succeeded''
            then bindr (persistSuccess S attempt (Data_PSPRef body)) (\<lambda>_. Done (Inr ()))
            else if EventType body = ''charge.failed'' \<or> Data_Status body = ''failed''
            then bindr (persistFailure S attempt (decline_code (Data_Code body))) (\<lambda>_. Done (Inr ()))
            else Done (Inr ())))"

definition processEvent ::
  "'p PaymentService \<Rightarrow> pspWebhookPayload \<Rightarrow> WebhookEvent \<Rightarrow> ('p world, unit result) prog" where
  "processEvent S body event =
     bindp (applyWebhook S body) (\<lambda>applied.
       case applied of
         Inl e \<Rightarrow> bindp (atom (exec_stmt (WebhookEventRepository_MarkFailed (svc_rt S) (whe_ID event))))
                    (\<lambda>_. Done (Inl e))
       | Inr _ \<Rightarrow> atom (act_try time_Now (\<lambda>now.
                    exec_stmt (WebhookEventRepository_MarkProcessed (svc_rt S) (whe_ID event) now))))"

definition ProcessPSPWebhook ::
  "'p PaymentService \<Rightarrow> string \<Rightarrow> string \<Rightarrow> string \<Rightarrow> string \<Rightarrow> ('p world, unit result) prog" where
  "ProcessPSPWebhook S payload eventID timestamp signature =
     bindp (atom time_Now) (\<lambda>now.
       case Verify (svc_rt S) (svc_pspWebhookSecret S) eventID timestamp signature payload now of
         Some e \<Rightarrow> Done (Inl e)
       | None \<Rightarrow>
         (case json_webhook (svc_rt S) payload of
            None \<Rightarrow> Done (Inl (ErrorString ''invalid request body''))
          | Some body \<Rightarrow>
              if EventID body = [] then Done (Inl (ErrorString ''event_id is required''))
              else if EventType body = [] then Done (Inl (ErrorString ''event_type is required''))
              else bindp (atom (uuid_Next (svc_rt S))) (\<lambda>newID.
                   bindp (atom (exec_stmt (WebhookEventRepository_Create (svc_rt S)
                     \<lparr>whe_ID = newID, whe_EventID = EventID body, whe_EventType = EventType body,
                      whe_Payload = payload, whe_Status = WebhookEventStatusPending,
                      whe_CreatedAt = time_zero, whe_ProcessedAt = None\<rparr>))) (\<lambda>created.
                   case created of
                     Inr event \<Rightarrow> processEvent S body event
                   | Inl e \<Rightarrow>
                       if \<not> isUniqueViolation e then Done (Inl e)
                       else bindr (atom (exec_stmt (WebhookEventRepository_GetByEventID (svc_rt S)
                              (EventID body)))) (\<lambda>existing.
                            if whe_Status existing = WebhookEventStatusProcessed then Done (Inr ())
                            else processEvent S body existing)))))"

end
