(* ===== verification/Repo_Accounts.thy ===== *)
theory Repo_Accounts
  imports Repo_Payments
begin

text \<open>
  The repositories of businesses, customers and API keys (\<open>internal/repository\<close>).
\<close>

subsection \<open>Businesses\<close>

definition BusinessRepository_Create :: "runtime \<Rightarrow> Business \<Rightarrow> Business stmt" where
  "BusinessRepository_Create rt business now d =
     with_uuid rt (biz_ID business) (\<lambda>b.
       constrained [(\<not> business_exists b d, UniqueViolation)]
         (business\<lparr>biz_CreatedAt := now\<rparr>,
          d\<lparr>businesses := businesses d @
              [business\<lparr>biz_ID := b, biz_WebhookURL := None, biz_CreatedAt := now\<rparr>]\<rparr>))"

definition BusinessRepository_GetByID :: "runtime \<Rightarrow> string \<Rightarrow> Business stmt" where
  "BusinessRepository_GetByID rt rid now d =
     with_uuid rt rid (\<lambda>b. scan_row (find (\<lambda>r. biz_ID r = b) (businesses d)) d)"

definition BusinessRepository_UpdateWebhookEndpoint :: "runtime \<Rightarrow> string \<Rightarrow> string \<Rightarrow> string \<Rightarrow> unit stmt" where
  "BusinessRepository_UpdateWebhookEndpoint rt rid url secret now d =
     with_uuid rt rid (\<lambda>b.
       Inr ((), d\<lparr>businesses := update_where (\<lambda>r. biz_ID r = b)
                    (\<lambda>r. r\<lparr>biz_WebhookURL := Some url, biz_WebhookSecret := secret\<rparr>) (businesses d)\<rparr>))"

definition BusinessRepository_Exists :: "runtime \<Rightarrow> string \<Rightarrow> bool stmt" where
  "BusinessRepository_Exists rt rid now d = with_uuid rt rid (\<lambda>b. Inr (business_exists b d, d))"

subsection \<open>Customers\<close>

definition CustomerRepository_Create :: "runtime \<Rightarrow> Customer \<Rightarrow> Customer stmt" where
  "CustomerRepository_Create rt customer now d =
     with_uuid rt (cus_ID customer) (\<lambda>c.
     with_uuid rt (cus_BusinessID customer) (\<lambda>b.
       constrained
         [(\<not> customer_exists c d, UniqueViolation),
          (\<not> list_ex (\<lambda>r. cus_BusinessID r = b \<and> cus_Email r = cus_Email customer) (customers d), UniqueViolation),
          (business_exists b d, ForeignKeyViolation)]
         (customer\<lparr>cus_CreatedAt := now\<rparr>,
          d\<lparr>customers := customers d @ [customer\<lparr>cus_ID := c, cus_BusinessID := b, cus_CreatedAt := now\<rparr>]\<rparr>)))"

definition CustomerRepository_GetByID :: "runtime \<Rightarrow> string \<Rightarrow> Customer stmt" where
  "CustomerRepository_GetByID rt rid now d =
     with_uuid rt rid (\<lambda>c. scan_row (find (\<lambda>r. cus_ID r = c) (customers d)) d)"

subsection \<open>API keys\<close>

definition key_active :: "APIKey \<Rightarrow> bool" where
  "key_active k \<longleftrightarrow> key_RevokedAt k = None"

definition APIKeyRepository_Create :: "runtime \<Rightarrow> APIKey \<Rightarrow> APIKey stmt" where
  "APIKeyRepository_Create rt apiKey now d =
     with_uuid rt (key_ID apiKey) (\<lambda>k.
     with_uuid rt (key_BusinessID apiKey) (\<lambda>b.
       constrained
         [(\<not> list_ex (\<lambda>r. key_ID r = k) (api_keys d), UniqueViolation),
          (\<not> list_ex (\<lambda>r. key_KeyHash r = key_KeyHash apiKey) (api_keys d), UniqueViolation),
          (business_exists b d, ForeignKeyViolation)]
         (apiKey\<lparr>key_CreatedAt := now\<rparr>,
          d\<lparr>api_keys := api_keys d @
              [apiKey\<lparr>key_ID := k, key_BusinessID := b, key_CreatedAt := now,
                      key_LastUsedAt := None, key_RevokedAt := None\<rparr>]\<rparr>)))"

definition APIKeyRepository_GetByHash :: "string \<Rightarrow> APIKey stmt" where
  "APIKeyRepository_GetByHash keyHash now d =
     scan_row (find (\<lambda>r. key_KeyHash r = keyHash \<and> key_active r) (api_keys d)) d"

definition APIKeyRepository_GetByID :: "runtime \<Rightarrow> string \<Rightarrow> APIKey stmt" where
  "APIKeyRepository_GetByID rt rid now d =
     with_uuid rt rid (\<lambda>k. scan_row (find (\<lambda>r. key_ID r = k) (api_keys d)) d)"

text \<open>Newest first.\<close>

definition APIKeyRepository_ListByBusiness :: "runtime \<Rightarrow> string \<Rightarrow> APIKey list stmt" where
  "APIKeyRepository_ListByBusiness rt businessID now d =
     with_uuid rt businessID (\<lambda>b.
       Inr (sort_key (\<lambda>r. - key_CreatedAt r) (filter (\<lambda>r. key_BusinessID r = b) (api_keys d)), d))"

definition APIKeyRepository_CountActive :: "runtime \<Rightarrow> string \<Rightarrow> int stmt" where
  "APIKeyRepository_CountActive rt businessID now d =
     with_uuid rt businessID (\<lambda>b.
       Inr (int (length (filter (\<lambda>r. key_BusinessID r = b \<and> key_active r) (api_keys d))), d))"

definition APIKeyRepository_Revoke :: "runtime \<Rightarrow> string \<Rightarrow> time \<Rightarrow> unit stmt" where
  "APIKeyRepository_Revoke rt rid revokedAt now d =
     with_uuid rt rid (\<lambda>k.
       Inr ((), d\<lparr>api_keys := update_where (\<lambda>r. key_ID r = k \<and> key_active r)
                    (\<lambda>r. r\<lparr>key_RevokedAt := Some revokedAt\<rparr>) (api_keys d)\<rparr>))"

definition APIKeyRepository_TouchLastUsed :: "runtime \<Rightarrow> string \<Rightarrow> time \<Rightarrow> unit stmt" where
  "APIKeyRepository_TouchLastUsed rt rid usedAt now d =
     with_uuid rt rid (\<lambda>k.
       Inr ((), d\<lparr>api_keys := update_where (\<lambda>r. key_ID r = k)
                    (\<lambda>r. r\<lparr>key_LastUsedAt := Some usedAt\<rparr>) (api_keys d)\<rparr>))"

lemmas account_reads =
  BusinessRepository_GetByID_def BusinessRepository_Exists_def CustomerRepository_GetByID_def
  APIKeyRepository_GetByHash_def APIKeyRepository_GetByID_def APIKeyRepository_ListByBusiness_def
  APIKeyRepository_CountActive_def

lemmas account_writes =
  BusinessRepository_Create_def BusinessRepository_UpdateWebhookEndpoint_def
  CustomerRepository_Create_def APIKeyRepository_Create_def APIKeyRepository_Revoke_def
  APIKeyRepository_TouchLastUsed_def

lemma account_read_only [frame]:
  "read_only (BusinessRepository_GetByID rt rid)"
  "read_only (BusinessRepository_Exists rt rid)"
  "read_only (CustomerRepository_GetByID rt rid)"
  "read_only (APIKeyRepository_GetByHash h)"
  "read_only (APIKeyRepository_GetByID rt rid)"
  "read_only (APIKeyRepository_ListByBusiness rt rid)"
  "read_only (APIKeyRepository_CountActive rt rid)"
  by (auto simp: read_only_def account_reads exec)

end
