(* ===== verification/Accounts.thy ===== *)
theory Accounts
  imports Repo_Accounts Signature
begin

text \<open>
  The services of businesses, customers, API keys and invoices (\<open>internal/service\<close>). A
  value the Go code returns through a struct pointer it passed to a repository is the
  struct with the columns the statement returned.
\<close>

subsection \<open>Text\<close>

text \<open>
  \<open>strings.TrimSpace\<close> and \<open>strings.ToUpper\<close>: Go handles ASCII itself and hands any other
  text to the Unicode tables, which are parameters.
\<close>

definition ascii :: "char \<Rightarrow> bool" where
  "ascii c \<longleftrightarrow> of_char c < (128 :: nat)"

definition ascii_space :: "char \<Rightarrow> bool" where
  "ascii_space c \<longleftrightarrow> (of_char c :: nat) \<in> {9, 10, 11, 12, 13, 32}"

definition ascii_upper :: "char \<Rightarrow> char" where
  "ascii_upper c = (let n = of_char c :: nat in if 97 \<le> n \<and> n \<le> 122 then char_of (n - 32) else c)"

definition TrimSpace :: "runtime \<Rightarrow> string \<Rightarrow> string" where
  "TrimSpace rt s =
     (let front = dropWhile ascii_space s;
          back = rev (dropWhile ascii_space (rev front))
      in if front \<noteq> [] \<and> \<not> ascii (hd front) then unicode_trim rt front
         else if back \<noteq> [] \<and> \<not> ascii (last back) then unicode_trim rt back
         else back)"

definition ToUpper :: "runtime \<Rightarrow> string \<Rightarrow> string" where
  "ToUpper rt s = (if list_all ascii s then map ascii_upper s else unicode_upper rt s)"

subsection \<open>Businesses and customers\<close>

definition CreateBusiness :: "runtime \<Rightarrow> string \<Rightarrow> ('p world, Business result) prog" where
  "CreateBusiness rt name =
     bindp (atom (uuid_Next rt)) (\<lambda>newID.
     bindp (atom (NewSecret rt)) (\<lambda>secret.
       atom (exec_stmt (BusinessRepository_Create rt
         \<lparr>biz_ID = newID, biz_Name = name, biz_WebhookURL = None, biz_WebhookSecret = secret,
          biz_CreatedAt = time_zero\<rparr>))))"

definition CreateCustomer :: "runtime \<Rightarrow> string \<Rightarrow> string \<Rightarrow> string \<Rightarrow> ('p world, Customer result) prog" where
  "CreateCustomer rt businessID name email =
     bindr (atom (exec_stmt (BusinessRepository_Exists rt businessID))) (\<lambda>exists.
       if \<not> exists then Done (Inl (ErrorString ''business not found''))
       else bindp (atom (uuid_Next rt)) (\<lambda>newID.
         atom (exec_stmt (CustomerRepository_Create rt
           \<lparr>cus_ID = newID, cus_BusinessID = businessID, cus_Name = name, cus_Email = email,
            cus_CreatedAt = time_zero\<rparr>))))"

subsection \<open>API keys\<close>

definition apiKeySecretPrefix :: string where
  "apiKeySecretPrefix = ''dodo_live_''"

definition issueKey :: "runtime \<Rightarrow> string \<Rightarrow> string option \<Rightarrow> ('p world, (string \<times> APIKey) result) prog" where
  "issueKey rt businessID name =
     bindp (atom (rand_Next rt)) (\<lambda>secret.
     bindp (atom (uuid_Next rt)) (\<lambda>newID.
       let rawKey = apiKeySecretPrefix @ secret in
       bindr (atom (exec_stmt (APIKeyRepository_Create rt
         \<lparr>key_ID = newID, key_BusinessID = businessID, key_Name = name,
          key_KeyPrefix = apiKeySecretPrefix @ take 8 secret, key_KeyHash = sha256_hex rt rawKey,
          key_CreatedAt = time_zero, key_LastUsedAt = None, key_RevokedAt = None\<rparr>))) (\<lambda>apiKey.
         Done (Inr (rawKey, apiKey)))))"

definition CreateAPIKey ::
  "runtime \<Rightarrow> string \<Rightarrow> string option \<Rightarrow> bool \<Rightarrow> ('p world, (string \<times> APIKey) result) prog" where
  "CreateAPIKey rt businessID name authenticated =
     bindr (atom (exec_stmt (BusinessRepository_Exists rt businessID))) (\<lambda>exists.
       if \<not> exists then Done (Inl ErrBusinessNotFound)
       else if authenticated then issueKey rt businessID name
       else bindr (atom (exec_stmt (APIKeyRepository_CountActive rt businessID))) (\<lambda>active.
              if active > 0 then Done (Inl ErrAPIKeyBootstrap)
              else issueKey rt businessID name))"

definition ListAPIKeys :: "runtime \<Rightarrow> string \<Rightarrow> ('p world, APIKey list result) prog" where
  "ListAPIKeys rt businessID = atom (exec_stmt (APIKeyRepository_ListByBusiness rt businessID))"

definition ownedKey :: "runtime \<Rightarrow> string \<Rightarrow> string \<Rightarrow> ('p world, APIKey result) prog" where
  "ownedKey rt businessID keyID =
     bindp (atom (exec_stmt (APIKeyRepository_GetByID rt keyID))) (\<lambda>found.
       case found of
         Inl _ \<Rightarrow> Done (Inl ErrAPIKeyNotFound)
       | Inr key \<Rightarrow>
           if key_BusinessID key \<noteq> businessID then Done (Inl ErrAPIKeyNotOwned)
           else Done (Inr key))"

definition RevokeAPIKey :: "runtime \<Rightarrow> string \<Rightarrow> string \<Rightarrow> ('p world, APIKey result) prog" where
  "RevokeAPIKey rt businessID keyID =
     bindr (ownedKey rt businessID keyID) (\<lambda>key.
       if key_RevokedAt key \<noteq> None then Done (Inl ErrAPIKeyRevoked)
       else bindp (atom time_Now) (\<lambda>now.
         bindr (atom (exec_stmt (APIKeyRepository_Revoke rt (key_ID key) now))) (\<lambda>_.
           Done (Inr (key\<lparr>key_RevokedAt := Some now\<rparr>)))))"

text \<open>The secret of the new key, the new key, and the old one.\<close>

definition RotateAPIKey ::
  "runtime \<Rightarrow> string \<Rightarrow> string \<Rightarrow> ('p world, (string \<times> APIKey \<times> APIKey) result) prog" where
  "RotateAPIKey rt businessID keyID =
     bindr (ownedKey rt businessID keyID) (\<lambda>oldKey.
       if key_RevokedAt oldKey \<noteq> None then Done (Inl ErrAPIKeyRevoked)
       else bindr (issueKey rt businessID (key_Name oldKey)) (\<lambda>(rawKey, newKey).
         bindp (atom time_Now) (\<lambda>now.
           bindr (atom (exec_stmt (APIKeyRepository_Revoke rt (key_ID oldKey) now))) (\<lambda>_.
             Done (Inr (rawKey, newKey, oldKey\<lparr>key_RevokedAt := Some now\<rparr>))))))"

subsection \<open>Invoices\<close>

definition CreateInvoice ::
  "runtime \<Rightarrow> string \<Rightarrow> string \<Rightarrow> string \<Rightarrow> int \<Rightarrow> ('p world, Invoice result) prog" where
  "CreateInvoice rt businessID customerID currency0 amount =
     (if amount \<le> 0 then Done (Inl (ErrorString ''amount must be greater than zero''))
      else let currency = ToUpper rt (TrimSpace rt currency0) in
        if currency = [] then Done (Inl (ErrorString ''currency is required''))
        else bindr (atom (exec_stmt (BusinessRepository_Exists rt businessID))) (\<lambda>businessExists.
          if \<not> businessExists then Done (Inl (ErrorString ''business not found''))
          else bindp (atom (exec_stmt (CustomerRepository_GetByID rt customerID))) (\<lambda>found.
            case found of
              Inl _ \<Rightarrow> Done (Inl (ErrorString ''customer not found''))
            | Inr customer \<Rightarrow>
                if cus_BusinessID customer \<noteq> businessID
                then Done (Inl (ErrorString ''customer does not belong to business''))
                else bindp (atom (uuid_Next rt)) (\<lambda>newID.
                  atom (exec_stmt (InvoiceRepository_Create rt
                    \<lparr>inv_ID = newID, inv_BusinessID = businessID, inv_CustomerID = customerID,
                     inv_Currency = currency, inv_Amount = amount, inv_Status = InvoiceStatusDraft,
                     inv_CreatedAt = time_zero, inv_UpdatedAt = time_zero\<rparr>))))))"

definition GetInvoice :: "runtime \<Rightarrow> string \<Rightarrow> string \<Rightarrow> ('p world, Invoice result) prog" where
  "GetInvoice rt businessID invoiceID =
     bindp (atom (exec_stmt (InvoiceRepository_GetByID rt invoiceID))) (\<lambda>found.
       case found of
         Inl _ \<Rightarrow> Done (Inl (ErrorString ''invoice not found''))
       | Inr invoice \<Rightarrow>
           if inv_BusinessID invoice \<noteq> businessID
           then Done (Inl (ErrorString ''invoice does not belong to business''))
           else Done (Inr invoice))"

end
