(* ===== verification/Webhook_Service.thy ===== *)
theory Webhook_Service
  imports Repo_Events Accounts
begin

text \<open>
  The merchants' side of the outbox: their endpoint, their events, and asking for an event
  again (\<open>internal/service/webhook_service.go\<close>).
\<close>

definition SetEndpoint :: "runtime \<Rightarrow> string \<Rightarrow> string \<Rightarrow> ('p world, Business result) prog" where
  "SetEndpoint rt businessID url0 =
     (let url = TrimSpace rt url0 in
      if url = [] then Done (Inl ErrWebhookURLRequired)
      else bindr (atom (exec_stmt (BusinessRepository_GetByID rt businessID))) (\<lambda>business.
        bindp (if biz_WebhookSecret business = [] then atom (NewSecret rt)
               else Done (biz_WebhookSecret business)) (\<lambda>secret.
        bindr (atom (exec_stmt (BusinessRepository_UpdateWebhookEndpoint rt businessID url secret))) (\<lambda>_.
          Done (Inr (business\<lparr>biz_WebhookURL := Some url, biz_WebhookSecret := secret\<rparr>))))))"

definition ListEvents ::
  "runtime \<Rightarrow> string \<Rightarrow> string \<Rightarrow> int \<Rightarrow> ('p world, OutboundEvent list result) prog" where
  "ListEvents rt businessID afterID limit0 =
     (let limit = (if limit0 \<le> 0 \<or> limit0 > 100 then 50 else limit0) in
      atom (exec_stmt (OutboundEventRepository_ListByBusiness rt businessID afterID (nat limit))))"

definition GetEvent :: "runtime \<Rightarrow> string \<Rightarrow> string \<Rightarrow> ('p world, OutboundEvent result) prog" where
  "GetEvent rt businessID eventID =
     bindp (atom (exec_stmt (OutboundEventRepository_GetByID rt eventID))) (\<lambda>found.
       case found of
         Inl _ \<Rightarrow> Done (Inl ErrEventNotFound)
       | Inr event \<Rightarrow>
           if evt_BusinessID event \<noteq> businessID then Done (Inl ErrEventNotOwned)
           else Done (Inr event))"

definition Redeliver :: "runtime \<Rightarrow> string \<Rightarrow> string \<Rightarrow> ('p world, OutboundEvent result) prog" where
  "Redeliver rt businessID eventID =
     bindr (GetEvent rt businessID eventID) (\<lambda>event.
     bindp (atom time_Now) (\<lambda>now.
     bindr (atom (exec_stmt (OutboundEventRepository_ResetForRedelivery rt (evt_ID event) now))) (\<lambda>_.
       GetEvent rt businessID eventID)))"

text \<open>
  The query behind the list compares the uuid column \<open>id\<close> with its text parameter. PostgreSQL
  has no operator for that, so the statement fails whatever the tables hold and no page of
  events is ever listed.
\<close>

lemma list_needs_operator:
  "\<exists>e w'. run (ListEvents rt businessID afterID limit) w = (Inl e, w') \<and> wdb w' = wdb w"
proof -
  have "\<exists>e. r = Inl e \<and> wdb w' = wdb w"
    if "exec_stmt (OutboundEventRepository_ListByBusiness rt businessID afterID n) w = (r, w')" for n r w'
    using that by (auto simp: exec_stmt_def OutboundEventRepository_ListByBusiness_def equality_operator_def
        dest!: next_fate_frame split: prod.splits fate.splits)
  then show ?thesis by (simp add: ListEvents_def) (metis surj_pair)
qed

end
