(* ===== verification/Retry.thy ===== *)
theory Retry
  imports Runtime
begin

text \<open>The retry schedule of merchant webhooks (\<open>internal/webhook/retry.go\<close>).\<close>

definition MaxAttempts :: int where "MaxAttempts = 8"
definition AttemptTimeout :: int where "AttemptTimeout = 5 * second"
definition DispatcherPollInterval :: int where "DispatcherPollInterval = 1 * second"
definition ClaimBatchSize :: nat where "ClaimBatchSize = 10"

definition BackoffAfterFailure :: "int list" where
  "BackoffAfterFailure =
     [5 * second, 25 * second, 2 * minute, 10 * minute, 30 * minute, 2 * hour, 6 * hour]"

text \<open>The time of the next attempt and whether there is one.\<close>

definition NextRetryAt :: "int \<Rightarrow> time \<Rightarrow> time \<times> bool" where
  "NextRetryAt failedAttempts now =
     (if failedAttempts \<ge> MaxAttempts then (time_zero, False)
      else if failedAttempts \<le> 0 then (now, True)
      else if failedAttempts > int (length BackoffAfterFailure) then (time_zero, False)
      else (now + BackoffAfterFailure ! nat (failedAttempts - 1), True))"

lemmas retry_defs = MaxAttempts_def BackoffAfterFailure_def second_def minute_def hour_def

lemma NextRetryAt_ok: "snd (NextRetryAt n now) \<longleftrightarrow> n < MaxAttempts"
  by (auto simp: NextRetryAt_def retry_defs)

lemma BackoffAfterFailure_pos: "d \<in> set BackoffAfterFailure \<Longrightarrow> 0 < d"
  by (auto simp: retry_defs)

end
