(* ===== verification/Dispatcher.thy ===== *)
theory Dispatcher
  imports Repo_Events Repo_Accounts Signature Retry
begin

text \<open>
  The worker that delivers the outbox to the merchants (\<open>internal/worker\<close>). What
  \<open>http.NewRequest\<close> rejects and what the merchants' endpoints answer are parameters.
\<close>

record MerchantRequest =
  mr_url :: string
  mr_HeaderID :: string
  mr_HeaderTimestamp :: string
  mr_HeaderSignature :: string
  mr_body :: string

text \<open>The answer to a delivery: the text of an error, or the status code.\<close>

record 'p merchants =
  mch_new_request_error :: "string \<Rightarrow> string option"
  mch_Do :: "MerchantRequest \<Rightarrow> 'p \<Rightarrow> (string + nat) \<times> 'p"

record 'p WebhookDispatcher =
  wd_rt :: runtime
  wd_http :: "'p merchants"

definition merchant_Do :: "'p WebhookDispatcher \<Rightarrow> MerchantRequest \<Rightarrow> ('p, string + nat) act" where
  "merchant_Do D req w = (case mch_Do (wd_http D) req (wpsp w) of (r, p) \<Rightarrow> (r, w\<lparr>wpsp := p\<rparr>))"

text \<open>A failed delivery: another attempt after the schedule's wait, or none. Errors are only logged.\<close>

definition recordFailure :: "'p WebhookDispatcher \<Rightarrow> OutboundEvent \<Rightarrow> string \<Rightarrow> ('p world, unit result) prog" where
  "recordFailure D event reason =
     (let failedAttempts = evt_AttemptCount event + 1 in
      bindp (atom time_Now) (\<lambda>now.
        case NextRetryAt failedAttempts now of (next, ok) \<Rightarrow>
          if \<not> ok
          then atom (exec_stmt (OutboundEventRepository_MarkFailed (wd_rt D) (evt_ID event) failedAttempts reason))
          else atom (exec_stmt (OutboundEventRepository_MarkRetry (wd_rt D) (evt_ID event) failedAttempts
                  next reason))))"

definition delivery_request :: "'p WebhookDispatcher \<Rightarrow> Business \<Rightarrow> OutboundEvent \<Rightarrow> string \<Rightarrow> time \<Rightarrow> MerchantRequest" where
  "delivery_request D business event url now =
     \<lparr>mr_url = url, mr_HeaderID = evt_ID event, mr_HeaderTimestamp = show_int (unix_of now),
      mr_HeaderSignature = Sign (wd_rt D) (biz_WebhookSecret business) (evt_ID event) now
        (payload_text (wd_rt D) (evt_Payload event)),
      mr_body = payload_text (wd_rt D) (evt_Payload event)\<rparr>"

definition deliverOne :: "'p WebhookDispatcher \<Rightarrow> OutboundEvent \<Rightarrow> ('p world, unit result) prog" where
  "deliverOne D event =
     bindp (atom (exec_stmt (BusinessRepository_GetByID (wd_rt D) (evt_BusinessID event)))) (\<lambda>found.
       case found of
         Inl _ \<Rightarrow> recordFailure D event ''business not found''
       | Inr business \<Rightarrow>
         (case biz_WebhookURL business of
            None \<Rightarrow> recordFailure D event ''webhook url not configured''
          | Some url \<Rightarrow>
              if url = [] then recordFailure D event ''webhook url not configured''
              else bindp (atom time_Now) (\<lambda>now.
                case mch_new_request_error (wd_http D) url of
                  Some e \<Rightarrow> recordFailure D event e
                | None \<Rightarrow>
                    bindp (atom (merchant_Do D (delivery_request D business event url now))) (\<lambda>resp.
                    case resp of
                      Inl e \<Rightarrow> recordFailure D event e
                    | Inr code \<Rightarrow>
                        if 200 \<le> code \<and> code < 300
                        then bindp (atom time_Now) (\<lambda>deliveredAt.
                          atom (exec_stmt (OutboundEventRepository_MarkDelivered (wd_rt D) (evt_ID event)
                            deliveredAt)))
                        else recordFailure D event (''http '' @ show_nat code)))))"

text \<open>The loop over the claimed events.\<close>

primrec deliverAll :: "'p WebhookDispatcher \<Rightarrow> OutboundEvent list \<Rightarrow> ('p world, unit result) prog" where
  "deliverAll D [] = Done (Inr ())"
| "deliverAll D (event # events) = bindp (deliverOne D event) (\<lambda>_. deliverAll D events)"

definition DeliverDue :: "'p WebhookDispatcher \<Rightarrow> ('p world, unit result) prog" where
  "DeliverDue D =
     bindp (atom time_Now) (\<lambda>now.
     bindr (atom (exec_stmt (OutboundEventRepository_ClaimDue ClaimBatchSize now))) (\<lambda>events.
       deliverAll D events))"

text \<open>
  \<open>Run\<close> polls at every tick until its context ends, which the server's never does; the
  model runs it for a number of ticks. An error of a poll is logged and the loop goes on.
\<close>

primrec DispatcherRun :: "'p WebhookDispatcher \<Rightarrow> nat \<Rightarrow> ('p world, unit result) prog" where
  "DispatcherRun D 0 = Done (Inr ())"
| "DispatcherRun D (Suc n) = bindp (DeliverDue D) (\<lambda>_. DispatcherRun D n)"

end
