(* ===== verification/Auth.thy ===== *)
theory Auth
  imports Repo_Accounts
begin

text \<open>
  Authentication by API key (\<open>internal/middleware/auth.go\<close>). A middleware either aborts
  the request with a response or lets it continue, with the business and the key of the
  request in its context. A missing header is the empty string, as \<open>GetHeader\<close> returns it.
\<close>

text \<open>\<open>strings.SplitN(s, " ", 2)\<close>.\<close>

fun split_space :: "string \<Rightarrow> string \<times> string option" where
  "split_space [] = ([], None)"
| "split_space (c # cs) =
     (if c = CHR '' '' then ([], Some cs)
      else case split_space cs of (l, r) \<Rightarrow> (c # l, r))"

text \<open>\<open>Some token\<close> when the header is a bearer header.\<close>

definition bearer_token :: "string \<Rightarrow> string option" where
  "bearer_token authHeader =
     (case split_space authHeader of (scheme, r) \<Rightarrow> if scheme = ''Bearer'' then r else None)"

text \<open>\<open>Inl message\<close> stands for a 401 response with the message and the end of the request.\<close>

definition authenticateAPIKey ::
  "runtime \<Rightarrow> string \<Rightarrow> bool \<Rightarrow> ('p world, string + APIKey option) prog" where
  "authenticateAPIKey rt authHeader required =
     (if authHeader = [] then
        if \<not> required then Done (Inr None) else Done (Inl ''missing authorization header'')
      else case bearer_token authHeader of
        None \<Rightarrow> Done (Inl ''invalid authorization header'')
      | Some token \<Rightarrow>
          bindp (atom (exec_stmt (APIKeyRepository_GetByHash (sha256_hex rt token)))) (\<lambda>found.
            case found of
              Inl _ \<Rightarrow> Done (Inl ''invalid API key'')
            | Inr apiKey \<Rightarrow> Done (Inr (Some apiKey))))"

text \<open>The context a request continues with: the business and the key, or neither.\<close>

type_synonym auth_context = "(string \<times> string) option"

definition key_context :: "APIKey option \<Rightarrow> auth_context" where
  "key_context k = map_option (\<lambda>k. (key_BusinessID k, key_ID k)) k"

definition APIKeyAuth :: "runtime \<Rightarrow> string \<Rightarrow> ('p world, string + auth_context) prog" where
  "APIKeyAuth rt authHeader =
     bindp (authenticateAPIKey rt authHeader True) (\<lambda>r.
       case r of Inl msg \<Rightarrow> Done (Inl msg) | Inr k \<Rightarrow> Done (Inr (key_context k)))"

text \<open>The goroutine \<open>APIKeyAuth\<close> starts; it runs beside the request.\<close>

definition touchLastUsed :: "runtime \<Rightarrow> string \<Rightarrow> ('p world, unit result) prog" where
  "touchLastUsed rt keyID =
     bindp (atom time_Now) (\<lambda>now. atom (exec_stmt (APIKeyRepository_TouchLastUsed rt keyID now)))"

definition OptionalAPIKeyAuth :: "runtime \<Rightarrow> string \<Rightarrow> ('p world, string + auth_context) prog" where
  "OptionalAPIKeyAuth rt authHeader =
     (if authHeader = [] then Done (Inr None)
      else bindp (authenticateAPIKey rt authHeader True) (\<lambda>r.
        case r of Inl msg \<Rightarrow> Done (Inl msg) | Inr k \<Rightarrow> Done (Inr (key_context k))))"

end
