(* ===== verification/Handlers.thy ===== *)
theory Handlers
  imports Payment_Service Webhook_Service Dispatcher Auth
begin

text \<open>
  The HTTP handlers (\<open>internal/handler\<close>, \<open>internal/httperr\<close>) and the routes
  \<open>cmd/server\<close> installs. A decoded request body is an option of its fields, \<open>None\<close> when it
  does not decode; a response is a status code and a body. The branch for a business id
  that is not a string is left out: the middleware only stores strings.
\<close>

datatype Body =
    BodyError string
  | BodyOK
  | BodyReceived
  | BodyBusiness Business
  | BodyCustomer Customer
  | BodyInvoice Invoice
  | BodyAttempt PaymentAttempt
  | BodyNewKey string APIKey
  | BodyKeys "APIKey list"
  | BodyKey APIKey
  | BodyRotated string APIKey APIKey
  | BodyEndpoint "string option" string
  | BodyEvent OutboundEvent
  | BodyEvents "OutboundEvent list"

type_synonym response = "nat \<times> Body"

definition BadRequest :: "string \<Rightarrow> response" where "BadRequest m = (400, BodyError m)"
definition Unauthorized :: "string \<Rightarrow> response" where "Unauthorized m = (401, BodyError m)"
definition Forbidden :: "string \<Rightarrow> response" where "Forbidden m = (403, BodyError m)"
definition NotFound :: "string \<Rightarrow> response" where "NotFound m = (404, BodyError m)"
definition Conflict :: "string \<Rightarrow> response" where "Conflict m = (409, BodyError m)"
definition Internal :: response where "Internal = (500, BodyError ''internal server error'')"

lemmas responses = BadRequest_def Unauthorized_def Forbidden_def NotFound_def Conflict_def Internal_def

subsection \<open>Errors\<close>

definition writePaymentError :: "runtime \<Rightarrow> goerr \<Rightarrow> response" where
  "writePaymentError rt err =
     (if err \<in> {ErrInvoiceNotFound, ErrPaymentAttemptNotFound} then NotFound (err_text rt err)
      else if err \<in> {ErrInvoiceNotOwned, ErrPaymentAttemptNotOwned} then Forbidden (err_text rt err)
      else if err \<in> {ErrInvoiceAlreadyPaid, ErrInvoiceVoid, ErrInvoiceUncollectible,
                     ErrPaymentInProgress, ErrIdempotencyConflict} then Conflict (err_text rt err)
      else Internal)"

definition writeAPIKeyError :: "runtime \<Rightarrow> goerr \<Rightarrow> response" where
  "writeAPIKeyError rt err =
     (if err \<in> {ErrBusinessNotFound, ErrAPIKeyNotFound} then NotFound (err_text rt err)
      else if err = ErrAPIKeyNotOwned then Forbidden (err_text rt err)
      else if err \<in> {ErrAPIKeyRevoked, ErrAPIKeyBootstrap} then Conflict (err_text rt err)
      else Internal)"

definition writeWebhookEventError :: "runtime \<Rightarrow> goerr \<Rightarrow> response" where
  "writeWebhookEventError rt err =
     (if err = ErrEventNotFound then NotFound (err_text rt err)
      else if err = ErrEventNotOwned then Forbidden (err_text rt err)
      else Internal)"

definition webhookError :: "runtime \<Rightarrow> goerr \<Rightarrow> response" where
  "webhookError rt err =
     (if err \<in> {ErrInvalidSignature, ErrReplay} then Unauthorized (err_text rt err)
      else if err_text rt err \<in> {''invalid request body'', ''event_id is required'', ''event_type is required''}
      then BadRequest (err_text rt err)
      else Internal)"

definition createInvoiceError :: "runtime \<Rightarrow> goerr \<Rightarrow> response" where
  "createInvoiceError rt err =
     (let m = err_text rt err in
      if m \<in> {''business not found'', ''customer not found''} then NotFound m
      else if m = ''customer does not belong to business'' then Forbidden m
      else if m \<in> {''amount must be greater than zero'', ''currency is required''} then BadRequest m
      else Internal)"

definition getInvoiceError :: "runtime \<Rightarrow> goerr \<Rightarrow> response" where
  "getInvoiceError rt err =
     (let m = err_text rt err in
      if m = ''invoice not found'' then NotFound m
      else if m = ''invoice does not belong to business'' then Forbidden m
      else Internal)"

text \<open>The end of every handler: the error's response, or the value's.\<close>

definition respond ::
  "('w, 'a result) prog \<Rightarrow> (goerr \<Rightarrow> response) \<Rightarrow> ('a \<Rightarrow> response) \<Rightarrow> ('w, response) prog" where
  "respond p on_error ok = bindp p (\<lambda>r. case r of Inl e \<Rightarrow> Done (on_error e) | Inr a \<Rightarrow> Done (ok a))"

text \<open>\<open>requireBusinessID\<close>, \<open>businessIDFromContext\<close> and the same lines of the other handlers.\<close>

definition with_business ::
  "auth_context \<Rightarrow> (string \<Rightarrow> ('w, response) prog) \<Rightarrow> ('w, response) prog" where
  "with_business ctx k =
     (case ctx of None \<Rightarrow> Done (Unauthorized ''business context missing'') | Some (b, _) \<Rightarrow> k b)"

subsection \<open>The handlers\<close>

text \<open>A required field that is empty fails the binding like a missing one.\<close>

definition handle_CreateBusiness :: "runtime \<Rightarrow> string option \<Rightarrow> ('p world, response) prog" where
  "handle_CreateBusiness rt body =
     (case body of None \<Rightarrow> Done (BadRequest ''name is required'')
      | Some name \<Rightarrow>
          if name = [] then Done (BadRequest ''name is required'')
          else respond (CreateBusiness rt name) (\<lambda>_. Internal) (\<lambda>b. (201, BodyBusiness b)))"

definition handle_CreateCustomer ::
  "runtime \<Rightarrow> (string \<Rightarrow> bool) \<Rightarrow> (string \<times> string) option \<Rightarrow> auth_context \<Rightarrow> ('p world, response) prog" where
  "handle_CreateCustomer rt email_ok body ctx =
     (case body of None \<Rightarrow> Done (BadRequest ''name and a valid email are required'')
      | Some (name, email) \<Rightarrow>
          if name = [] \<or> email = [] \<or> \<not> email_ok email
          then Done (BadRequest ''name and a valid email are required'')
          else with_business ctx (\<lambda>b.
            respond (CreateCustomer rt b name email)
              (\<lambda>e. if err_text rt e = ''business not found'' then NotFound ''business not found'' else Internal)
              (\<lambda>c. (201, BodyCustomer c))))"

text \<open>The business of the body counts only when the request is not authenticated.\<close>

definition handle_CreateAPIKey ::
  "runtime \<Rightarrow> string \<Rightarrow> string option \<Rightarrow> auth_context \<Rightarrow> ('p world, response) prog" where
  "handle_CreateAPIKey rt bodyBusinessID name ctx =
     (let businessID = (case ctx of None \<Rightarrow> bodyBusinessID | Some (b, _) \<Rightarrow> b) in
      if businessID = [] then Done (BadRequest ''business_id is required'')
      else respond (CreateAPIKey rt businessID name (ctx \<noteq> None)) (writeAPIKeyError rt)
             (\<lambda>(rawKey, k). (201, BodyNewKey rawKey k)))"

definition handle_ListAPIKeys :: "runtime \<Rightarrow> auth_context \<Rightarrow> ('p world, response) prog" where
  "handle_ListAPIKeys rt ctx = with_business ctx (\<lambda>b.
     respond (ListAPIKeys rt b) (writeAPIKeyError rt) (\<lambda>ks. (200, BodyKeys ks)))"

definition handle_RevokeAPIKey :: "runtime \<Rightarrow> string \<Rightarrow> auth_context \<Rightarrow> ('p world, response) prog" where
  "handle_RevokeAPIKey rt keyID ctx = with_business ctx (\<lambda>b.
     respond (RevokeAPIKey rt b keyID) (writeAPIKeyError rt) (\<lambda>k. (200, BodyKey k)))"

definition handle_RotateAPIKey :: "runtime \<Rightarrow> string \<Rightarrow> auth_context \<Rightarrow> ('p world, response) prog" where
  "handle_RotateAPIKey rt keyID ctx = with_business ctx (\<lambda>b.
     respond (RotateAPIKey rt b keyID) (writeAPIKeyError rt) (\<lambda>(raw, new, old). (200, BodyRotated raw new old)))"

text \<open>\<open>binding:"required"\<close> on the amount rejects zero as well.\<close>

definition handle_CreateInvoice ::
  "runtime \<Rightarrow> (string \<times> string \<times> int) option \<Rightarrow> auth_context \<Rightarrow> ('p world, response) prog" where
  "handle_CreateInvoice rt body ctx =
     (case body of None \<Rightarrow> Done (BadRequest ''customer_id, currency and amount are required'')
      | Some (customerID, currency, amount) \<Rightarrow>
          if customerID = [] \<or> currency = [] \<or> amount = 0
          then Done (BadRequest ''customer_id, currency and amount are required'')
          else with_business ctx (\<lambda>b.
            respond (CreateInvoice rt b customerID currency amount) (createInvoiceError rt)
              (\<lambda>v. (201, BodyInvoice v))))"

definition handle_GetInvoice :: "runtime \<Rightarrow> string \<Rightarrow> auth_context \<Rightarrow> ('p world, response) prog" where
  "handle_GetInvoice rt invoiceID ctx = with_business ctx (\<lambda>b.
     respond (GetInvoice rt b invoiceID) (getInvoiceError rt) (\<lambda>v. (200, BodyInvoice v)))"

definition handle_PayInvoice ::
  "'p PaymentService \<Rightarrow> string \<Rightarrow> string option \<Rightarrow> string \<Rightarrow> auth_context \<Rightarrow> ('p world, response) prog" where
  "handle_PayInvoice S invoiceID body idempotencyKey ctx =
     (if invoiceID = [] then Done (BadRequest ''invoice id is required'')
      else case body of None \<Rightarrow> Done (BadRequest ''card_token is required'')
      | Some cardToken \<Rightarrow>
          if cardToken = [] then Done (BadRequest ''card_token is required'')
          else if idempotencyKey = [] then Done (BadRequest ''Idempotency-Key header is required'')
          else with_business ctx (\<lambda>b.
            respond (PayInvoice S b invoiceID idempotencyKey cardToken) (writePaymentError (svc_rt S))
              (\<lambda>a. (200, BodyAttempt a))))"

definition handle_GetPaymentAttempt ::
  "'p PaymentService \<Rightarrow> string \<Rightarrow> auth_context \<Rightarrow> ('p world, response) prog" where
  "handle_GetPaymentAttempt S attemptID ctx = with_business ctx (\<lambda>b.
     respond (GetPaymentAttempt S b attemptID) (writePaymentError (svc_rt S)) (\<lambda>a. (200, BodyAttempt a)))"

definition HandlePSPWebhook ::
  "'p PaymentService \<Rightarrow> string option \<Rightarrow> string \<Rightarrow> string \<Rightarrow> string \<Rightarrow> ('p world, response) prog" where
  "HandlePSPWebhook S payload eventID timestamp signature =
     (case payload of None \<Rightarrow> Done (BadRequest ''failed to read request body'')
      | Some text \<Rightarrow>
          respond (ProcessPSPWebhook S text eventID timestamp signature) (webhookError (svc_rt S))
            (\<lambda>_. (200, BodyReceived)))"

definition handle_SetEndpoint :: "runtime \<Rightarrow> string option \<Rightarrow> auth_context \<Rightarrow> ('p world, response) prog" where
  "handle_SetEndpoint rt body ctx =
     (case body of None \<Rightarrow> Done (BadRequest ''url is required'')
      | Some url \<Rightarrow>
          if url = [] then Done (BadRequest ''url is required'')
          else with_business ctx (\<lambda>b.
            respond (SetEndpoint rt b url) (\<lambda>_. Internal)
              (\<lambda>z. (200, BodyEndpoint (biz_WebhookURL z) (biz_WebhookSecret z)))))"

definition handle_ListEvents ::
  "runtime \<Rightarrow> string \<Rightarrow> auth_context \<Rightarrow> ('p world, response) prog" where
  "handle_ListEvents rt after ctx = with_business ctx (\<lambda>b.
     respond (ListEvents rt b after 0) (\<lambda>_. Internal) (\<lambda>es. (200, BodyEvents es)))"

definition handle_GetEvent :: "runtime \<Rightarrow> string \<Rightarrow> auth_context \<Rightarrow> ('p world, response) prog" where
  "handle_GetEvent rt eventID ctx = with_business ctx (\<lambda>b.
     respond (GetEvent rt b eventID) (writeWebhookEventError rt) (\<lambda>e. (200, BodyEvent e)))"

definition RedeliverEvent :: "runtime \<Rightarrow> string \<Rightarrow> auth_context \<Rightarrow> ('p world, response) prog" where
  "RedeliverEvent rt eventID ctx = with_business ctx (\<lambda>b.
     respond (Redeliver rt b eventID) (writeWebhookEventError rt) (\<lambda>e. (202, BodyEvent e)))"

end
