(* ===== verification/Server.thy ===== *)
theory Server
  imports Handlers
begin

text \<open>
  The server process (\<open>cmd/server/main.go\<close>): its configuration, the services it wires
  together, and the route of every request.
\<close>

record 'p Server =
  srv_rt :: runtime
  srv_PSP_BASE_URL :: string
  srv_PSP_WEBHOOK_SECRET :: string
  srv_transport :: "'p transport"
  srv_merchants :: "'p merchants"
  srv_email_ok :: "string \<Rightarrow> bool"

definition env_or :: "string \<Rightarrow> string \<Rightarrow> string" where
  "env_or v fallback = (if v = [] then fallback else v)"

definition paymentService :: "'p Server \<Rightarrow> 'p PaymentService" where
  "paymentService V =
     \<lparr>svc_rt = srv_rt V,
      svc_pspWebhookSecret = env_or (srv_PSP_WEBHOOK_SECRET V) DefaultPSPSecret,
      svc_psp = HTTPClient_Charge (srv_transport V) (env_or (srv_PSP_BASE_URL V) ''http://localhost:8081'')\<rparr>"

definition webhookDispatcher :: "'p Server \<Rightarrow> 'p WebhookDispatcher" where
  "webhookDispatcher V = \<lparr>wd_rt = srv_rt V, wd_http = srv_merchants V\<rparr>"

text \<open>A request: its route with path parameters, the headers that matter, and the decoded body.\<close>

datatype Request =
    GetHealth
  | PostBusinesses "string option"
  | PostCustomers string "(string \<times> string) option"
  | PostAPIKeys string string "string option"
  | GetAPIKeys string
  | PostRevoke string string
  | PostRotate string string
  | PostInvoices string "(string \<times> string \<times> int) option"
  | GetInvoices string string
  | PostPay string string "string option" string
  | GetPaymentAttempts string string
  | PostWebhookEndpoint string "string option"
  | GetEventList string string
  | GetEvents string string
  | PostRedeliver string string
  | PostWebhooksPSP "string option" string string string

text \<open>A middleware in front of a handler.\<close>

definition guarded ::
  "('w, string + auth_context) prog \<Rightarrow> (auth_context \<Rightarrow> ('w, response) prog) \<Rightarrow> ('w, response) prog" where
  "guarded auth h = bindp auth (\<lambda>r. case r of Inl m \<Rightarrow> Done (Unauthorized m) | Inr ctx \<Rightarrow> h ctx)"

definition route :: "'p Server \<Rightarrow> Request \<Rightarrow> ('p world, response) prog" where
  "route V req =
     (let rt = srv_rt V; S = paymentService V; auth = APIKeyAuth rt in
      case req of
        GetHealth \<Rightarrow> Done (200, BodyOK)
      | PostBusinesses body \<Rightarrow> handle_CreateBusiness rt body
      | PostCustomers h body \<Rightarrow> guarded (auth h) (handle_CreateCustomer rt (srv_email_ok V) body)
      | PostAPIKeys h b name \<Rightarrow> guarded (OptionalAPIKeyAuth rt h) (handle_CreateAPIKey rt b name)
      | GetAPIKeys h \<Rightarrow> guarded (auth h) (handle_ListAPIKeys rt)
      | PostRevoke h keyID \<Rightarrow> guarded (auth h) (handle_RevokeAPIKey rt keyID)
      | PostRotate h keyID \<Rightarrow> guarded (auth h) (handle_RotateAPIKey rt keyID)
      | PostInvoices h body \<Rightarrow> guarded (auth h) (handle_CreateInvoice rt body)
      | GetInvoices h i \<Rightarrow> guarded (auth h) (handle_GetInvoice rt i)
      | PostPay h i body key \<Rightarrow> guarded (auth h) (handle_PayInvoice S i body key)
      | GetPaymentAttempts h i \<Rightarrow> guarded (auth h) (handle_GetPaymentAttempt S i)
      | PostWebhookEndpoint h body \<Rightarrow> guarded (auth h) (handle_SetEndpoint rt body)
      | GetEventList h after \<Rightarrow> guarded (auth h) (handle_ListEvents rt after)
      | GetEvents h i \<Rightarrow> guarded (auth h) (handle_GetEvent rt i)
      | PostRedeliver h i \<Rightarrow> guarded (auth h) (RedeliverEvent rt i)
      | PostWebhooksPSP payload i t s \<Rightarrow> HandlePSPWebhook S payload i t s)"

text \<open>
  What the process may start at any moment: the handler of a request, the note of a key's
  use, a poll of the dispatcher. The environment lets time pass and changes what lies
  outside the process, the provider and the merchants, but not the database.
\<close>

inductive Arrives :: "'p Server \<Rightarrow> 'p world \<Rightarrow> ('p world, unit) prog \<Rightarrow> bool" for V where
  request: "Arrives V w (handler (route V req))"
| touch: "Arrives V w (handler (touchLastUsed (srv_rt V) keyID))"
| poll: "Arrives V w (handler (DispatcherRun (webhookDispatcher V) n))"

inductive Environment :: "'p world \<Rightarrow> 'p world \<Rightarrow> bool" where
  elapse: "Environment w (w\<lparr>wclock := wclock w + int n\<rparr>)"
| outside: "Environment w (w\<lparr>wpsp := p\<rparr>)"
| faults: "Environment w (w\<lparr>wfates := fs\<rparr>)"

inductive_cases ArrivesE: "Arrives V w p"
inductive_cases EnvironmentE: "Environment w w'"

abbreviation reachable :: "'p Server \<Rightarrow> 'p world \<Rightarrow> 'p world \<Rightarrow> bool" where
  "reachable V w w' \<equiv> \<exists>ps. pool_reach (Arrives V) Environment ([], w) (ps, w')"

end
