(* ===== verification/Payment_Invariant.thy ===== *)
theory Payment_Invariant
  imports Payment_Service
begin

text \<open>
  What the payment tables promise. \<open>pay_inv\<close> is the invariant of invoices, attempts,
  idempotency keys and the outbox; \<open>evolves\<close> is how the tables may change: rows stay, the
  facts of a payment stay, statuses only move forward, a settled attempt is final.
\<close>

subsection \<open>The invariant\<close>

definition attempt_settled :: "PaymentAttempt \<Rightarrow> bool" where
  "attempt_settled a \<longleftrightarrow> att_Status a \<noteq> PaymentAttemptStatusPending"

definition attempt_succeeded :: "PaymentAttempt \<Rightarrow> bool" where
  "attempt_succeeded a \<longleftrightarrow> att_Status a = PaymentAttemptStatusSucceeded"

definition attempt_failed :: "PaymentAttempt \<Rightarrow> bool" where
  "attempt_failed a \<longleftrightarrow> att_Status a = PaymentAttemptStatusFailed"

lemmas attempt_status_defs =
  attempt_pending_def attempt_settled_def attempt_succeeded_def attempt_failed_def

text \<open>Identifiers are unique and in the database's standard spelling.\<close>

definition ids_ok :: "runtime \<Rightarrow> db \<Rightarrow> bool" where
  "ids_ok rt d \<longleftrightarrow>
     distinct (map inv_ID (invoices d)) \<and> distinct (map att_ID (payment_attempts d)) \<and>
     (\<forall>v \<in> set (invoices d). parse_uuid rt (inv_ID v) = Some (inv_ID v)
        \<and> parse_uuid rt (inv_BusinessID v) = Some (inv_BusinessID v)) \<and>
     (\<forall>a \<in> set (payment_attempts d). parse_uuid rt (att_ID a) = Some (att_ID a))"

text \<open>An attempt is for an invoice, of its business, over its amount.\<close>

definition attempt_of :: "PaymentAttempt \<Rightarrow> Invoice \<Rightarrow> bool" where
  "attempt_of a v \<longleftrightarrow> inv_ID v = att_InvoiceID a \<and> inv_BusinessID v = att_BusinessID a
     \<and> inv_Amount v = att_Amount a \<and> inv_Currency v = att_Currency a"

definition refs_ok :: "db \<Rightarrow> bool" where
  "refs_ok d \<longleftrightarrow> (\<forall>a \<in> set (payment_attempts d). \<exists>v \<in> set (invoices d). attempt_of a v)"

text \<open>At most one attempt per invoice is not a failure.\<close>

definition single_active :: "db \<Rightarrow> bool" where
  "single_active d \<longleftrightarrow>
     (\<forall>a \<in> set (payment_attempts d). \<forall>b \<in> set (payment_attempts d).
        att_InvoiceID a = att_InvoiceID b \<longrightarrow> \<not> attempt_failed a \<longrightarrow> \<not> attempt_failed b \<longrightarrow> a = b)"

text \<open>Draft invoices have no attempts; an invoice with a payment is closed; a paid one has a payment.\<close>

definition invoices_ok :: "db \<Rightarrow> bool" where
  "invoices_ok d \<longleftrightarrow>
     (\<forall>v \<in> set (invoices d).
        (inv_Status v = InvoiceStatusDraft \<longrightarrow> (\<forall>a \<in> set (payment_attempts d). att_InvoiceID a \<noteq> inv_ID v)) \<and>
        (unpaid_status (inv_Status v) \<longrightarrow>
           (\<forall>a \<in> set (payment_attempts d). att_InvoiceID a = inv_ID v \<longrightarrow> \<not> attempt_succeeded a)) \<and>
        (inv_Status v = InvoiceStatusPaid \<longrightarrow>
           (\<exists>a \<in> set (payment_attempts d). att_InvoiceID a = inv_ID v \<and> attempt_succeeded a)))"

text \<open>
  An idempotency key stands for one attempt of its invoice and business, and no two keys for
  the same attempt.
\<close>

definition key_of :: "IdempotencyKey \<Rightarrow> PaymentAttempt \<Rightarrow> bool" where
  "key_of k a \<longleftrightarrow> ik_PaymentAttemptID k = Some (att_ID a) \<and> ik_InvoiceID k = att_InvoiceID a
     \<and> ik_BusinessID k = att_BusinessID a"

definition keys_ok :: "db \<Rightarrow> bool" where
  "keys_ok d \<longleftrightarrow>
     distinct (map (\<lambda>k. (ik_BusinessID k, ik_IdempotencyKey k)) (idempotency_keys d)) \<and>
     distinct (map ik_PaymentAttemptID (idempotency_keys d)) \<and>
     (\<forall>k \<in> set (idempotency_keys d). \<exists>a \<in> set (payment_attempts d). key_of k a)"

text \<open>The reference and the failure code go with the status.\<close>

definition fields_match :: "PaymentAttempt \<Rightarrow> bool" where
  "fields_match a =
     (case att_Status a of
        PaymentAttemptStatusPending \<Rightarrow> att_PSPTransactionID a = None \<and> att_FailureCode a = None
      | PaymentAttemptStatusSucceeded \<Rightarrow> att_PSPTransactionID a \<noteq> None \<and> att_FailureCode a = None
      | PaymentAttemptStatusFailed \<Rightarrow> att_PSPTransactionID a = None \<and> att_FailureCode a \<noteq> None)"

definition fields_ok :: "db \<Rightarrow> bool" where
  "fields_ok d \<longleftrightarrow> (\<forall>a \<in> set (payment_attempts d). fields_match a)"

text \<open>
  The outbox tells the truth: a payment event carries the data of an attempt that settled
  that way. It is complete for successes: each has its event.
\<close>

definition event_for :: "PaymentAttempt \<Rightarrow> string \<Rightarrow> OutboundEvent \<Rightarrow> bool" where
  "event_for a ty e \<longleftrightarrow> evt_EventType e = ty \<and> evt_SourceID e = source_id (att_ID a) ty
     \<and> evt_Payload e = outbound_payload a ty"

definition outbox_sound :: "db \<Rightarrow> bool" where
  "outbox_sound d \<longleftrightarrow>
     (\<forall>e \<in> set (outbound_events d).
        (evt_EventType e = EventTypePaymentSucceeded \<longrightarrow>
           (\<exists>a \<in> set (payment_attempts d). attempt_succeeded a \<and> event_for a EventTypePaymentSucceeded e)) \<and>
        (evt_EventType e = EventTypePaymentFailed \<longrightarrow>
           (\<exists>a \<in> set (payment_attempts d). attempt_failed a \<and> event_for a EventTypePaymentFailed e)))"

definition outbox_complete :: "db \<Rightarrow> bool" where
  "outbox_complete d \<longleftrightarrow>
     (\<forall>a \<in> set (payment_attempts d). attempt_succeeded a \<longrightarrow>
        (\<exists>e \<in> set (outbound_events d). event_for a EventTypePaymentSucceeded e))"

text \<open>
  No code path voids an invoice or writes it off, and the outbox has one event of a type
  per source.
\<close>

definition statuses_ok :: "db \<Rightarrow> bool" where
  "statuses_ok d \<longleftrightarrow>
     (\<forall>v \<in> set (invoices d). unpaid_status (inv_Status v) \<or> inv_Status v = InvoiceStatusPaid)"

definition event_key :: "OutboundEvent \<Rightarrow> string \<times> string" where
  "event_key e = (evt_EventType e, evt_SourceID e)"

definition outbox_distinct :: "db \<Rightarrow> bool" where
  "outbox_distinct d \<longleftrightarrow> distinct (map event_key (outbound_events d))"

definition pay_inv :: "runtime \<Rightarrow> db \<Rightarrow> bool" where
  "pay_inv rt d \<longleftrightarrow> ids_ok rt d \<and> refs_ok d \<and> single_active d \<and> invoices_ok d \<and> keys_ok d
     \<and> fields_ok d \<and> outbox_sound d \<and> outbox_complete d \<and> statuses_ok d \<and> outbox_distinct d"

lemmas pay_inv_parts =
  ids_ok_def refs_ok_def single_active_def invoices_ok_def keys_ok_def fields_ok_def
  outbox_sound_def outbox_complete_def statuses_ok_def outbox_distinct_def

text \<open>The invariant depends on four tables.\<close>

lemma pay_inv_frame [frame]:
  assumes "invoices d' = invoices d" and "payment_attempts d' = payment_attempts d"
    and "idempotency_keys d' = idempotency_keys d" and "outbound_events d' = outbound_events d"
  shows "pay_inv rt d' \<longleftrightarrow> pay_inv rt d"
  using assms by (simp add: pay_inv_def pay_inv_parts)

lemma pay_inv_empty: "pay_inv rt empty_db"
  by (simp add: pay_inv_def pay_inv_parts empty_db_def)

subsection \<open>Evolution\<close>

text \<open>Every row of one table has its continuation in the other.\<close>

definition rows_evolve :: "('r \<Rightarrow> 'r \<Rightarrow> bool) \<Rightarrow> 'r list \<Rightarrow> 'r list \<Rightarrow> bool" where
  "rows_evolve rel rs ss \<longleftrightarrow> (\<forall>r \<in> set rs. \<exists>s \<in> set ss. rel r s)"

lemma rows_evolve_refl [simp]: "(\<And>r. rel r r) \<Longrightarrow> rows_evolve rel rs rs"
  by (auto simp: rows_evolve_def)

lemma rows_evolve_trans:
  assumes "\<And>r s t. rel r s \<Longrightarrow> rel s t \<Longrightarrow> rel r t" and "rows_evolve rel rs ss" and "rows_evolve rel ss ts"
  shows "rows_evolve rel rs ts"
  using assms unfolding rows_evolve_def by meson

lemma rows_evolve_append: "rows_evolve rel rs ss \<Longrightarrow> rows_evolve rel rs (ss @ ts)"
  by (auto simp: rows_evolve_def)

lemma rows_evolve_update:
  assumes "\<And>r. r \<in> set rs \<Longrightarrow> rel r r" and "\<And>r. r \<in> set rs \<Longrightarrow> P r \<Longrightarrow> rel r (f r)"
  shows "rows_evolve rel rs (update_where P f rs)"
  unfolding rows_evolve_def
proof
  fix r assume r: "r \<in> set rs"
  show "\<exists>s \<in> set (update_where P f rs). rel r s"
  proof (cases "P r")
    case True
    with r assms(2) show ?thesis by (auto simp: rows)
  next
    case False
    with r assms(1) show ?thesis by (auto simp: rows)
  qed
qed

definition invoice_evolves :: "Invoice \<Rightarrow> Invoice \<Rightarrow> bool" where
  "invoice_evolves v v' \<longleftrightarrow> inv_ID v' = inv_ID v \<and> inv_BusinessID v' = inv_BusinessID v
     \<and> inv_CustomerID v' = inv_CustomerID v \<and> inv_Currency v' = inv_Currency v
     \<and> inv_Amount v' = inv_Amount v \<and> inv_CreatedAt v' = inv_CreatedAt v
     \<and> inv_Status v \<le> inv_Status v'"

definition same_attempt :: "PaymentAttempt \<Rightarrow> PaymentAttempt \<Rightarrow> bool" where
  "same_attempt a b \<longleftrightarrow> att_ID b = att_ID a \<and> att_InvoiceID b = att_InvoiceID a
     \<and> att_BusinessID b = att_BusinessID a \<and> att_Amount b = att_Amount a \<and> att_Currency b = att_Currency a"

definition attempt_evolves :: "PaymentAttempt \<Rightarrow> PaymentAttempt \<Rightarrow> bool" where
  "attempt_evolves a a' \<longleftrightarrow> same_attempt a a' \<and> (attempt_settled a \<longrightarrow> a' = a)"

definition event_evolves :: "OutboundEvent \<Rightarrow> OutboundEvent \<Rightarrow> bool" where
  "event_evolves e e' \<longleftrightarrow> evt_ID e' = evt_ID e \<and> evt_BusinessID e' = evt_BusinessID e
     \<and> evt_SourceID e' = evt_SourceID e \<and> evt_EventType e' = evt_EventType e
     \<and> evt_Payload e' = evt_Payload e \<and> evt_CreatedAt e' = evt_CreatedAt e"

definition evolves :: "db \<Rightarrow> db \<Rightarrow> bool" where
  "evolves d d' \<longleftrightarrow>
     rows_evolve invoice_evolves (invoices d) (invoices d') \<and>
     rows_evolve attempt_evolves (payment_attempts d) (payment_attempts d') \<and>
     rows_evolve (=) (idempotency_keys d) (idempotency_keys d') \<and>
     rows_evolve event_evolves (outbound_events d) (outbound_events d')"

lemma invoice_evolves_refl [simp]: "invoice_evolves v v"
  by (simp add: invoice_evolves_def)

lemma invoice_evolves_trans: "invoice_evolves u v \<Longrightarrow> invoice_evolves v w \<Longrightarrow> invoice_evolves u w"
  by (auto simp: invoice_evolves_def intro: order_trans)

lemma attempt_evolves_refl [simp]: "attempt_evolves a a"
  by (simp add: attempt_evolves_def same_attempt_def)

lemma attempt_evolves_trans: "attempt_evolves a b \<Longrightarrow> attempt_evolves b c \<Longrightarrow> attempt_evolves a c"
  by (auto simp: attempt_evolves_def same_attempt_def)

lemma event_evolves_refl [simp]: "event_evolves e e"
  by (simp add: event_evolves_def)

lemma event_evolves_trans: "event_evolves a b \<Longrightarrow> event_evolves b c \<Longrightarrow> event_evolves a c"
  by (auto simp: event_evolves_def)

lemma evolves_refl [simp]: "evolves d d"
  by (simp add: evolves_def)

lemma evolves_trans: "evolves d e \<Longrightarrow> evolves e f \<Longrightarrow> evolves d f"
  unfolding evolves_def
  by (elim conjE, intro conjI)
    (rule rows_evolve_trans [OF invoice_evolves_trans] rows_evolve_trans [OF attempt_evolves_trans]
      rows_evolve_trans [OF trans] rows_evolve_trans [OF event_evolves_trans]; assumption)+

lemma evolves_frame [frame]:
  assumes "invoices d' = invoices d" and "payment_attempts d' = payment_attempts d"
    and "idempotency_keys d' = idempotency_keys d" and "outbound_events d' = outbound_events d"
  shows "evolves d d'"
  using assms by (simp add: evolves_def)

lemma evolves_attempt:
  assumes "evolves d d'" and "a \<in> set (payment_attempts d)"
  obtains a' where "a' \<in> set (payment_attempts d')" and "attempt_evolves a a'"
  using assms by (auto simp: evolves_def rows_evolve_def)

lemma evolves_settled:
  "evolves d d' \<Longrightarrow> a \<in> set (payment_attempts d) \<Longrightarrow> attempt_settled a \<Longrightarrow> a \<in> set (payment_attempts d')"
  by (erule (1) evolves_attempt) (auto simp: attempt_evolves_def)

subsection \<open>An attempt in memory\<close>

text \<open>
  A handler holds a copy of a row it read or wrote. While the copy is pending the row may
  have moved on; a settled copy is the row.
\<close>

definition copy_of :: "PaymentAttempt \<Rightarrow> PaymentAttempt \<Rightarrow> bool" where
  "copy_of attempt r \<longleftrightarrow> same_attempt attempt r
     \<and> (if attempt_pending attempt
        then att_PSPTransactionID attempt = None \<and> att_FailureCode attempt = None
        else attempt = r)"

definition held :: "PaymentAttempt \<Rightarrow> db \<Rightarrow> bool" where
  "held attempt d \<longleftrightarrow> (\<exists>r \<in> set (payment_attempts d). copy_of attempt r)"

text \<open>The result of a handler stands for a row of the table.\<close>

definition known :: "PaymentAttempt \<Rightarrow> db \<Rightarrow> bool" where
  "known attempt d \<longleftrightarrow> (\<exists>r \<in> set (payment_attempts d). same_attempt attempt r
     \<and> att_Status attempt \<le> att_Status r)"

lemma copy_of_evolves: "copy_of a r \<Longrightarrow> attempt_evolves r r' \<Longrightarrow> copy_of a r'"
  by (auto simp: copy_of_def attempt_evolves_def same_attempt_def attempt_status_defs split: if_splits)

lemma held_evolves: "held attempt d \<Longrightarrow> evolves d d' \<Longrightarrow> held attempt d'"
  unfolding held_def by (meson evolves_attempt copy_of_evolves)

lemma known_row_evolves:
  assumes "same_attempt a r" and "att_Status a \<le> att_Status r" and "attempt_evolves r r'"
  shows "same_attempt a r' \<and> att_Status a \<le> att_Status r'"
  using assms
  by (cases "att_Status a"; cases "att_Status r")
    (auto simp: attempt_evolves_def same_attempt_def attempt_settled_def)

lemma known_evolves: "known attempt d \<Longrightarrow> evolves d d' \<Longrightarrow> known attempt d'"
  unfolding known_def by (meson evolves_attempt known_row_evolves)

lemma held_known: "held attempt d \<Longrightarrow> known attempt d"
  by (auto simp: held_def known_def copy_of_def attempt_pending_def split: if_splits)

lemma held_row: "pay_inv rt d \<Longrightarrow> r \<in> set (payment_attempts d) \<Longrightarrow> held r d"
  by (auto simp: held_def copy_of_def same_attempt_def pay_inv_def fields_ok_def fields_match_def
      attempt_pending_def split: PaymentAttemptStatus.splits)

end
