(* ===== verification/Payment_Effects.thy ===== *)
theory Payment_Effects
  imports Payment_Invariant
begin

text \<open>
  What the bodies of the payment transactions do to the tables when they succeed, read off
  their definitions, and that these effects keep the invariant and the evolution.
\<close>

subsection \<open>Queuing an event\<close>

definition queued :: "PaymentAttempt \<Rightarrow> string \<Rightarrow> db \<Rightarrow> bool" where
  "queued a ty d \<longleftrightarrow> (\<exists>e \<in> set (outbound_events d). evt_EventType e = ty \<and> evt_SourceID e = source_id (att_ID a) ty)"

definition enqueues :: "PaymentAttempt \<Rightarrow> string \<Rightarrow> db \<Rightarrow> db \<Rightarrow> bool" where
  "enqueues a ty d d' \<longleftrightarrow>
     queued a ty d \<and> d' = d \<or>
     \<not> queued a ty d \<and> (\<exists>e. event_for a ty e \<and> evt_Status e = OutboundEventStatusPending
        \<and> d' = d\<lparr>outbound_events := outbound_events d @ [e]\<rparr>)"

lemma OutboundEventRepository_Create_enqueues:
  assumes "OutboundEventRepository_Create rt e now d = Inr (u, d')"
    and "event_for a ty e" and "evt_Status e = OutboundEventStatusPending"
  shows "enqueues a ty d d'"
proof -
  have same: "list_ex (same_source e) (outbound_events d) \<longleftrightarrow> queued a ty d"
    using assms(2) by (auto simp: list_ex_iff same_source_def queued_def event_for_def)
  show ?thesis
  proof (cases "queued a ty d")
    case True
    with assms(1) same show ?thesis
      by (auto simp: OutboundEventRepository_Create_def exec enqueues_def)
  next
    case False
    with assms(1) same obtain k b where
      d': "d' = d\<lparr>outbound_events := outbound_events d @
            [e\<lparr>evt_ID := k, evt_BusinessID := b, evt_LastError := None,
               evt_CreatedAt := now, evt_DeliveredAt := None\<rparr>]\<rparr>"
      by (auto simp: OutboundEventRepository_Create_def exec split: if_splits)
    show ?thesis
      unfolding enqueues_def d'
      by (intro disjI2 conjI False exI refl) (use assms(2,3) in \<open>simp_all add: event_for_def\<close>)
  qed
qed

lemma enqueue_db:
  assumes "enqueueOutboundEvent rt a ty w = (r, w')"
  shows "(\<exists>e. r = Inl e) \<and> wdb w' = wdb w \<or> enqueues a ty (wdb w) (wdb w')"
proof -
  from assms obtain u w1 t w2 e where
    u: "uuid_Next rt w = (u, w1)" and t: "time_Now w1 = (t, w2)"
    and x: "exec_stmt (OutboundEventRepository_Create rt e) w2 = (r, w')"
    and e: "event_for a ty e" "evt_Status e = OutboundEventStatusPending"
    unfolding enqueueOutboundEvent_def
    by (elim act_try_E) (auto simp: event_for_def)
  have w2: "wdb w2 = wdb w" using uuid_Next_frame [OF u] time_Now_frame [OF t] by simp
  show ?thesis
  proof (cases r)
    case (Inl err)
    with exec_stmt_db [OF x] w2 e show ?thesis
      by (auto dest: OutboundEventRepository_Create_enqueues)
  next
    case (Inr v)
    with x have "OutboundEventRepository_Create rt e (wclock w2) (wdb w2) = Inr (v, wdb w')"
      by (auto dest: exec_stmt_Inr)
    with w2 e show ?thesis by (auto dest: OutboundEventRepository_Create_enqueues)
  qed
qed

lemma enqueue_db_Inr:
  assumes "enqueueOutboundEvent rt a ty w = (Inr u, w')"
  shows "enqueues a ty (wdb w) (wdb w')"
  using enqueue_db [OF assms] by simp

subsection \<open>Creating an attempt\<close>

text \<open>The tables after a successful \<open>createPendingAttempt\<close>.\<close>

definition open_invoice :: "Invoice \<Rightarrow> time \<Rightarrow> db \<Rightarrow> Invoice list" where
  "open_invoice v now d =
     (if inv_Status v = InvoiceStatusDraft
      then update_where (\<lambda>r. inv_ID r = inv_ID v)
             (\<lambda>r. r\<lparr>inv_Status := InvoiceStatusOpen, inv_UpdatedAt := now\<rparr>) (invoices d)
      else invoices d)"

definition creates ::
  "runtime \<Rightarrow> string \<Rightarrow> string \<Rightarrow> string \<Rightarrow> string \<Rightarrow> time \<Rightarrow> PaymentAttempt \<Rightarrow> db \<Rightarrow> db \<Rightarrow> bool" where
  "creates rt businessID invoiceID idempotencyKey requestHash now a d d' \<longleftrightarrow>
     (\<exists>v k. v \<in> set (invoices d) \<and> parse_uuid rt invoiceID = Some (inv_ID v)
        \<and> inv_BusinessID v = businessID \<and> unpaid_status (inv_Status v)
        \<and> attempt_of a v \<and> attempt_pending a \<and> fields_match a
        \<and> parse_uuid rt (att_ID a) = Some (att_ID a)
        \<and> att_ID a \<notin> att_ID ` set (payment_attempts d)
        \<and> (\<forall>r \<in> set (payment_attempts d). att_InvoiceID r = inv_ID v \<longrightarrow> \<not> attempt_pending r)
        \<and> key_of k a \<and> ik_IdempotencyKey k = idempotencyKey \<and> ik_RequestHash k = requestHash
        \<and> (\<forall>r \<in> set (idempotency_keys d). \<not> (ik_BusinessID r = businessID \<and> ik_IdempotencyKey r = idempotencyKey))
        \<and> d' = d\<lparr>invoices := open_invoice v now d,
                idempotency_keys := idempotency_keys d @ [k],
                payment_attempts := payment_attempts d @ [a]\<rparr>)"

lemma payable_unpaid: "payableInvoice s = None \<longleftrightarrow> unpaid_status s"
  by (auto simp: payableInvoice_def unpaid_status_def split: InvoiceStatus.splits)

lemma createPendingAttempt_body_E:
  assumes body: "createPendingAttempt_body rt b i key h w = (Inr a, w')"
  obtains v u1 u2 w1 w2 w3 w4 w5 w6 w7 k where
    "exec_stmt (InvoiceRepository_GetByIDForUpdate rt i) w = (Inr v, w1)"
    "inv_BusinessID v = b" "unpaid_status (inv_Status v)"
    "(if inv_Status v = InvoiceStatusDraft
      then exec_stmt (InvoiceRepository_UpdateStatus rt (inv_ID v) InvoiceStatusOpen)
      else act_ret ()) w1 = (Inr (), w2)"
    "uuid_Next rt w2 = (u1, w3)" "uuid_Next rt w3 = (u2, w4)"
    "exec_stmt (IdempotencyRepository_Create rt
       \<lparr>ik_ID = u2, ik_BusinessID = b, ik_IdempotencyKey = key, ik_InvoiceID = inv_ID v,
        ik_RequestHash = h, ik_PaymentAttemptID = Some u1, ik_CreatedAt = time_zero\<rparr>) w4 = (Inr k, w5)"
    "exec_stmt (PaymentAttemptRepository_GetPendingByInvoiceID rt (inv_ID v)) w5 = (Inl (DBError NoRows), w6)"
    "exec_stmt (PaymentAttemptRepository_Create rt
       \<lparr>att_ID = u1, att_InvoiceID = inv_ID v, att_BusinessID = b, att_Amount = inv_Amount v,
        att_Currency = inv_Currency v, att_Status = PaymentAttemptStatusPending,
        att_PSPTransactionID = None, att_FailureCode = None, att_CreatedAt = time_zero,
        att_UpdatedAt = time_zero\<rparr>) w6 = (Inr a, w')"
  using body unfolding createPendingAttempt_body_def
  by (elim act_try_E act_bind_Inr)
    (auto simp: exec payable_unpaid split: sum.splits if_splits option.splits elim!: act_try_E act_bind_Inr intro: that)

text \<open>Reading a row by an identifier that is a stored one.\<close>

lemma GetByIDForUpdate_Inr:
  assumes "exec_stmt (InvoiceRepository_GetByIDForUpdate rt i) w = (Inr v, w')"
  shows "v \<in> set (invoices (wdb w))" and "parse_uuid rt i = Some (inv_ID v)" and "wdb w' = wdb w"
  using exec_stmt_Inr [OF assms] by (auto simp: payment_reads exec dest: find_in_set)

lemma attempt_GetByID_value:
  assumes "PaymentAttemptRepository_GetByID rt i t d = Inr (a, d')"
  shows "parse_uuid rt i = Some (att_ID a)"
  using assms by (auto simp: PaymentAttemptRepository_GetByID_def exec find_Some_iff split: option.splits)

lemma attempt_GetByID_Inr:
  assumes "exec_stmt (PaymentAttemptRepository_GetByID rt i) w = (Inr a, w')"
  shows "a \<in> set (payment_attempts (wdb w))" and "parse_uuid rt i = Some (att_ID a)" and "wdb w' = wdb w"
  using exec_stmt_Inr [OF assms] by (auto simp: payment_reads exec dest: find_in_set)

lemma GetByKey_Inr:
  assumes "exec_stmt (IdempotencyRepository_GetByKey rt b key) w = (Inr k, w')"
  shows "k \<in> set (idempotency_keys (wdb w))" and "parse_uuid rt b = Some (ik_BusinessID k)"
    and "ik_IdempotencyKey k = key" and "wdb w' = wdb w"
  using exec_stmt_Inr [OF assms] by (auto simp: payment_reads exec dest: find_in_set)

lemma GetPending_NoRows:
  assumes "exec_stmt (PaymentAttemptRepository_GetPendingByInvoiceID rt i) w = (Inl (DBError NoRows), w')"
    and "parse_uuid rt i = Some j"
  shows "wdb w' = wdb w" and "\<forall>r \<in> set (payment_attempts (wdb w)). att_InvoiceID r = j \<longrightarrow> \<not> attempt_pending r"
proof -
  show "wdb w' = wdb w"
    using exec_read_only [OF payment_read_only(3), of rt i w] assms(1) by simp
  from assms show "\<forall>r \<in> set (payment_attempts (wdb w)). att_InvoiceID r = j \<longrightarrow> \<not> attempt_pending r"
    by (auto simp: exec_stmt_def payment_reads with_uuid_def scan_row_def dest!: next_fate_frame find_none
        split: prod.splits fate.splits sum.splits option.splits)
qed

lemma open_step_db:
  assumes "(if inv_Status v = InvoiceStatusDraft
      then exec_stmt (InvoiceRepository_UpdateStatus rt (inv_ID v) InvoiceStatusOpen)
      else act_ret ()) w = (Inr (), w')"
    and "parse_uuid rt (inv_ID v) = Some (inv_ID v)"
  shows "wdb w' = (wdb w)\<lparr>invoices := open_invoice v (wclock w) (wdb w)\<rparr>"
proof (cases "inv_Status v = InvoiceStatusDraft")
  case True
  with assms have "exec_stmt (InvoiceRepository_UpdateStatus rt (inv_ID v) InvoiceStatusOpen) w = (Inr (), w')"
    by simp
  from exec_stmt_Inr [OF this] assms(2) True show ?thesis
    by (simp add: payment_writes exec open_invoice_def invoice_status_valid_def)
next
  case False
  with assms show ?thesis by (simp add: exec open_invoice_def)
qed

lemma key_Create_stmt:
  assumes "IdempotencyRepository_Create rt key now d = Inr (k', d')"
    and "parse_uuid rt (ik_BusinessID key) = Some (ik_BusinessID key)"
    and "parse_uuid rt (ik_InvoiceID key) = Some (ik_InvoiceID key)"
    and "ik_PaymentAttemptID key = Some x" and "parse_uuid rt x = Some x"
  shows "\<exists>k. d' = d\<lparr>idempotency_keys := idempotency_keys d @ [k]\<rparr>
    \<and> ik_BusinessID k = ik_BusinessID key \<and> ik_IdempotencyKey k = ik_IdempotencyKey key
    \<and> ik_InvoiceID k = ik_InvoiceID key \<and> ik_RequestHash k = ik_RequestHash key
    \<and> ik_PaymentAttemptID k = Some x
    \<and> (\<forall>r \<in> set (idempotency_keys d).
           \<not> (ik_BusinessID r = ik_BusinessID key \<and> ik_IdempotencyKey r = ik_IdempotencyKey key))"
proof -
  from assms obtain c where
    d': "d' = d\<lparr>idempotency_keys := idempotency_keys d @
        [key\<lparr>ik_ID := c, ik_BusinessID := ik_BusinessID key, ik_InvoiceID := ik_InvoiceID key,
             ik_PaymentAttemptID := Some x, ik_CreatedAt := now\<rparr>]\<rparr>"
    and new: "\<not> list_ex (\<lambda>r. ik_BusinessID r = ik_BusinessID key \<and> ik_IdempotencyKey r = ik_IdempotencyKey key)
           (idempotency_keys d)"
    by (auto simp: payment_writes exec split: if_splits)
  show ?thesis
    unfolding d'
    by (rule exI [of _ "key\<lparr>ik_ID := c, ik_BusinessID := ik_BusinessID key,
          ik_InvoiceID := ik_InvoiceID key, ik_PaymentAttemptID := Some x, ik_CreatedAt := now\<rparr>"])
      (use new in \<open>simp add: list_ex_iff\<close>)
qed

lemmas key_Create_Inr = key_Create_stmt [OF exec_stmt_Inr]

lemma attempt_Create_stmt:
  assumes "PaymentAttemptRepository_Create rt attempt now d = Inr (a, d')"
    and "parse_uuid rt (att_ID attempt) = Some (att_ID attempt)"
    and "parse_uuid rt (att_InvoiceID attempt) = Some (att_InvoiceID attempt)"
    and "parse_uuid rt (att_BusinessID attempt) = Some (att_BusinessID attempt)"
    and "att_PSPTransactionID attempt = None" and "att_FailureCode attempt = None"
  shows "a = attempt\<lparr>att_CreatedAt := now, att_UpdatedAt := now\<rparr>"
    and "d' = d\<lparr>payment_attempts := payment_attempts d @ [a]\<rparr>"
    and "att_ID attempt \<notin> att_ID ` set (payment_attempts d)"
    and "attempt_pending attempt \<longrightarrow> (\<forall>r \<in> set (payment_attempts d).
           att_InvoiceID r = att_InvoiceID attempt \<longrightarrow> \<not> attempt_pending r)"
  using assms
  by (cases attempt; auto simp: payment_writes exec list_ex_iff split: if_splits)+

lemmas attempt_Create_Inr = attempt_Create_stmt [OF exec_stmt_Inr]

lemma exec_db_read:
  "exec_stmt q w = (r, w') \<Longrightarrow> read_only q \<Longrightarrow> wdb w' = wdb w"
  using exec_read_only [of q w] by simp

lemma createPendingAttempt_creates:
  assumes inv: "pay_inv rt (wdb w)" and rt: "uuid_ok rt"
    and body: "createPendingAttempt_body rt b i key h w = (Inr a, w')"
  shows "creates rt b i key h (wclock w) a (wdb w) (wdb w')"
  using body
proof (rule createPendingAttempt_body_E)
  fix v u1 u2 w1 w2 w3 w4 w5 w6 k
  assume get: "exec_stmt (InvoiceRepository_GetByIDForUpdate rt i) w = (Inr v, w1)"
    and b: "inv_BusinessID v = b" and s: "unpaid_status (inv_Status v)"
    and op: "(if inv_Status v = InvoiceStatusDraft
      then exec_stmt (InvoiceRepository_UpdateStatus rt (inv_ID v) InvoiceStatusOpen)
      else act_ret ()) w1 = (Inr (), w2)"
    and u1: "uuid_Next rt w2 = (u1, w3)" and u2: "uuid_Next rt w3 = (u2, w4)"
    and ins: "exec_stmt (IdempotencyRepository_Create rt
       \<lparr>ik_ID = u2, ik_BusinessID = b, ik_IdempotencyKey = key, ik_InvoiceID = inv_ID v,
        ik_RequestHash = h, ik_PaymentAttemptID = Some u1, ik_CreatedAt = time_zero\<rparr>) w4 = (Inr k, w5)"
    and pend: "exec_stmt (PaymentAttemptRepository_GetPendingByInvoiceID rt (inv_ID v)) w5 = (Inl (DBError NoRows), w6)"
    and att: "exec_stmt (PaymentAttemptRepository_Create rt
       \<lparr>att_ID = u1, att_InvoiceID = inv_ID v, att_BusinessID = b, att_Amount = inv_Amount v,
        att_Currency = inv_Currency v, att_Status = PaymentAttemptStatusPending,
        att_PSPTransactionID = None, att_FailureCode = None, att_CreatedAt = time_zero,
        att_UpdatedAt = time_zero\<rparr>) w6 = (Inr a, w')"
  note v = GetByIDForUpdate_Inr [OF get]
  from inv v(1) b have cv: "parse_uuid rt (inv_ID v) = Some (inv_ID v)" and cb: "parse_uuid rt b = Some b"
    by (auto simp: pay_inv_def ids_ok_def)
  have cu: "parse_uuid rt u1 = Some u1"
    using u1 rt by (auto simp: uuid_Next_def uuid_okD)
  have c1: "wclock w1 = wclock w" using exec_stmt_frame [OF get] by simp
  have d2: "wdb w2 = (wdb w)\<lparr>invoices := open_invoice v (wclock w) (wdb w)\<rparr>"
    using open_step_db [OF op cv] v(3) c1 by simp
  have d4: "wdb w4 = wdb w2"
    using uuid_Next_frame [OF u1] uuid_Next_frame [OF u2] by simp
  obtain k' where d5: "wdb w5 = (wdb w4)\<lparr>idempotency_keys := idempotency_keys (wdb w4) @ [k']\<rparr>"
    and k': "ik_BusinessID k' = b" "ik_IdempotencyKey k' = key" "ik_InvoiceID k' = inv_ID v"
      "ik_RequestHash k' = h" "ik_PaymentAttemptID k' = Some u1"
    and new: "\<forall>r \<in> set (idempotency_keys (wdb w4)). \<not> (ik_BusinessID r = b \<and> ik_IdempotencyKey r = key)"
    using key_Create_Inr [OF ins, simplified, OF cb cv refl cu] by auto
  note d6 = exec_db_read [OF pend payment_read_only(3)]
  note p6 = GetPending_NoRows(2) [OF pend cv]
  note a = attempt_Create_Inr [OF att, simplified, OF cu cv cb]
  show ?thesis
    unfolding creates_def
    using v(1,2) b s cu a k' new p6 d2 d4 d5 d6
    by (intro exI [of _ v] exI [of _ k'])
      (simp add: attempt_of_def key_of_def fields_match_def attempt_pending_def)
qed

subsection \<open>Settling an attempt\<close>

definition mark_attempt ::
  "string \<Rightarrow> PaymentAttemptStatus \<Rightarrow> string option \<Rightarrow> string option \<Rightarrow> time \<Rightarrow> PaymentAttempt \<Rightarrow> PaymentAttempt" where
  "mark_attempt i status ref code now r =
     (if att_ID r = i \<and> attempt_pending r then set_attempt_status status ref code now r else r)"

definition mark_paid :: "string \<Rightarrow> time \<Rightarrow> Invoice \<Rightarrow> Invoice" where
  "mark_paid i now v =
     (if inv_ID v = i \<and> unpaid_status (inv_Status v)
      then v\<lparr>inv_Status := InvoiceStatusPaid, inv_UpdatedAt := now\<rparr> else v)"

definition mark_success :: "PaymentAttempt \<Rightarrow> string \<Rightarrow> time \<Rightarrow> db \<Rightarrow> db" where
  "mark_success a ref now d =
     d\<lparr>payment_attempts :=
         map (mark_attempt (att_ID a) PaymentAttemptStatusSucceeded (Some ref) None now) (payment_attempts d),
       invoices := map (mark_paid (att_InvoiceID a) now) (invoices d)\<rparr>"

definition mark_failure :: "PaymentAttempt \<Rightarrow> string \<Rightarrow> time \<Rightarrow> db \<Rightarrow> db" where
  "mark_failure a code now d =
     d\<lparr>payment_attempts :=
         map (mark_attempt (att_ID a) PaymentAttemptStatusFailed None (Some code) now) (payment_attempts d)\<rparr>"

text \<open>The three outcomes of \<open>persistSuccess\<close>: settled now, settled before, failed before.\<close>

definition settles :: "PaymentAttempt \<Rightarrow> string \<Rightarrow> time \<Rightarrow> PaymentAttempt \<Rightarrow> db \<Rightarrow> db \<Rightarrow> bool" where
  "settles attempt ref now a' d d' \<longleftrightarrow>
     (\<exists>r \<in> set (payment_attempts d). copy_of attempt r \<and>
        (attempt_pending r \<and> a' = succeeded_attempt attempt ref
           \<and> enqueues a' EventTypePaymentSucceeded (mark_success attempt ref now d) d'
         \<or> attempt_succeeded r \<and> a' = succeeded_attempt r ref \<and> d' = d
         \<or> attempt_failed r \<and> a' = r \<and> d' = d))"

lemma UpdateStatusIfPending_stmt:
  assumes "parse_uuid rt i = Some i"
  shows "PaymentAttemptRepository_UpdateStatusIfPending rt i status ref code now d =
    Inr (\<exists>r \<in> set (payment_attempts d). att_ID r = i \<and> attempt_pending r,
         d\<lparr>payment_attempts := map (mark_attempt i status ref code now) (payment_attempts d)\<rparr>)"
  using assms
  by (simp add: payment_writes exec rows_affected_pos update_where_def mark_attempt_def [abs_def])

lemma MarkPaidIfOpen_stmt:
  assumes "parse_uuid rt i = Some i"
  shows "InvoiceRepository_MarkPaidIfOpen rt i now d = Inr ((), d\<lparr>invoices := map (mark_paid i now) (invoices d)\<rparr>)"
  using assms by (simp add: payment_writes exec update_where_def mark_paid_def [abs_def])

lemma mark_attempt_absent:
  "\<not> (\<exists>r \<in> set rs. att_ID r = i \<and> attempt_pending r) \<Longrightarrow> map (mark_attempt i status ref code now) rs = rs"
  by (rule map_idI) (auto simp: mark_attempt_def)

lemma mark_paid_absent:
  "(\<And>v. v \<in> set vs \<Longrightarrow> inv_ID v = i \<Longrightarrow> \<not> unpaid_status (inv_Status v)) \<Longrightarrow> map (mark_paid i now) vs = vs"
  by (rule map_idI) (auto simp: mark_paid_def)

lemma settleSuccess_Inr:
  assumes "settleSuccess rt a ref w = (Inr a', w')" and "parse_uuid rt (att_InvoiceID a) = Some (att_InvoiceID a)"
  shows "a' = succeeded_attempt a ref"
    and "enqueues a' EventTypePaymentSucceeded
           ((wdb w)\<lparr>invoices := map (mark_paid (att_InvoiceID a) (wclock w)) (invoices (wdb w))\<rparr>) (wdb w')"
proof -
  from assms(1) obtain w1 where
    m: "exec_stmt (InvoiceRepository_MarkPaidIfOpen rt (att_InvoiceID a)) w = (Inr (), w1)"
    and e: "enqueueOutboundEvent rt (succeeded_attempt a ref) EventTypePaymentSucceeded w1 = (Inr (), w')"
    and a': "a' = succeeded_attempt a ref"
    unfolding settleSuccess_def by (elim act_bind_Inr) (auto simp: exec)
  from exec_stmt_Inr [OF m] have
    "wdb w1 = (wdb w)\<lparr>invoices := map (mark_paid (att_InvoiceID a) (wclock w)) (invoices (wdb w))\<rparr>"
    by (simp add: MarkPaidIfOpen_stmt [OF assms(2)])
  with enqueue_db_Inr [OF e] a' show "a' = succeeded_attempt a ref"
    and "enqueues a' EventTypePaymentSucceeded
           ((wdb w)\<lparr>invoices := map (mark_paid (att_InvoiceID a) (wclock w)) (invoices (wdb w))\<rparr>) (wdb w')"
    by simp_all
qed

lemma held_canonical:
  assumes "pay_inv rt d" and "held a d"
  shows "parse_uuid rt (att_ID a) = Some (att_ID a)"
    and "parse_uuid rt (att_InvoiceID a) = Some (att_InvoiceID a)"
proof -
  from assms(2) obtain r where r: "r \<in> set (payment_attempts d)" "same_attempt a r"
    by (auto simp: held_def copy_of_def)
  with assms(1) obtain v where "v \<in> set (invoices d)" "attempt_of r v"
    by (auto simp: pay_inv_def refs_ok_def)
  with r assms(1) show "parse_uuid rt (att_ID a) = Some (att_ID a)"
    and "parse_uuid rt (att_InvoiceID a) = Some (att_InvoiceID a)"
    by (auto simp: pay_inv_def ids_ok_def same_attempt_def attempt_of_def)
qed

text \<open>When the attempt has succeeded, settling it again changes nothing.\<close>

lemma settled_again:
  assumes inv: "pay_inv rt d" and r: "r \<in> set (payment_attempts d)" "attempt_succeeded r"
    and e: "enqueues (succeeded_attempt r ref) EventTypePaymentSucceeded
          (d\<lparr>invoices := map (mark_paid (att_InvoiceID r) now) (invoices d)\<rparr>) d'"
  shows "d' = d"
proof -
  have "map (mark_paid (att_InvoiceID r) now) (invoices d) = invoices d"
    using inv r by (intro mark_paid_absent) (auto simp: pay_inv_def invoices_ok_def)
  moreover from inv r have "queued (succeeded_attempt r ref) EventTypePaymentSucceeded d"
    by (auto simp: pay_inv_def outbox_complete_def queued_def event_for_def succeeded_attempt_def)
  ultimately show ?thesis using e by (simp add: enqueues_def)
qed

lemma persistSuccess_settles:
  assumes inv: "pay_inv rt (wdb w)" and held: "held a (wdb w)"
    and body: "persistSuccess_body rt a ref w = (Inr a', w')"
  shows "settles a ref (wclock w) a' (wdb w) (wdb w')"
proof -
  from held obtain r where r: "r \<in> set (payment_attempts (wdb w))" "copy_of a r"
    by (auto simp: held_def)
  note can = held_canonical [OF inv held]
  have ri: "att_ID r = att_ID a" "att_InvoiceID r = att_InvoiceID a"
    using r(2) by (auto simp: copy_of_def same_attempt_def)
  from body obtain v w1 updated w2 where
    g: "exec_stmt (InvoiceRepository_GetByIDForUpdate rt (att_InvoiceID a)) w = (Inr v, w1)"
    and u: "exec_stmt (PaymentAttemptRepository_UpdateStatusIfPending rt (att_ID a)
          PaymentAttemptStatusSucceeded (Some ref) None) w1 = (Inr updated, w2)"
    and rest: "(if updated then settleSuccess rt a ref
       else act_bind (exec_stmt (PaymentAttemptRepository_GetByID rt (att_ID a))) (\<lambda>existing.
              if att_Status existing \<noteq> PaymentAttemptStatusSucceeded then act_ret existing
              else settleSuccess rt existing ref)) w2 = (Inr a', w')"
    unfolding persistSuccess_body_def by (elim act_bind_Inr)
  have w1: "wdb w1 = wdb w" "wclock w1 = wclock w"
    using GetByIDForUpdate_Inr(3) [OF g] exec_stmt_frame [OF g] by simp_all
  have clock: "wclock w2 = wclock w" using exec_stmt_frame [OF u] w1 by simp
  have up: "updated \<longleftrightarrow> (\<exists>r \<in> set (payment_attempts (wdb w)). att_ID r = att_ID a \<and> attempt_pending r)"
    and w2: "wdb w2 = (wdb w)\<lparr>payment_attempts := map (mark_attempt (att_ID a) PaymentAttemptStatusSucceeded
        (Some ref) None (wclock w)) (payment_attempts (wdb w))\<rparr>"
    using exec_stmt_Inr [OF u] by (simp_all add: UpdateStatusIfPending_stmt [OF can(1)] w1)
  show ?thesis
  proof (cases updated)
    case True
    with up obtain r1 where r1: "r1 \<in> set (payment_attempts (wdb w))" "att_ID r1 = att_ID a" "attempt_pending r1"
      by auto
    have "r1 = r"
      using inv r(1) r1 ri by (auto simp: pay_inv_def ids_ok_def intro: distinct_map_unique)
    with r1 have pr: "attempt_pending r" by simp
    from True rest have s: "settleSuccess rt a ref w2 = (Inr a', w')" by simp
    from settleSuccess_Inr [OF s can(2)] w2 clock r pr show ?thesis
      by (auto simp: settles_def mark_success_def)
  next
    case False
    with up have np: "\<not> (\<exists>r \<in> set (payment_attempts (wdb w)). att_ID r = att_ID a \<and> attempt_pending r)"
      by simp
    have d2: "wdb w2 = wdb w" using w2 by (simp add: mark_attempt_absent [OF np])
    from False rest obtain x w3 where
      x: "exec_stmt (PaymentAttemptRepository_GetByID rt (att_ID a)) w2 = (Inr x, w3)"
      and k: "(if att_Status x \<noteq> PaymentAttemptStatusSucceeded then act_ret x else settleSuccess rt x ref) w3
          = (Inr a', w')"
      by (auto elim: act_bind_Inr)
    note gx = attempt_GetByID_Inr [OF x]
    have "x = r"
      using inv r(1) gx(1,2) ri can d2 by (auto simp: pay_inv_def ids_ok_def intro: distinct_map_unique)
    have d3: "wdb w3 = wdb w" using gx(3) d2 by simp
    show ?thesis
    proof (cases "attempt_succeeded r")
      case True
      with k \<open>x = r\<close> have s: "settleSuccess rt r ref w3 = (Inr a', w')" by (simp add: attempt_succeeded_def)
      from can(2) ri have "parse_uuid rt (att_InvoiceID r) = Some (att_InvoiceID r)" by simp
      note s = settleSuccess_Inr [OF s this]
      from settled_again [OF inv r(1) True] s d3 have "wdb w' = wdb w" by simp
      with True r s show ?thesis by (auto simp: settles_def)
    next
      case nsucc: False
      have "attempt_failed r"
        using np r(1) ri nsucc by (cases "att_Status r") (auto simp: attempt_status_defs)
      with k \<open>x = r\<close> nsucc d3 r show ?thesis
        by (auto simp: settles_def attempt_succeeded_def exec)
    qed
  qed
qed

end
