(* ===== verification/Payment_Steps.thy ===== *)
theory Payment_Steps
  imports Payment_Effects
begin

text \<open>
  Each effect of the payment service on the tables keeps \<open>pay_inv\<close> and moves along
  \<open>evolves\<close>: a new attempt, a success, a failure, and the events they queue.
\<close>

lemma pay_invD:
  assumes "pay_inv rt d"
  shows "ids_ok rt d" "refs_ok d" "single_active d" "invoices_ok d" "keys_ok d" "fields_ok d"
    "outbox_sound d" "outbox_complete d" "statuses_ok d" "outbox_distinct d"
  using assms by (simp_all add: pay_inv_def)

lemma invoice_unique:
  "ids_ok rt d \<Longrightarrow> u \<in> set (invoices d) \<Longrightarrow> v \<in> set (invoices d) \<Longrightarrow> inv_ID u = inv_ID v \<Longrightarrow> u = v"
  unfolding ids_ok_def by (blast intro: distinct_map_unique)

lemma attempt_unique:
  "ids_ok rt d \<Longrightarrow> a \<in> set (payment_attempts d) \<Longrightarrow> b \<in> set (payment_attempts d) \<Longrightarrow> att_ID a = att_ID b \<Longrightarrow> a = b"
  unfolding ids_ok_def by (blast intro: distinct_map_unique)

subsection \<open>Opening the invoice\<close>

lemma map_ID_open_invoice: "map inv_ID (open_invoice v now d) = map inv_ID (invoices d)"
  by (auto simp: open_invoice_def rows)

lemma open_invoice_row:
  assumes "ids_ok rt d" and "v \<in> set (invoices d)" and "unpaid_status (inv_Status v)"
    and "v' \<in> set (open_invoice v now d)"
  obtains u where "u \<in> set (invoices d)" "invoice_evolves u v'" "inv_ID u \<noteq> inv_ID v \<Longrightarrow> v' = u"
    "inv_ID u = inv_ID v \<Longrightarrow> u = v \<and> inv_Status v' = InvoiceStatusOpen"
proof (cases "inv_Status v = InvoiceStatusDraft")
  case True
  with assms obtain u where u: "u \<in> set (invoices d)"
    "v' = (if inv_ID u = inv_ID v then u\<lparr>inv_Status := InvoiceStatusOpen, inv_UpdatedAt := now\<rparr> else u)"
    by (auto simp: open_invoice_def update_where_def)
  show ?thesis
  proof (cases "inv_ID u = inv_ID v")
    case True
    with invoice_unique [OF assms(1) u(1) assms(2)] have "u = v" by simp
    with u \<open>inv_Status v = InvoiceStatusDraft\<close> True show ?thesis
      by (intro that [of u]) (auto simp: invoice_evolves_def)
  next
    case False
    with u show ?thesis by (intro that [of u]) auto
  qed
next
  case False
  with assms(3) have "inv_Status v = InvoiceStatusOpen" by (simp add: unpaid_status_def)
  with assms False invoice_unique [OF assms(1) _ assms(2)] show ?thesis
    by (intro that [of v']) (auto simp: open_invoice_def)
qed

lemma open_invoice_evolves:
  assumes "ids_ok rt d" and "v \<in> set (invoices d)"
  shows "rows_evolve invoice_evolves (invoices d) (open_invoice v now d)"
proof (cases "inv_Status v = InvoiceStatusDraft")
  case True
  have "invoice_evolves u (u\<lparr>inv_Status := InvoiceStatusOpen, inv_UpdatedAt := now\<rparr>)"
    if "u \<in> set (invoices d)" "inv_ID u = inv_ID v" for u
    using invoice_unique [OF assms(1) that(1) assms(2) that(2)] True by (simp add: invoice_evolves_def)
  with True show ?thesis
    by (auto simp: open_invoice_def intro!: rows_evolve_update)
next
  case False
  then show ?thesis by (simp add: open_invoice_def)
qed

subsection \<open>A new attempt\<close>

lemma creates_evolves:
  assumes "creates rt b i key h now a d d'" and "pay_inv rt d"
  shows "evolves d d'"
  using assms(1) open_invoice_evolves [OF pay_invD(1) [OF assms(2)]]
  by (auto simp: creates_def evolves_def intro!: rows_evolve_append)

lemma creates_held:
  assumes "creates rt b i key h now a d d'"
  shows "held a d'"
  using assms by (auto simp: creates_def held_def copy_of_def same_attempt_def fields_match_def attempt_pending_def)

lemma creates_pay_inv:
  assumes c: "creates rt b i key h now a d d'" and inv: "pay_inv rt d"
  shows "pay_inv rt d'"
proof -
  from c obtain v k where v: "v \<in> set (invoices d)" and s: "unpaid_status (inv_Status v)"
    and a: "attempt_of a v" "attempt_pending a" "fields_match a" "parse_uuid rt (att_ID a) = Some (att_ID a)"
      "att_ID a \<notin> att_ID ` set (payment_attempts d)"
    and np: "\<forall>r \<in> set (payment_attempts d). att_InvoiceID r = inv_ID v \<longrightarrow> \<not> attempt_pending r"
    and b: "inv_BusinessID v = b"
    and k: "key_of k a" "ik_IdempotencyKey k = key"
    and nk: "\<forall>r \<in> set (idempotency_keys d). \<not> (ik_BusinessID r = b \<and> ik_IdempotencyKey r = key)"
    and d': "invoices d' = open_invoice v now d" "idempotency_keys d' = idempotency_keys d @ [k]"
      "payment_attempts d' = payment_attempts d @ [a]" "outbound_events d' = outbound_events d"
    by (auto simp: creates_def)
  note inv = pay_invD [OF inv]
  note row = open_invoice_row [OF inv(1) v s]
  have kb: "ik_BusinessID k = b" and ka: "ik_PaymentAttemptID k = Some (att_ID a)"
    using k(1) a(1) b by (auto simp: key_of_def attempt_of_def)
  have vi: "inv_ID v = att_InvoiceID a" using a(1) by (simp add: attempt_of_def)
  have all_failed: "attempt_failed r" if "r \<in> set (payment_attempts d)" "att_InvoiceID r = inv_ID v" for r
    using inv(4) v s np that unfolding invoices_ok_def
    by (cases "att_Status r") (auto simp: attempt_status_defs)
  have "ids_ok rt d'"
    unfolding ids_ok_def d' map_ID_open_invoice
    using inv(1) a by (auto simp: ids_ok_def invoice_evolves_def elim!: row)
  moreover have "refs_ok d'"
    unfolding refs_ok_def d'
    using inv(2) a(1) v open_invoice_evolves [OF inv(1) v, of now]
    unfolding refs_ok_def rows_evolve_def attempt_of_def invoice_evolves_def by fastforce
  moreover have "single_active d'"
    unfolding single_active_def d' using inv(3) all_failed vi by (auto simp: single_active_def)
  moreover have "invoices_ok d'"
    unfolding invoices_ok_def d'
  proof
    fix v' assume "v' \<in> set (open_invoice v now d)"
    then show "(inv_Status v' = InvoiceStatusDraft \<longrightarrow>
           (\<forall>r \<in> set (payment_attempts d @ [a]). att_InvoiceID r \<noteq> inv_ID v')) \<and>
        (unpaid_status (inv_Status v') \<longrightarrow>
           (\<forall>r \<in> set (payment_attempts d @ [a]). att_InvoiceID r = inv_ID v' \<longrightarrow> \<not> attempt_succeeded r)) \<and>
        (inv_Status v' = InvoiceStatusPaid \<longrightarrow>
           (\<exists>r \<in> set (payment_attempts d @ [a]). att_InvoiceID r = inv_ID v' \<and> attempt_succeeded r))"
    proof (rule row)
      fix u assume u: "u \<in> set (invoices d)" "invoice_evolves u v'"
        and ne: "inv_ID u \<noteq> inv_ID v \<Longrightarrow> v' = u"
        and eq: "inv_ID u = inv_ID v \<Longrightarrow> u = v \<and> inv_Status v' = InvoiceStatusOpen"
      show ?thesis
      proof (cases "inv_ID u = inv_ID v")
        case True
        with eq u have "inv_Status v' = InvoiceStatusOpen" "inv_ID v' = inv_ID v"
          by (auto simp: invoice_evolves_def)
        with all_failed a(2) show ?thesis by (auto simp: attempt_status_defs)
      next
        case False
        with ne u inv(4) vi show ?thesis by (auto simp: invoices_ok_def)
      qed
    qed
  qed
  moreover have "keys_ok d'"
    unfolding keys_ok_def d'
    using inv(5) k nk kb ka a(5) by (fastforce simp: keys_ok_def key_of_def)
  moreover have "fields_ok d'"
    unfolding fields_ok_def d' using inv(6) a(3) by (auto simp: fields_ok_def)
  moreover have "outbox_sound d'"
    unfolding outbox_sound_def d' using inv(7) unfolding outbox_sound_def by auto
  moreover have "outbox_complete d'"
    unfolding outbox_complete_def d' using inv(8) a(2)
    by (auto simp: outbox_complete_def attempt_status_defs)
  moreover have "statuses_ok d'"
    unfolding statuses_ok_def d' using inv(9) by (auto simp: statuses_ok_def unpaid_status_def elim!: row)
  moreover have "outbox_distinct d'" using inv(10) by (simp add: outbox_distinct_def d')
  ultimately show ?thesis by (simp add: pay_inv_def)
qed

subsection \<open>Rewriting a pending row\<close>

text \<open>
  Both outcomes rewrite the pending row of one attempt and leave its identity: what that
  alone keeps.
\<close>

lemma mark_attempt_same [simp]: "same_attempt r (mark_attempt i st ref code now r)"
  by (simp add: mark_attempt_def same_attempt_def set_attempt_status_def)

lemma mark_attempt_evolves [simp]: "attempt_evolves r (mark_attempt i st ref code now r)"
  by (auto simp: mark_attempt_def attempt_evolves_def same_attempt_def set_attempt_status_def attempt_status_defs)

lemma mark_attempt_fields [simp]:
  "att_ID (mark_attempt i st ref code now r) = att_ID r"
  "att_InvoiceID (mark_attempt i st ref code now r) = att_InvoiceID r"
  "att_BusinessID (mark_attempt i st ref code now r) = att_BusinessID r"
  "attempt_of (mark_attempt i st ref code now r) v = attempt_of r v"
  "key_of k (mark_attempt i st ref code now r) = key_of k r"
  by (simp_all add: mark_attempt_def set_attempt_status_def attempt_of_def key_of_def)

lemma mark_attempt_settled: "attempt_settled r \<Longrightarrow> mark_attempt i st ref code now r = r"
  by (simp add: mark_attempt_def attempt_status_defs)

lemma mark_paid_fields [simp]:
  "inv_ID (mark_paid i now v) = inv_ID v" "inv_BusinessID (mark_paid i now v) = inv_BusinessID v"
  "attempt_of a (mark_paid i now v) = attempt_of a v"
  by (simp_all add: mark_paid_def attempt_of_def)

lemma mark_paid_evolves [simp]: "invoice_evolves v (mark_paid i now v)"
  by (auto simp: mark_paid_def invoice_evolves_def unpaid_status_def)

lemma rows_evolve_map: "(\<And>r. rel r (f r)) \<Longrightarrow> rows_evolve rel rs (map f rs)"
  by (auto simp: rows_evolve_def)

lemma marked_ids_ok:
  assumes "ids_ok rt d"
    and "payment_attempts d' = map (mark_attempt i st ref code now) (payment_attempts d)"
    and "invoices d' = invoices d \<or> invoices d' = map (mark_paid j now') (invoices d)"
  shows "ids_ok rt d'"
  using assms by (auto simp: ids_ok_def comp_def)

lemma marked_refs_ok:
  assumes "refs_ok d"
    and "payment_attempts d' = map (mark_attempt i st ref code now) (payment_attempts d)"
    and "invoices d' = invoices d \<or> invoices d' = map (mark_paid j now') (invoices d)"
  shows "refs_ok d'"
  using assms by (auto simp: refs_ok_def)

lemma marked_keys_ok:
  assumes "keys_ok d"
    and "payment_attempts d' = map (mark_attempt i st ref code now) (payment_attempts d)"
    and "idempotency_keys d' = idempotency_keys d"
  shows "keys_ok d'"
  using assms by (auto simp: keys_ok_def)

lemma marked_single_active:
  assumes "single_active d"
    and "payment_attempts d' = map (mark_attempt i st ref code now) (payment_attempts d)"
  shows "single_active d'"
proof -
  have "\<not> attempt_failed r" if "\<not> attempt_failed (mark_attempt i st ref code now r)" for r
    using that mark_attempt_settled [of r] by (cases "att_Status r") (auto simp: attempt_status_defs)
  with assms show ?thesis by (auto simp: single_active_def)
qed

lemma set_attempt_status_fields_match:
  "fields_match (set_attempt_status PaymentAttemptStatusSucceeded (Some ref) None now r)"
  "fields_match (set_attempt_status PaymentAttemptStatusFailed None (Some code) now r)"
  by (simp_all add: fields_match_def set_attempt_status_def)

lemma event_for_mark:
  assumes "attempt_settled r" and "event_for r ty e"
  shows "event_for (mark_attempt i st ref code now r) ty e"
  using assms by (simp add: mark_attempt_settled)

text \<open>Events of settled attempts stay true when a pending row is rewritten.\<close>

lemma marked_outbox_sound:
  assumes "outbox_sound d" and "outbound_events d' = outbound_events d"
    and "payment_attempts d' = map (mark_attempt i st ref code now) (payment_attempts d)"
  shows "outbox_sound d'"
  using assms
  by (fastforce simp: outbox_sound_def attempt_status_defs mark_attempt_def event_for_def)

lemma event_types_differ [simp]: "EventTypePaymentSucceeded \<noteq> EventTypePaymentFailed"
  by (simp add: EventTypePaymentSucceeded_def EventTypePaymentFailed_def)

lemma outbox_sound_queue:
  assumes "outbox_sound d" and "payment_attempts d' = payment_attempts d"
    and "outbound_events d' = outbound_events d @ [e]" and a: "a \<in> set (payment_attempts d)"
    and e: "attempt_succeeded a \<and> event_for a EventTypePaymentSucceeded e
      \<or> attempt_failed a \<and> event_for a EventTypePaymentFailed e"
  shows "outbox_sound d'"
  unfolding outbox_sound_def assms(2,3)
proof
  fix x assume "x \<in> set (outbound_events d @ [e])"
  then consider "x \<in> set (outbound_events d)" | "x = e" by auto
  then show "(evt_EventType x = EventTypePaymentSucceeded \<longrightarrow>
         (\<exists>a \<in> set (payment_attempts d). attempt_succeeded a \<and> event_for a EventTypePaymentSucceeded x)) \<and>
      (evt_EventType x = EventTypePaymentFailed \<longrightarrow>
         (\<exists>a \<in> set (payment_attempts d). attempt_failed a \<and> event_for a EventTypePaymentFailed x))"
  proof cases
    case 1
    with assms(1) show ?thesis by (simp add: outbox_sound_def)
  next
    case 2
    with e have "evt_EventType x = EventTypePaymentSucceeded \<and> attempt_succeeded a \<and> event_for a EventTypePaymentSucceeded x
       \<or> evt_EventType x = EventTypePaymentFailed \<and> attempt_failed a \<and> event_for a EventTypePaymentFailed x"
      by (auto simp: event_for_def)
    with a show ?thesis by (metis event_types_differ)
  qed
qed

subsection \<open>A success\<close>

text \<open>The event that goes with a success is queued now, since none was before.\<close>

lemma source_id_inject [simp]: "source_id a ty = source_id b ty \<longleftrightarrow> a = b"
  by (simp add: source_id_def)

lemma pending_not_queued:
  assumes "pay_inv rt d" and "r \<in> set (payment_attempts d)" and "attempt_pending r" and "att_ID a = att_ID r"
    and "ty = EventTypePaymentSucceeded \<or> ty = EventTypePaymentFailed"
  shows "\<not> queued a ty d"
proof
  assume "queued a ty d"
  then obtain e where e: "e \<in> set (outbound_events d)" "evt_EventType e = ty"
      "evt_SourceID e = source_id (att_ID r) ty"
    using assms(4) by (auto simp: queued_def)
  from pay_invD(7) [OF assms(1)] e assms(5) obtain b where b: "b \<in> set (payment_attempts d)"
      "attempt_settled b" "event_for b ty e"
    by (auto simp: outbox_sound_def attempt_status_defs)
  with e have "att_ID b = att_ID r" by (simp add: event_for_def)
  with b attempt_unique [OF pay_invD(1) [OF assms(1)] b(1) assms(2)] assms(3)
  show False by (auto simp: attempt_status_defs)
qed

lemma queued_key: "queued a ty d \<longleftrightarrow> (ty, source_id (att_ID a) ty) \<in> event_key ` set (outbound_events d)"
  by (force simp: queued_def event_key_def)

lemma outbox_distinct_queue:
  assumes "outbox_distinct d" and "outbound_events d' = outbound_events d @ [e]" and "event_for a ty e"
    and "\<not> queued a ty d"
  shows "outbox_distinct d'"
  using assms by (simp add: outbox_distinct_def queued_key event_for_def event_key_def)

lemma settles_now:
  assumes inv: "pay_inv rt d" and r: "r \<in> set (payment_attempts d)" "copy_of a r" "attempt_pending r"
    and e: "enqueues (succeeded_attempt a ref) EventTypePaymentSucceeded (mark_success a ref now d) d'"
  obtains e where "event_for (succeeded_attempt a ref) EventTypePaymentSucceeded e"
    and "d' = (mark_success a ref now d)\<lparr>outbound_events := outbound_events d @ [e]\<rparr>"
    and "\<not> queued (succeeded_attempt a ref) EventTypePaymentSucceeded d"
proof -
  have nq: "\<not> queued (succeeded_attempt a ref) EventTypePaymentSucceeded d"
    using r(2) by (intro pending_not_queued [OF inv r(1,3)])
      (auto simp: copy_of_def same_attempt_def succeeded_attempt_def)
  then have "\<not> queued (succeeded_attempt a ref) EventTypePaymentSucceeded (mark_success a ref now d)"
    by (simp add: queued_def mark_success_def)
  with e obtain x where "event_for (succeeded_attempt a ref) EventTypePaymentSucceeded x"
    and "d' = (mark_success a ref now d)\<lparr>outbound_events := outbound_events (mark_success a ref now d) @ [x]\<rparr>"
    by (auto simp: enqueues_def)
  then show ?thesis using nq by (auto simp: mark_success_def intro: that)
qed

lemma success_invoices_ok:
  assumes inv: "pay_inv rt d" and r: "r \<in> set (payment_attempts d)" "attempt_pending r"
    and i: "att_ID r = i" "att_InvoiceID r = j"
    and d': "payment_attempts d' = map (mark_attempt i PaymentAttemptStatusSucceeded (Some ref) None now) (payment_attempts d)"
      "invoices d' = map (mark_paid j now) (invoices d)"
  shows "invoices_ok d'"
  unfolding invoices_ok_def d'
proof
  let ?g = "mark_attempt i PaymentAttemptStatusSucceeded (Some ref) None now"
  fix v' assume "v' \<in> set (map (mark_paid j now) (invoices d))"
  then obtain v where v: "v \<in> set (invoices d)" "v' = mark_paid j now v" by auto
  have gr: "attempt_succeeded (?g r)" "att_InvoiceID (?g r) = j" "?g r \<in> set (map ?g (payment_attempts d))"
    using r i by (auto simp: mark_attempt_def set_attempt_status_def attempt_succeeded_def)
  have other: "?g b = b" if "b \<in> set (payment_attempts d)" "att_InvoiceID b \<noteq> j" for b
    using that attempt_unique [OF pay_invD(1) [OF inv] that(1) r(1)] i by (auto simp: mark_attempt_def)
  note ok = pay_invD(4) [OF inv, unfolded invoices_ok_def, rule_format, OF v(1)]
  show "(inv_Status v' = InvoiceStatusDraft \<longrightarrow> (\<forall>a \<in> set (map ?g (payment_attempts d)). att_InvoiceID a \<noteq> inv_ID v')) \<and>
        (unpaid_status (inv_Status v') \<longrightarrow>
           (\<forall>a \<in> set (map ?g (payment_attempts d)). att_InvoiceID a = inv_ID v' \<longrightarrow> \<not> attempt_succeeded a)) \<and>
        (inv_Status v' = InvoiceStatusPaid \<longrightarrow>
           (\<exists>a \<in> set (map ?g (payment_attempts d)). att_InvoiceID a = inv_ID v' \<and> attempt_succeeded a))"
  proof (cases "inv_ID v = j")
    case True
    then have "\<not> unpaid_status (inv_Status v')" and "inv_ID v' = j"
      using v(2) by (auto simp: mark_paid_def unpaid_status_def)
    moreover have "\<exists>a \<in> set (map ?g (payment_attempts d)). att_InvoiceID a = j \<and> attempt_succeeded a"
      using gr by blast
    ultimately show ?thesis by (auto simp: unpaid_status_def simp del: set_map list.set_map)
  next
    case False
    then have "v' = v" using v(2) by (simp add: mark_paid_def)
    with ok False other show ?thesis by auto
  qed
qed

lemma settles_pay_inv:
  assumes s: "settles a ref now a' d d'" and inv: "pay_inv rt d"
  shows "pay_inv rt d'"
proof (cases "d' = d")
  case True
  with inv show ?thesis by simp
next
  case False
  with s obtain r where r: "r \<in> set (payment_attempts d)" "copy_of a r" "attempt_pending r"
    and a': "a' = succeeded_attempt a ref"
    and q: "enqueues a' EventTypePaymentSucceeded (mark_success a ref now d) d'"
    by (auto simp: settles_def)
  let ?g = "mark_attempt (att_ID a) PaymentAttemptStatusSucceeded (Some ref) None now"
  obtain e where e: "event_for (succeeded_attempt a ref) EventTypePaymentSucceeded e"
    and d'_eq: "d' = (mark_success a ref now d)\<lparr>outbound_events := outbound_events d @ [e]\<rparr>"
    and nq: "\<not> queued (succeeded_attempt a ref) EventTypePaymentSucceeded d"
    by (rule settles_now [OF inv r q [unfolded a']])
  have d': "payment_attempts d' = map ?g (payment_attempts d)"
      "invoices d' = map (mark_paid (att_InvoiceID a) now) (invoices d)"
      "idempotency_keys d' = idempotency_keys d" "outbound_events d' = outbound_events d @ [e]"
    by (simp_all add: d'_eq mark_success_def)
  note inv = inv pay_invD [OF inv]
  have ids: "att_ID r = att_ID a" "att_InvoiceID r = att_InvoiceID a"
    using r(2) by (auto simp: copy_of_def same_attempt_def)
  have gr: "?g r \<in> set (payment_attempts d')" "attempt_succeeded (?g r)"
    "event_for (?g r) EventTypePaymentSucceeded e"
    using r ids e d'(1)
    by (auto simp: mark_attempt_def set_attempt_status_def attempt_succeeded_def event_for_def
        outbound_payload_def succeeded_attempt_def copy_of_def same_attempt_def)
  have keep: "?g x = x" if "x \<in> set (payment_attempts d)" "x \<noteq> r" for x
    using that attempt_unique [OF inv(2) that(1) r(1)] ids by (auto simp: mark_attempt_def)
  have "outbox_sound (d\<lparr>payment_attempts := map ?g (payment_attempts d)\<rparr>)"
    by (rule marked_outbox_sound [OF inv(8), where i = "att_ID a" and st = PaymentAttemptStatusSucceeded
          and ref = "Some ref" and code = None and now = now]) simp_all
  then have os: "outbox_sound d'"
    by (rule outbox_sound_queue [where a = "?g r" and e = e]) (use gr d' in simp_all)
  have oc: "outbox_complete d'"
    unfolding outbox_complete_def
  proof (intro ballI impI)
    fix x assume x: "x \<in> set (payment_attempts d')" "attempt_succeeded x"
    then obtain y where y: "y \<in> set (payment_attempts d)" "x = ?g y" using d' by auto
    show "\<exists>e \<in> set (outbound_events d'). event_for x EventTypePaymentSucceeded e"
    proof (cases "y = r")
      case True
      with gr y d' show ?thesis by auto
    next
      case False
      with keep y have "x = y" by simp
      with inv(9) x y d' show ?thesis by (auto simp: outbox_complete_def)
    qed
  qed
  have st: "statuses_ok d'" using inv(10) by (auto simp: statuses_ok_def d' mark_paid_def)
  have od: "outbox_distinct d'" by (rule outbox_distinct_queue [OF inv(11) d'(4) e nq])
  have "fields_ok d'"
    using inv(7) d' set_attempt_status_fields_match by (auto simp: fields_ok_def mark_attempt_def)
  then show ?thesis
    unfolding pay_inv_def
    using marked_ids_ok [OF inv(2) d'(1)] marked_refs_ok [OF inv(3) d'(1)] marked_single_active [OF inv(4) d'(1)]
      success_invoices_ok [OF inv(1) r(1,3) ids d'(1,2)] marked_keys_ok [OF inv(6) d'(1,3)] d' os oc st od
    by auto
qed

lemma enqueues_evolves:
  "enqueues a ty d d' \<Longrightarrow> evolves d d'"
  by (auto simp: enqueues_def evolves_def intro!: rows_evolve_append)

lemma mark_success_evolves: "evolves d (mark_success a ref now d)"
  by (auto simp: evolves_def mark_success_def intro!: rows_evolve_map)

lemma mark_failure_evolves: "evolves d (mark_failure a code now d)"
  by (auto simp: evolves_def mark_failure_def intro!: rows_evolve_map)

lemma settles_evolves: "settles a ref now a' d d' \<Longrightarrow> evolves d d'"
  by (auto simp: settles_def intro: evolves_trans [OF mark_success_evolves enqueues_evolves])

lemma settles_known:
  assumes s: "settles a ref now a' d d'" and inv: "pay_inv rt d"
  shows "known a' d' \<and> attempt_settled a'"
proof -
  from s obtain r where r: "r \<in> set (payment_attempts d)" "copy_of a r" by (auto simp: settles_def)
  show ?thesis
  proof (cases "attempt_pending r")
    case True
    with s r inv have "a' = succeeded_attempt a ref"
      and q: "enqueues a' EventTypePaymentSucceeded (mark_success a ref now d) d'"
      unfolding settles_def
      by (auto simp: copy_of_def same_attempt_def attempt_status_defs dest: attempt_unique [OF pay_invD(1) [OF inv]])
    let ?g = "mark_attempt (att_ID a) PaymentAttemptStatusSucceeded (Some ref) None now"
    have "?g r \<in> set (payment_attempts d')"
      using q r(1) by (auto simp: enqueues_def mark_success_def)
    moreover have "same_attempt a' (?g r)" and "att_Status a' = att_Status (?g r)" and "attempt_settled a'"
      using r(2) True \<open>a' = succeeded_attempt a ref\<close>
      by (auto simp: attempt_settled_def succeeded_attempt_def mark_attempt_def set_attempt_status_def
          same_attempt_def copy_of_def)
    ultimately show ?thesis by (auto simp: known_def)
  next
    case False
    with s r inv have "d' = d" "a' = r \<or> attempt_succeeded r \<and> a' = succeeded_attempt r ref" "attempt_settled r"
      unfolding settles_def
      by (auto simp: copy_of_def same_attempt_def attempt_status_defs dest: attempt_unique [OF pay_invD(1) [OF inv]])
    with r show ?thesis
      by (auto simp: known_def attempt_status_defs succeeded_attempt_def same_attempt_def intro!: bexI [of _ r])
  qed
qed

subsection \<open>A failure\<close>

lemma mark_failure_pay_inv:
  assumes inv: "pay_inv rt d"
  shows "pay_inv rt (mark_failure a code now d)"
proof -
  let ?g = "mark_attempt (att_ID a) PaymentAttemptStatusFailed None (Some code) now"
  let ?d = "mark_failure a code now d"
  note inv = pay_invD [OF inv]
  have d': "payment_attempts ?d = map ?g (payment_attempts d)" "invoices ?d = invoices d"
    "idempotency_keys ?d = idempotency_keys d" "outbound_events ?d = outbound_events d"
    by (simp_all add: mark_failure_def)
  have succ: "attempt_succeeded (?g x) \<longleftrightarrow> attempt_succeeded x" for x
    by (simp add: mark_attempt_def set_attempt_status_def attempt_status_defs)
  have same: "?g x = x" if "attempt_succeeded x" for x
    using that by (intro mark_attempt_settled) (simp add: attempt_status_defs)
  have "invoices_ok ?d"
    using inv(4) unfolding invoices_ok_def d' by (simp add: succ)
  moreover have "outbox_complete ?d"
    using inv(8) same unfolding outbox_complete_def d' by (auto simp: succ)
  moreover have "fields_ok ?d"
    using inv(6) set_attempt_status_fields_match by (auto simp: fields_ok_def d' mark_attempt_def)
  ultimately show ?thesis
    unfolding pay_inv_def
    using marked_ids_ok [OF inv(1) d'(1)] marked_refs_ok [OF inv(2) d'(1)] marked_single_active [OF inv(3) d'(1)]
      marked_keys_ok [OF inv(5) d'(1,3)] marked_outbox_sound [OF inv(7) d'(4,1)] inv(9,10) d'
    by (simp add: statuses_ok_def outbox_distinct_def)
qed

text \<open>Between the two statements of \<open>persistFailure\<close> the handler knows the row it wrote.\<close>

definition failed_row :: "PaymentAttempt \<Rightarrow> string \<Rightarrow> db \<Rightarrow> bool" where
  "failed_row a code d \<longleftrightarrow> (\<exists>x \<in> set (payment_attempts d). attempt_failed x \<and> same_attempt a x
     \<and> att_PSPTransactionID x = None \<and> att_FailureCode x = Some code \<and> att_PSPTransactionID a = None)"

lemma failed_row_evolves: "failed_row a code d \<Longrightarrow> evolves d d' \<Longrightarrow> failed_row a code d'"
  unfolding failed_row_def
  by (elim bexE, rule bexI, assumption, rule evolves_settled) (auto simp: attempt_status_defs)

lemma mark_failure_failed_row:
  assumes inv: "pay_inv rt d" and held: "held a d"
    and r: "r \<in> set (payment_attempts d)" "att_ID r = att_ID a" "attempt_pending r"
  shows "failed_row a code (mark_failure a code now d)"
proof -
  from held obtain x where x: "x \<in> set (payment_attempts d)" "copy_of a x" by (auto simp: held_def)
  with attempt_unique [OF pay_invD(1) [OF inv] x(1) r(1)] r(2)
  have "copy_of a r" by (auto simp: copy_of_def same_attempt_def)
  then have "att_PSPTransactionID a = None" "same_attempt a r"
    using inv r by (auto simp: copy_of_def pay_inv_def fields_ok_def fields_match_def attempt_pending_def
        split: if_splits)
  with r show ?thesis
    unfolding failed_row_def
    by (intro bexI [of _ "mark_attempt (att_ID a) PaymentAttemptStatusFailed None (Some code) now r"])
      (auto simp: mark_failure_def mark_attempt_def set_attempt_status_def attempt_failed_def same_attempt_def)
qed

lemma enqueue_failure_pay_inv:
  assumes inv: "pay_inv rt d" and row: "failed_row a code d"
    and q: "enqueues (failed_attempt a code) EventTypePaymentFailed d d'"
  shows "pay_inv rt d'"
proof (cases "d' = d")
  case True
  with inv show ?thesis by simp
next
  case False
  with q obtain e where e: "event_for (failed_attempt a code) EventTypePaymentFailed e"
    and nq: "\<not> queued (failed_attempt a code) EventTypePaymentFailed d"
    and d': "d' = d\<lparr>outbound_events := outbound_events d @ [e]\<rparr>"
    by (auto simp: enqueues_def)
  from row obtain x where x: "x \<in> set (payment_attempts d)" "attempt_failed x" "same_attempt a x"
      "att_PSPTransactionID x = None" "att_FailureCode x = Some code" "att_PSPTransactionID a = None"
    by (auto simp: failed_row_def)
  then have ev: "event_for x EventTypePaymentFailed e"
    using e by (simp add: event_for_def failed_attempt_def outbound_payload_def same_attempt_def attempt_failed_def)
  note inv' = pay_invD [OF inv]
  have "outbox_sound d'"
    by (rule outbox_sound_queue [OF inv'(7), where a = x and e = e]) (use x ev d' in auto)
  moreover have "outbox_complete d'" using inv'(8) d' by (auto simp: outbox_complete_def)
  moreover have "outbox_distinct d'" by (rule outbox_distinct_queue [OF inv'(10) _ e nq]) (simp add: d')
  ultimately show ?thesis
    using inv' d' by (simp add: pay_inv_def ids_ok_def refs_ok_def single_active_def invoices_ok_def
        keys_ok_def fields_ok_def statuses_ok_def)
qed

lemma failed_row_known: "failed_row a code d \<Longrightarrow> known (failed_attempt a code) d"
  unfolding failed_row_def known_def
  by (auto simp: failed_attempt_def same_attempt_def attempt_failed_def)

end
