(* ===== verification/Payment_Guarantee.thy ===== *)
theory Payment_Guarantee
  imports Payment_Steps
begin

text \<open>
  Every handler of the payment service keeps the payment invariant and the evolution,
  whatever the other handlers do between its steps and whichever statements the database
  loses. The rely/guarantee locale is interpreted here on the payment tables.
\<close>

definition pay_I :: "runtime \<Rightarrow> 'p world \<Rightarrow> bool" where
  "pay_I rt w \<longleftrightarrow> pay_inv rt (wdb w)"

definition pay_R :: "'p world \<Rightarrow> 'p world \<Rightarrow> bool" where
  "pay_R w w' \<longleftrightarrow> evolves (wdb w) (wdb w')"

interpretation payment: rely_guarantee "pay_I rt" pay_R for rt
  by unfold_locales (auto simp: pay_R_def intro: evolves_trans)

subsection \<open>Facts that last\<close>

text \<open>What a handler knows about the tables must survive the steps of the others.\<close>

definition lasting :: "('a \<Rightarrow> db \<Rightarrow> bool) \<Rightarrow> bool" where
  "lasting Q \<longleftrightarrow> (\<forall>a d d'. Q a d \<longrightarrow> evolves d d' \<longrightarrow> Q a d')"

definition on_success :: "('a \<Rightarrow> db \<Rightarrow> bool) \<Rightarrow> 'a result \<Rightarrow> db \<Rightarrow> bool" where
  "on_success Q r d \<longleftrightarrow> (case r of Inl _ \<Rightarrow> True | Inr a \<Rightarrow> Q a d)"

lemma on_success_simps [simp]: "on_success Q (Inl e) d" "on_success Q (Inr a) d = Q a d"
  by (simp_all add: on_success_def)

lemma lasting_on_success: "lasting Q \<Longrightarrow> lasting (on_success Q)"
  by (auto simp: lasting_def on_success_def split: sum.splits)

lemma lasting_held: "lasting held" and lasting_known: "lasting known"
  and lasting_True: "lasting (\<lambda>_ _. True)"
  by (auto simp: lasting_def intro: held_evolves known_evolves)

definition keeps :: "runtime \<Rightarrow> ('a \<Rightarrow> db \<Rightarrow> bool) \<Rightarrow> ('p world, 'a) prog \<Rightarrow> 'p world \<Rightarrow> bool" where
  "keeps rt Q p w \<longleftrightarrow> guar (pay_I rt) pay_R (\<lambda>a w. Q a (wdb w)) p w"

lemma keeps_Done: "lasting Q \<Longrightarrow> Q a (wdb w) \<Longrightarrow> keeps rt Q (Done a) w"
  unfolding keeps_def by (rule guar_Done) (auto simp: lasting_def pay_R_def)

lemma keeps_bind:
  assumes "keeps rt Q m w" and "pay_I rt w"
    and "\<And>a w'. pay_R w w' \<Longrightarrow> pay_I rt w' \<Longrightarrow> Q a (wdb w') \<Longrightarrow> keeps rt Q' (k a) w'"
  shows "keeps rt Q' (bindp m k) w"
  using assms unfolding keeps_def by (auto intro: payment.guar_bind)

lemma keeps_bindr:
  assumes "keeps rt (on_success Q) m w" and "pay_I rt w" and "lasting Q'"
    and "\<And>a w'. pay_R w w' \<Longrightarrow> pay_I rt w' \<Longrightarrow> Q a (wdb w') \<Longrightarrow> keeps rt (on_success Q') (k a) w'"
  shows "keeps rt (on_success Q') (bindr m k) w"
  unfolding bindr_def
  by (rule keeps_bind [OF assms(1,2)])
    (auto split: sum.splits intro: assms(4) intro!: keeps_Done lasting_on_success assms(3))

lemma keeps_conseq:
  "keeps rt Q p w \<Longrightarrow> (\<And>a d. Q a d \<Longrightarrow> Q' a d) \<Longrightarrow> keeps rt Q' p w"
  unfolding keeps_def by (erule payment.guar_mono) auto

text \<open>An atomic step keeps the invariant if it does so from every state others can leave.\<close>

lemma keeps_atom:
  assumes "lasting Q"
    and "\<And>w' r w''. pay_R w w' \<Longrightarrow> pay_inv rt (wdb w') \<Longrightarrow> m w' = (r, w'')
        \<Longrightarrow> pay_inv rt (wdb w'') \<and> evolves (wdb w') (wdb w'') \<and> Q r (wdb w'')"
  shows "keeps rt Q (atom m) w"
  unfolding keeps_def
proof (rule payment.guar_atom)
  fix w' :: "'b world" assume "pay_R w w'" and "pay_I rt w'"
  then have "pay_inv rt (wdb (snd (m w'))) \<and> evolves (wdb w') (wdb (snd (m w'))) \<and> Q (fst (m w')) (wdb (snd (m w')))"
    using assms(2) [of w' "fst (m w')" "snd (m w')"] by (simp add: pay_I_def)
  with assms(1) show "pay_I rt (snd (m w')) \<and> pay_R w' (snd (m w'))
      \<and> (\<forall>w''. pay_R (snd (m w')) w'' \<longrightarrow> pay_I rt w'' \<longrightarrow> Q (fst (m w')) (wdb w''))"
    by (auto simp: pay_I_def pay_R_def lasting_def)
qed

text \<open>A step that leaves the payment tables alone.\<close>

definition pay_neutral :: "('p, 'a) act \<Rightarrow> bool" where
  "pay_neutral m \<longleftrightarrow> (\<forall>w. invoices (wdb (snd (m w))) = invoices (wdb w)
     \<and> payment_attempts (wdb (snd (m w))) = payment_attempts (wdb w)
     \<and> idempotency_keys (wdb (snd (m w))) = idempotency_keys (wdb w)
     \<and> outbound_events (wdb (snd (m w))) = outbound_events (wdb w))"

lemma keeps_neutral:
  assumes "pay_neutral m"
  shows "keeps rt (\<lambda>_ _. True) (atom m) w"
proof (rule keeps_atom [OF lasting_True])
  fix w' r w'' assume i: "pay_inv rt (wdb w')" and m: "m w' = (r, w'')"
  from assms m have f: "invoices (wdb w'') = invoices (wdb w')"
      "payment_attempts (wdb w'') = payment_attempts (wdb w')"
      "idempotency_keys (wdb w'') = idempotency_keys (wdb w')"
      "outbound_events (wdb w'') = outbound_events (wdb w')"
    unfolding pay_neutral_def by (metis snd_conv)+
  from pay_inv_frame [OF f] evolves_frame [OF f] i
  show "pay_inv rt (wdb w'') \<and> evolves (wdb w') (wdb w'') \<and> True" by simp
qed

lemma pay_neutral_unchanged: "(\<And>w. wdb (snd (m w)) = wdb w) \<Longrightarrow> pay_neutral m"
  by (simp add: pay_neutral_def)

text \<open>A statement is neutral when its successful runs are.\<close>

definition stmt_neutral :: "'a stmt \<Rightarrow> bool" where
  "stmt_neutral q \<longleftrightarrow> (\<forall>t d a d'. q t d = Inr (a, d') \<longrightarrow> invoices d' = invoices d
     \<and> payment_attempts d' = payment_attempts d \<and> idempotency_keys d' = idempotency_keys d
     \<and> outbound_events d' = outbound_events d)"

lemma pay_neutral_exec:
  assumes "stmt_neutral q"
  shows "pay_neutral (exec_stmt q)"
  unfolding pay_neutral_def
proof
  fix w
  obtain r w' where x: "exec_stmt q w = (r, w')" by (cases "exec_stmt q w")
  from exec_stmt_db [OF x]
  show "invoices (wdb (snd (exec_stmt q w))) = invoices (wdb w)
     \<and> payment_attempts (wdb (snd (exec_stmt q w))) = payment_attempts (wdb w)
     \<and> idempotency_keys (wdb (snd (exec_stmt q w))) = idempotency_keys (wdb w)
     \<and> outbound_events (wdb (snd (exec_stmt q w))) = outbound_events (wdb w)"
    using assms x unfolding stmt_neutral_def by auto
qed

lemma neutral_clock: "pay_neutral time_Now" "pay_neutral (uuid_Next rt)" "pay_neutral (psp_Send S req)" "pay_neutral (psp_Wait S call)"
  by (auto simp: pay_neutral_def time_Now_def uuid_Next_def psp_Send_def psp_Wait_def split: list.splits prod.splits)

lemma neutral_webhook_stmts:
  "stmt_neutral (WebhookEventRepository_Create rt e)"
  "stmt_neutral (WebhookEventRepository_GetByEventID rt k)"
  "stmt_neutral (WebhookEventRepository_MarkFailed rt k)"
  "stmt_neutral (WebhookEventRepository_MarkProcessed rt k t)"
  by (auto simp: stmt_neutral_def exec WebhookEventRepository_Create_def WebhookEventRepository_GetByEventID_def
      WebhookEventRepository_MarkFailed_def WebhookEventRepository_MarkProcessed_def split: if_splits)

lemma neutral_try:
  assumes "pay_neutral m" and "\<And>a. pay_neutral (k a)"
  shows "pay_neutral (act_try m k)"
  using assms unfolding pay_neutral_def act_try_def by (simp add: case_prod_beta)

lemma neutral_MarkProcessed:
  "pay_neutral (act_try time_Now (\<lambda>now. exec_stmt (WebhookEventRepository_MarkProcessed rt k now)))"
  by (rule neutral_try neutral_clock pay_neutral_exec neutral_webhook_stmts)+

lemma read_only_neutral: "read_only q \<Longrightarrow> stmt_neutral q"
  by (auto simp: read_only_def stmt_neutral_def)

subsection \<open>The handlers\<close>

text \<open>A read gives facts about rows, which last.\<close>

lemma keeps_read:
  fixes w :: "'p world"
  assumes "read_only q" and "lasting Q"
    and "\<And>(w :: 'p world) a w'. pay_inv rt (wdb w) \<Longrightarrow> exec_stmt q w = (Inr a, w') \<Longrightarrow> Q a (wdb w)"
  shows "keeps rt (on_success Q) (atom (exec_stmt q)) w"
proof (rule keeps_atom [OF lasting_on_success [OF assms(2)]])
  fix w' w'' :: "'p world" and r
  assume i: "pay_inv rt (wdb w')" and x: "exec_stmt q w' = (r, w'')"
  have "wdb w'' = wdb w'" by (rule exec_db_read [OF x assms(1)])
  with i x assms(3) [of w' _ w''] show "pay_inv rt (wdb w'') \<and> evolves (wdb w') (wdb w'') \<and> on_success Q r (wdb w'')"
    by (cases r) auto
qed

lemma keeps_GetByID:
  "keeps rt (on_success held) (atom (exec_stmt (PaymentAttemptRepository_GetByID rt i))) w"
  by (rule keeps_read [OF payment_read_only(4) lasting_held]) (auto dest: attempt_GetByID_Inr intro: held_row)

lemma creates_business: "creates rt b i key h now a d d' \<Longrightarrow> att_BusinessID a = b"
  by (auto simp: creates_def attempt_of_def)

lemma keeps_create_business:
  assumes "uuid_ok (svc_rt S)"
  shows "keeps (svc_rt S) (on_success (\<lambda>a d. held a d \<and> att_BusinessID a = b)) (createPendingAttempt S b i key h) w"
  unfolding createPendingAttempt_def
proof (rule keeps_atom [OF lasting_on_success])
  show "lasting (\<lambda>a d. held a d \<and> att_BusinessID a = b)" by (auto simp: lasting_def intro: held_evolves)
  fix w' r w''
  assume i: "pay_inv (svc_rt S) (wdb w')"
    and x: "transaction (createPendingAttempt_body (svc_rt S) b i key h) w' = (r, w'')"
  from x show "pay_inv (svc_rt S) (wdb w'') \<and> evolves (wdb w') (wdb w'')
      \<and> on_success (\<lambda>a d. held a d \<and> att_BusinessID a = b) r (wdb w'')"
  proof (cases rule: transaction_db)
    case (unchanged e)
    with i show ?thesis by simp
  next
    case (committed w0 a w1)
    then have "creates (svc_rt S) b i key h (wclock w') a (wdb w') (wdb w'')"
      using createPendingAttempt_creates [of "svc_rt S" w0 b i key h a w1] i assms by simp
    with i committed(6) show ?thesis
      by (auto intro: creates_pay_inv creates_evolves creates_held creates_business)
  qed
qed

lemma keeps_createPendingAttempt:
  "uuid_ok (svc_rt S) \<Longrightarrow> keeps (svc_rt S) (on_success held) (createPendingAttempt S b i key h) w"
  by (rule keeps_conseq [OF keeps_create_business]) (auto simp: on_success_def split: sum.splits)

lemma keeps_persistSuccess:
  assumes "held a (wdb w)"
  shows "keeps (svc_rt S) (on_success known) (persistSuccess S a ref) w"
  unfolding persistSuccess_def
proof (rule keeps_atom [OF lasting_on_success [OF lasting_known]])
  fix w' r w''
  assume R: "pay_R w w'" and i: "pay_inv (svc_rt S) (wdb w')"
    and x: "transaction (persistSuccess_body (svc_rt S) a ref) w' = (r, w'')"
  have h: "held a (wdb w')" using assms R by (auto simp: pay_R_def intro: held_evolves)
  from x show "pay_inv (svc_rt S) (wdb w'') \<and> evolves (wdb w') (wdb w'') \<and> on_success known r (wdb w'')"
  proof (cases rule: transaction_db)
    case (unchanged e)
    with i show ?thesis by simp
  next
    case (committed w0 a' w1)
    then have "settles a ref (wclock w') a' (wdb w') (wdb w'')"
      using persistSuccess_settles [of "svc_rt S" w0 a ref a' w1] i h by simp
    with i committed(6) show ?thesis
      by (auto intro: settles_pay_inv settles_evolves dest: settles_known)
  qed
qed

text \<open>The first statement of \<open>persistFailure\<close>: when it changed a row, that row has failed.\<close>

lemma keeps_mark_failed:
  assumes "held a (wdb w)"
  shows "keeps rt (on_success (\<lambda>updated d. updated \<longrightarrow> failed_row a code d))
    (atom (exec_stmt (PaymentAttemptRepository_UpdateStatusIfPending rt (att_ID a)
              PaymentAttemptStatusFailed None (Some code)))) w"
proof (rule keeps_atom [OF lasting_on_success])
  show "lasting (\<lambda>updated d. updated \<longrightarrow> failed_row a code d)"
    by (auto simp: lasting_def intro: failed_row_evolves)
  fix w' r w''
  assume R: "pay_R w w'" and i: "pay_inv rt (wdb w')"
    and x: "exec_stmt (PaymentAttemptRepository_UpdateStatusIfPending rt (att_ID a)
              PaymentAttemptStatusFailed None (Some code)) w' = (r, w'')"
  have h: "held a (wdb w')" using assms R by (auto simp: pay_R_def intro: held_evolves)
  note q = UpdateStatusIfPending_stmt [OF held_canonical(1) [OF i h]]
  have d: "wdb w'' = wdb w' \<or> wdb w'' = mark_failure a code (wclock w') (wdb w')"
    using exec_stmt_db [OF x] by (auto simp: q mark_failure_def)
  have "on_success (\<lambda>updated d. updated \<longrightarrow> failed_row a code d) r (wdb w'')"
  proof (cases r)
    case (Inr updated)
    with x have "exec_stmt (PaymentAttemptRepository_UpdateStatusIfPending rt (att_ID a)
              PaymentAttemptStatusFailed None (Some code)) w' = (Inr updated, w'')" by simp
    from exec_stmt_Inr [OF this] q
    have "updated \<longleftrightarrow> (\<exists>r \<in> set (payment_attempts (wdb w')). att_ID r = att_ID a \<and> attempt_pending r)"
      and "wdb w'' = mark_failure a code (wclock w') (wdb w')"
      by (auto simp: mark_failure_def)
    with Inr mark_failure_failed_row [OF i h] show ?thesis by auto
  qed simp
  with d i mark_failure_pay_inv [OF i] mark_failure_evolves
  show "pay_inv rt (wdb w'') \<and> evolves (wdb w') (wdb w'')
      \<and> on_success (\<lambda>updated d. updated \<longrightarrow> failed_row a code d) r (wdb w'')"
    by auto
qed

lemma keeps_enqueue_failed:
  assumes "failed_row a code (wdb w)"
  shows "keeps rt (on_success (\<lambda>_. failed_row a code))
    (atom (enqueueOutboundEvent rt (failed_attempt a code) EventTypePaymentFailed)) w"
proof (rule keeps_atom [OF lasting_on_success])
  show "lasting (\<lambda>_. failed_row a code)" by (auto simp: lasting_def intro: failed_row_evolves)
  fix w' r w''
  assume R: "pay_R w w'" and i: "pay_inv rt (wdb w')"
    and x: "enqueueOutboundEvent rt (failed_attempt a code) EventTypePaymentFailed w' = (r, w'')"
  have f: "failed_row a code (wdb w')" using assms R by (auto simp: pay_R_def intro: failed_row_evolves)
  have "pay_inv rt (wdb w'') \<and> evolves (wdb w') (wdb w'')"
    using enqueue_db [OF x] i enqueue_failure_pay_inv [OF i f] enqueues_evolves by auto
  with f show "pay_inv rt (wdb w'') \<and> evolves (wdb w') (wdb w'') \<and> on_success (\<lambda>_. failed_row a code) r (wdb w'')"
    by (cases r) (auto intro: failed_row_evolves)
qed

lemma keeps_persistFailure:
  assumes "held a (wdb w)" and "pay_I (svc_rt S) w"
  shows "keeps (svc_rt S) (on_success known) (persistFailure S a code) w"
  unfolding persistFailure_def
proof (rule keeps_bindr [OF keeps_mark_failed [OF assms(1)] assms(2) lasting_known])
  fix updated w' assume I: "pay_I (svc_rt S) w'" and row: "updated \<longrightarrow> failed_row a code (wdb w')"
  let ?enq = "bindr (atom (enqueueOutboundEvent (svc_rt S) (failed_attempt a code) EventTypePaymentFailed))
      (\<lambda>_. Done (Inr (failed_attempt a code)))"
  have enq: "keeps (svc_rt S) (on_success known) ?enq w'" if "updated"
    by (rule keeps_bindr [OF keeps_enqueue_failed I lasting_known])
      (use row that in \<open>auto intro!: keeps_Done lasting_on_success lasting_known failed_row_known\<close>)
  have "keeps (svc_rt S) (on_success known) (atom (exec_stmt (PaymentAttemptRepository_GetByID (svc_rt S) (att_ID a)))) w'"
    by (rule keeps_conseq [OF keeps_GetByID]) (auto simp: on_success_def split: sum.splits intro: held_known)
  with enq show "keeps (svc_rt S) (on_success known)
      (if \<not> updated then atom (exec_stmt (PaymentAttemptRepository_GetByID (svc_rt S) (att_ID a))) else ?enq) w'"
    by simp
qed

text \<open>The charge that an attempt stands for: its amount and currency, under its identifier as the key.\<close>

definition charge_request :: "PaymentAttempt \<Rightarrow> string \<Rightarrow> ChargeRequest" where
  "charge_request a tok = \<lparr>req_Amount = att_Amount a, req_Currency = att_Currency a, req_CardToken = tok,
     req_IdempotencyKey = att_ID a\<rparr>"

lemma charge_request_simps [simp]:
  "req_Amount (charge_request a tok) = att_Amount a" "req_Currency (charge_request a tok) = att_Currency a"
  "req_CardToken (charge_request a tok) = tok" "req_IdempotencyKey (charge_request a tok) = att_ID a"
  by (simp_all add: charge_request_def)

lemma keeps_psp_Charge:
  fixes w :: "'p world"
  assumes "pay_I rt w"
  shows "keeps rt (\<lambda>_ _. True) (psp_Charge S req) w"
  unfolding psp_Charge_def
proof (rule keeps_bind [OF keeps_neutral [OF neutral_clock(3)] assms])
  fix sent :: "ChargeResponse result + nat" and w' :: "'p world"
  show "keeps rt (\<lambda>_ _. True) (case sent of Inl r \<Rightarrow> Done r | Inr call \<Rightarrow> atom (psp_Wait S call)) w'"
    by (auto split: sum.split intro: keeps_Done lasting_True keeps_neutral [OF neutral_clock(4)])
qed

lemma keeps_chargeAndSettle:
  assumes "held a (wdb w)" and "pay_I (svc_rt S) w"
  shows "keeps (svc_rt S) (on_success known) (chargeAndSettle S a tok) w"
  unfolding chargeAndSettle_def
proof (rule keeps_bind [OF keeps_psp_Charge [OF assms(2)] assms(2)])
  fix r w' assume R: "pay_R w w'" and I: "pay_I (svc_rt S) w'"
  have h: "held a (wdb w')" using assms R by (auto simp: pay_R_def intro: held_evolves)
  then show "keeps (svc_rt S) (on_success known)
      (case r of Inl err \<Rightarrow> if IsUnknownOutcome err then Done (Inr a) else persistFailure S a (err_text (svc_rt S) err)
       | Inr resp \<Rightarrow> if resp_Status resp \<noteq> ''succeeded'' then persistFailure S a (decline_code (resp_Code resp))
           else persistSuccess S a (resp_PSPRef resp)) w'"
    by (auto split: sum.splits intro!: keeps_persistFailure [OF h I] keeps_persistSuccess [OF h]
        keeps_Done lasting_on_success lasting_known held_known)
qed

lemma keeps_fail: "lasting Q \<Longrightarrow> keeps rt (on_success Q) (Done (Inl e)) w"
  by (rule keeps_Done) (auto intro: lasting_on_success)

lemma keeps_replayIdempotentPay:
  assumes "pay_I (svc_rt S) w"
  shows "keeps (svc_rt S) (on_success known) (replayIdempotentPay S k i tok h) w"
proof -
  have "keeps (svc_rt S) (on_success known)
      (bindr (atom (exec_stmt (PaymentAttemptRepository_GetByID (svc_rt S) x)))
        (\<lambda>attempt. if att_Status attempt \<noteq> PaymentAttemptStatusPending then Done (Inr attempt)
                    else chargeAndSettle S attempt tok)) w" for x
    by (rule keeps_bindr [OF keeps_GetByID assms lasting_known])
      (auto intro!: keeps_chargeAndSettle keeps_Done lasting_on_success lasting_known held_known)
  then show ?thesis
    by (auto simp: replayIdempotentPay_def split: option.splits intro!: keeps_fail lasting_known)
qed

lemma keeps_PayInvoice:
  assumes rt: "uuid_ok (svc_rt S)" and I: "pay_I (svc_rt S) w"
  shows "keeps (svc_rt S) (on_success known) (PayInvoice S b i key tok) w"
proof -
  let ?get = "atom (exec_stmt (IdempotencyRepository_GetByKey (svc_rt S) b key))"
  have get: "keeps (svc_rt S) (\<lambda>_ _. True) ?get w'" for w'
    by (rule keeps_neutral [OF pay_neutral_exec [OF read_only_neutral [OF payment_read_only(5)]]])
  have again: "keeps (svc_rt S) (on_success known) (bindr ?get (\<lambda>k. replayIdempotentPay S k i tok h)) w'"
    if "pay_I (svc_rt S) w'" for w' h
    unfolding bindr_def
    by (rule keeps_bind [OF get that])
      (auto split: sum.splits intro!: keeps_fail lasting_known keeps_replayIdempotentPay)
  have create: "keeps (svc_rt S) (on_success known)
      (bindp (createPendingAttempt S b i key h) (\<lambda>created. case created of
         Inl e \<Rightarrow> if e \<in> set pay_errors then Done (Inl e)
           else if isUniqueViolation e then bindr ?get (\<lambda>k. replayIdempotentPay S k i tok h)
           else Done (Inl e)
       | Inr attempt \<Rightarrow> chargeAndSettle S attempt tok)) w'"
    if "pay_I (svc_rt S) w'" for w' h
    by (rule keeps_bind [OF keeps_createPendingAttempt [OF rt] that])
      (auto split: sum.splits intro!: keeps_fail lasting_known again keeps_chargeAndSettle)
  show ?thesis
    unfolding PayInvoice_def Let_def
    by (rule keeps_bind [OF get I])
      (auto split: sum.splits intro!: keeps_fail lasting_known keeps_replayIdempotentPay create)
qed

lemma keeps_GetPaymentAttempt:
  assumes "pay_I (svc_rt S) w"
  shows "keeps (svc_rt S) (on_success known) (GetPaymentAttempt S b i) w"
  unfolding GetPaymentAttempt_def
  by (rule keeps_bind [OF keeps_GetByID assms])
    (auto split: sum.splits intro!: keeps_fail keeps_Done lasting_on_success lasting_known held_known)

text \<open>For the rest only the invariant matters, not the result.\<close>

lemma keeps_any: "keeps rt Q p w \<Longrightarrow> keeps rt (\<lambda>_ _. True) p w"
  by (erule keeps_conseq) simp

lemma keeps_applyWebhook:
  assumes "pay_I (svc_rt S) w"
  shows "keeps (svc_rt S) (\<lambda>_ _. True) (applyWebhook S body) w"
proof -
  have drop: "keeps (svc_rt S) (\<lambda>_ _. True) (bindr p (\<lambda>_. Done (Inr ()))) w'"
    if "keeps (svc_rt S) (on_success known) p w'" "pay_I (svc_rt S) w'" for p w'
    unfolding bindr_def
    by (rule keeps_bind [OF that]) (auto split: sum.splits intro!: keeps_Done lasting_True)
  show ?thesis
    unfolding applyWebhook_def
    by (auto split: sum.splits intro!: keeps_Done lasting_True keeps_bind [OF keeps_GetByID assms] drop
        keeps_persistSuccess keeps_persistFailure)
qed

lemma keeps_processEvent:
  assumes "pay_I (svc_rt S) w"
  shows "keeps (svc_rt S) (\<lambda>_ _. True) (processEvent S body event) w"
  unfolding processEvent_def
  by (rule keeps_bind [OF keeps_applyWebhook [OF assms] assms])
    (auto split: sum.splits intro!: keeps_bind [OF keeps_neutral [OF pay_neutral_exec [OF neutral_webhook_stmts(3)]]]
      keeps_Done lasting_True keeps_neutral [OF neutral_MarkProcessed])

lemma keeps_ProcessPSPWebhook:
  assumes "pay_I (svc_rt S) w"
  shows "keeps (svc_rt S) (\<lambda>_ _. True) (ProcessPSPWebhook S payload eventID timestamp signature) w"
proof -
  have fail: "keeps (svc_rt S) (\<lambda>_ _. True) (Done x) w'" for x :: "unit result" and w'
    by (rule keeps_Done) (rule lasting_True, simp)
  show ?thesis
    unfolding ProcessPSPWebhook_def bindr_def
    by (auto split: option.splits sum.splits
        intro!: keeps_bind [OF keeps_neutral [OF neutral_clock(1)] assms] fail
        keeps_bind [OF keeps_neutral [OF neutral_clock(2)]]
        keeps_bind [OF keeps_neutral [OF pay_neutral_exec [OF neutral_webhook_stmts(1)]]]
        keeps_bind [OF keeps_neutral [OF pay_neutral_exec [OF neutral_webhook_stmts(2)]]]
        keeps_processEvent)
qed

end
