(* ===== verification/Server_Safety.thy ===== *)
theory Server_Safety
  imports Server Payment_Guarantee
begin

text \<open>
  Everything the server process runs keeps the payment invariant: the other services leave
  the payment tables alone, add draft invoices, or change the delivery state of events. The
  pool of handlers is interpreted here, on the server.
\<close>

subsection \<open>Programs whose result does not matter\<close>

abbreviation keeps_inv :: "runtime \<Rightarrow> ('p world, 'a) prog \<Rightarrow> 'p world \<Rightarrow> bool" where
  "keeps_inv rt \<equiv> keeps rt (\<lambda>_ _. True)"

named_theorems keeping

lemma keeps_inv_Done [keeping]: "keeps_inv rt (Done a) w"
  by (rule keeps_Done) (rule lasting_True, simp)

lemma keeps_inv_bind [keeping]:
  assumes "pay_I rt w" and "keeps_inv rt m w" and "\<And>a w'. pay_I rt w' \<Longrightarrow> keeps_inv rt (k a) w'"
  shows "keeps_inv rt (bindp m k) w"
  by (rule keeps_bind [OF assms(2,1)]) (rule assms(3))

lemma keeps_inv_bindr [keeping]:
  assumes "pay_I rt w" and "keeps_inv rt m w" and "\<And>a w'. pay_I rt w' \<Longrightarrow> keeps_inv rt (k a) w'"
  shows "keeps_inv rt (bindr m k) w"
  unfolding bindr_def
  by (rule keeps_inv_bind [OF assms(1,2)]) (auto split: sum.splits intro: keeping assms(3))

lemma keeps_inv_neutral_stmt: "stmt_neutral q \<Longrightarrow> keeps_inv rt (atom (exec_stmt q)) w"
  by (rule keeps_neutral) (rule pay_neutral_exec)

lemma keeps_inv_read: "read_only q \<Longrightarrow> keeps_inv rt (atom (exec_stmt q)) w"
  by (rule keeps_inv_neutral_stmt) (rule read_only_neutral)

lemma keeps_inv_clock [keeping]:
  "keeps_inv rt (atom time_Now) w" "keeps_inv rt (atom (uuid_Next rt')) w"
  "keeps_inv rt (atom (rand_Next rt')) w" "keeps_inv rt (atom (NewSecret rt')) w"
  "keeps_inv rt (atom (merchant_Do D req)) w"
  by (rule keeps_neutral; auto simp: pay_neutral_def time_Now_def uuid_Next_def rand_Next_def NewSecret_def
      act_try_def merchant_Do_def split: list.splits prod.splits)+

lemma account_writes_neutral:
  "stmt_neutral (BusinessRepository_Create rt b)"
  "stmt_neutral (BusinessRepository_UpdateWebhookEndpoint rt i url secret)"
  "stmt_neutral (CustomerRepository_Create rt c)"
  "stmt_neutral (APIKeyRepository_Create rt k)"
  "stmt_neutral (APIKeyRepository_Revoke rt i t)"
  "stmt_neutral (APIKeyRepository_TouchLastUsed rt i t)"
  by (auto simp: stmt_neutral_def exec account_writes)

lemmas keeps_account_writes [keeping] = account_writes_neutral [THEN keeps_inv_neutral_stmt]

subsection \<open>New invoices\<close>

lemma InvoiceRepository_Create_pay_inv:
  assumes q: "InvoiceRepository_Create rt v now d = Inr (v', d')" and draft: "inv_Status v = InvoiceStatusDraft"
    and rt: "uuid_ok rt" and inv: "pay_inv rt d"
  shows "pay_inv rt d' \<and> evolves d d'"
proof -
  from q obtain i b c where p: "parse_uuid rt (inv_ID v) = Some i" "parse_uuid rt (inv_BusinessID v) = Some b"
    and new: "\<not> invoice_exists i d"
    and d': "d' = d\<lparr>invoices := invoices d @ [v\<lparr>inv_ID := i, inv_BusinessID := b, inv_CustomerID := c,
                inv_CreatedAt := now, inv_UpdatedAt := now\<rparr>]\<rparr>" (is "d' = d\<lparr>invoices := _ @ [?v]\<rparr>")
    by (auto simp: InvoiceRepository_Create_def exec split: if_splits)
  note canon = uuid_okD(1) [OF rt p(1)] uuid_okD(1) [OF rt p(2)]
  have fresh: "i \<notin> inv_ID ` set (invoices d)" using new by (auto simp: invoice_exists_def list_ex_iff)
  have noatt: "att_InvoiceID a \<noteq> i" if "a \<in> set (payment_attempts d)" for a
    using that fresh pay_invD(2) [OF inv] by (force simp: refs_ok_def attempt_of_def)
  have "ids_ok rt d'" using pay_invD(1) [OF inv] fresh canon by (auto simp: ids_ok_def d')
  moreover have "refs_ok d'" using pay_invD(2) [OF inv] by (auto simp: refs_ok_def d')
  moreover have "invoices_ok d'" using pay_invD(4) [OF inv] noatt draft
    by (auto simp: invoices_ok_def d' unpaid_status_def)
  moreover have "statuses_ok d'" using pay_invD(9) [OF inv] draft by (auto simp: statuses_ok_def d' unpaid_status_def)
  ultimately have "pay_inv rt d'" using inv
    by (simp add: pay_inv_def d' outbox_distinct_def single_active_def keys_ok_def fields_ok_def outbox_sound_def outbox_complete_def)
  moreover have "evolves d d'" by (auto simp: evolves_def d' intro!: rows_evolve_append)
  ultimately show ?thesis by simp
qed

text \<open>A statement that keeps the invariant whenever it succeeds.\<close>

lemma keeps_inv_stmt:
  assumes "\<And>t d a d'. q t d = Inr (a, d') \<Longrightarrow> pay_inv rt d \<Longrightarrow> pay_inv rt d' \<and> evolves d d'"
  shows "keeps_inv rt (atom (exec_stmt q)) w"
proof (rule keeps_atom [OF lasting_True])
  fix w' r w'' assume i: "pay_inv rt (wdb w')" and x: "exec_stmt q w' = (r, w'')"
  from exec_stmt_db [OF x] assms i show "pay_inv rt (wdb w'') \<and> evolves (wdb w') (wdb w'') \<and> True" by auto
qed

lemma keeps_InvoiceRepository_Create [keeping]:
  "uuid_ok rt \<Longrightarrow> inv_Status v = InvoiceStatusDraft \<Longrightarrow>
     keeps_inv rt (atom (exec_stmt (InvoiceRepository_Create rt v))) w"
  by (rule keeps_inv_stmt) (rule InvoiceRepository_Create_pay_inv)

subsection \<open>Delivery states\<close>

lemma delivery_pay_inv:
  assumes d': "d' = d\<lparr>outbound_events := map g (outbound_events d)\<rparr>" and g: "\<And>e. event_evolves e (g e)"
    and inv: "pay_inv rt d"
  shows "pay_inv rt d' \<and> evolves d d'"
proof -
  have g': "evt_SourceID (g e) = evt_SourceID e" "evt_EventType (g e) = evt_EventType e"
    "evt_Payload (g e) = evt_Payload e" for e
    using g [of e] by (simp_all add: event_evolves_def)
  have "event_for a ty (g e) \<longleftrightarrow> event_for a ty e" for a ty e by (simp add: event_for_def g')
  then have "outbox_sound d'" and "outbox_complete d'"
    using pay_invD(7,8) [OF inv] by (auto simp: outbox_sound_def outbox_complete_def d' g')
  moreover have "map event_key (map g (outbound_events d)) = map event_key (outbound_events d)"
    by (simp add: event_key_def g')
  then have "outbox_distinct d'" using pay_invD(10) [OF inv] by (simp add: outbox_distinct_def d' del: map_map)
  ultimately have "pay_inv rt d'" using inv
    by (simp add: pay_inv_def d' statuses_ok_def ids_ok_def refs_ok_def single_active_def invoices_ok_def keys_ok_def fields_ok_def)
  moreover have "evolves d d'" using g by (auto simp: evolves_def d' intro!: rows_evolve_map)
  ultimately show ?thesis by simp
qed

lemma update_delivery_pay_inv:
  assumes "d' = d\<lparr>outbound_events := update_where P f (outbound_events d)\<rparr>" and "\<And>e. event_evolves e (f e)"
    and "pay_inv rt d"
  shows "pay_inv rt d' \<and> evolves d d'"
  using delivery_pay_inv [where d' = d' and d = d and rt = rt and g = "\<lambda>e. if P e then f e else e"] assms by (simp add: update_where_def)

lemma keeps_outbox_marks [keeping]:
  "keeps_inv rt (atom (exec_stmt (OutboundEventRepository_MarkDelivered rt' i t))) w"
  "keeps_inv rt (atom (exec_stmt (OutboundEventRepository_MarkRetry rt' i n t e))) w"
  "keeps_inv rt (atom (exec_stmt (OutboundEventRepository_MarkFailed rt' i n e))) w"
  "keeps_inv rt (atom (exec_stmt (OutboundEventRepository_ResetForRedelivery rt' i t))) w"
  "keeps_inv rt (atom (exec_stmt (OutboundEventRepository_ClaimDue limit t))) w"
  by (rule keeps_inv_stmt; auto simp: outbox_marks exec OutboundEventRepository_ClaimDue_def Let_def
      event_evolves_def intro!: update_delivery_pay_inv [OF refl])+

lemma outbox_read_only [frame]: "read_only (OutboundEventRepository_GetByID rt i)"
  by (auto simp: read_only_def OutboundEventRepository_GetByID_def exec)

lemma list_read_only [frame]: "read_only (OutboundEventRepository_ListByBusiness rt b a n)"
  by (auto simp: read_only_def OutboundEventRepository_ListByBusiness_def Let_def exec split: option.splits)

lemmas keeps_reads [keeping] =
  account_read_only [THEN keeps_inv_read] payment_read_only [THEN keeps_inv_read]
  outbox_read_only [THEN keeps_inv_read] list_read_only [THEN keeps_inv_read]

subsection \<open>The services, the dispatcher and the routes\<close>

lemma keeps_account_services [keeping]:
  assumes "pay_I rt w"
  shows "keeps_inv rt (CreateBusiness rt name) w"
    and "keeps_inv rt (CreateCustomer rt b name email) w"
    and "keeps_inv rt (issueKey rt b nm) w"
    and "keeps_inv rt (ListAPIKeys rt b) w"
    and "keeps_inv rt (ownedKey rt b i) w"
    and "keeps_inv rt (GetInvoice rt b i) w"
  by (auto simp: CreateBusiness_def CreateCustomer_def issueKey_def Let_def ListAPIKeys_def ownedKey_def GetInvoice_def
      assms split: sum.splits intro!: keeping)

lemma keeps_key_services [keeping]:
  assumes "pay_I rt w"
  shows "keeps_inv rt (CreateAPIKey rt b nm au) w"
    and "keeps_inv rt (RevokeAPIKey rt b i) w"
    and "keeps_inv rt (RotateAPIKey rt b i) w"
  by (auto simp: CreateAPIKey_def RevokeAPIKey_def RotateAPIKey_def assms
      split: sum.splits intro!: keeping)

lemma keeps_CreateInvoice [keeping]:
  assumes "pay_I rt w" and "uuid_ok rt"
  shows "keeps_inv rt (CreateInvoice rt b c cur n) w"
  by (auto simp: CreateInvoice_def Let_def assms split: sum.splits intro!: keeping)

lemma keeps_webhook_service [keeping]:
  assumes "pay_I rt w"
  shows "keeps_inv rt (SetEndpoint rt b url) w"
    and "keeps_inv rt (GetEvent rt b i) w"
    and "keeps_inv rt (ListEvents rt b i n) w"
  by (auto simp: SetEndpoint_def Let_def GetEvent_def ListEvents_def assms
      split: sum.splits intro!: keeping)

lemma keeps_Redeliver [keeping]: "pay_I rt w \<Longrightarrow> keeps_inv rt (Redeliver rt b i) w"
  by (auto simp: Redeliver_def intro!: keeping)

lemma keeps_recordFailure [keeping]: "pay_I rt w \<Longrightarrow> keeps_inv rt (recordFailure D e reason) w"
  by (auto simp: recordFailure_def Let_def split: prod.splits intro!: keeping)

lemma keeps_deliverOne [keeping]: "pay_I rt w \<Longrightarrow> keeps_inv rt (deliverOne D e) w"
  by (auto simp: deliverOne_def split: sum.splits option.splits intro!: keeping)

lemma keeps_deliverAll [keeping]: "pay_I rt w \<Longrightarrow> keeps_inv rt (deliverAll D es) w"
  by (induction es arbitrary: w) (auto intro!: keeping)

lemma keeps_DispatcherRun [keeping]: "pay_I rt w \<Longrightarrow> keeps_inv rt (DispatcherRun D n) w"
  by (induction n arbitrary: w) (auto simp: DeliverDue_def intro!: keeping)

lemma keeps_auth [keeping]:
  assumes "pay_I rt w"
  shows "keeps_inv rt (APIKeyAuth rt h) w" and "keeps_inv rt (OptionalAPIKeyAuth rt h) w"
    and "keeps_inv rt (touchLastUsed rt k) w"
  by (auto simp: APIKeyAuth_def OptionalAPIKeyAuth_def authenticateAPIKey_def touchLastUsed_def assms
      split: sum.splits option.splits intro!: keeping)

lemma keeps_payment_service [keeping]:
  assumes "pay_I (svc_rt S) w"
  shows "uuid_ok (svc_rt S) \<Longrightarrow> keeps_inv (svc_rt S) (PayInvoice S b i key tok) w"
    and "keeps_inv (svc_rt S) (GetPaymentAttempt S b i) w"
    and "keeps_inv (svc_rt S) (ProcessPSPWebhook S p i t s) w"
  by (auto intro: keeps_any [OF keeps_PayInvoice] keeps_any [OF keeps_GetPaymentAttempt]
      keeps_ProcessPSPWebhook assms)

lemma keeps_respond [keeping]:
  "pay_I rt w \<Longrightarrow> keeps_inv rt p w \<Longrightarrow> keeps_inv rt (respond p e k) w"
  by (auto simp: respond_def split: sum.splits intro!: keeping)

lemma keeps_with_business [keeping]:
  "(\<And>b. keeps_inv rt (k b) w) \<Longrightarrow> keeps_inv rt (with_business ctx k) w"
  by (auto simp: with_business_def split: option.splits intro!: keeping)

lemma keeps_guarded [keeping]:
  "pay_I rt w \<Longrightarrow> keeps_inv rt a w \<Longrightarrow> (\<And>ctx w'. pay_I rt w' \<Longrightarrow> keeps_inv rt (h ctx) w') \<Longrightarrow>
    keeps_inv rt (guarded a h) w"
  by (auto simp: guarded_def split: sum.splits intro!: keeping)

lemma keeps_handlers [keeping]:
  assumes "pay_I rt w"
  shows "keeps_inv rt (handle_CreateBusiness rt nm) w"
    and "keeps_inv rt (handle_CreateCustomer rt ok body ctx) w"
    and "keeps_inv rt (handle_CreateAPIKey rt b nm ctx) w"
    and "keeps_inv rt (handle_ListAPIKeys rt ctx) w"
    and "keeps_inv rt (handle_RevokeAPIKey rt i ctx) w"
    and "keeps_inv rt (handle_RotateAPIKey rt i ctx) w"
    and "keeps_inv rt (handle_GetInvoice rt i ctx) w"
    and "keeps_inv rt (handle_SetEndpoint rt nm ctx) w"
    and "keeps_inv rt (handle_GetEvent rt i ctx) w"
    and "keeps_inv rt (handle_ListEvents rt i ctx) w"
    and "keeps_inv rt (RedeliverEvent rt i ctx) w"
  using assms
  by (auto simp: handle_CreateBusiness_def handle_CreateCustomer_def handle_CreateAPIKey_def handle_ListAPIKeys_def
      handle_RevokeAPIKey_def handle_RotateAPIKey_def handle_GetInvoice_def handle_SetEndpoint_def handle_GetEvent_def
      handle_ListEvents_def
      RedeliverEvent_def Let_def split: option.splits intro!: keeping)

lemma keeps_handle_CreateInvoice [keeping]:
  "pay_I rt w \<Longrightarrow> uuid_ok rt \<Longrightarrow> keeps_inv rt (handle_CreateInvoice rt body ctx) w"
  by (auto simp: handle_CreateInvoice_def split: option.splits intro!: keeping)

lemma keeps_payment_handlers [keeping]:
  assumes "pay_I (svc_rt S) w"
  shows "uuid_ok (svc_rt S) \<Longrightarrow> keeps_inv (svc_rt S) (handle_PayInvoice S i body key ctx) w"
    and "keeps_inv (svc_rt S) (handle_GetPaymentAttempt S i ctx) w"
    and "keeps_inv (svc_rt S) (HandlePSPWebhook S p i t s) w"
  using assms
  by (auto simp: handle_PayInvoice_def handle_GetPaymentAttempt_def HandlePSPWebhook_def
      split: option.splits intro!: keeping)

lemma svc_rt_paymentService [simp]: "svc_rt (paymentService V) = srv_rt V"
  by (simp add: paymentService_def)

lemma keeps_route:
  assumes "pay_I (srv_rt V) w" and "uuid_ok (srv_rt V)"
  shows "keeps_inv (srv_rt V) (route V req) w"
  using assms keeps_payment_handlers [where S = "paymentService V"]
  by (auto simp: route_def Let_def split: Request.splits intro!: keeping)

end
