(* ===== verification/Gateway.thy ===== *)
theory Gateway
  imports Server_Safety
begin

text \<open>
  The server as a pool of handlers: any number of requests, notes and polls, interleaved
  between their statements, with statements lost and handlers that never finish. The
  locale's theorem on reachable states is instantiated here; the sequential use of the API
  is one of the interleavings.
\<close>

definition gateway_I :: "'p Server \<Rightarrow> 'p world \<Rightarrow> bool" where
  "gateway_I V w \<longleftrightarrow> uuid_ok (srv_rt V) \<and> pay_I (srv_rt V) w"

lemma gateway_I_ok: "uuid_ok (srv_rt V) \<Longrightarrow> gateway_I V = pay_I (srv_rt V)"
  by (simp add: gateway_I_def [abs_def])

lemma arrival_keeps:
  assumes "Arrives V w p" and "uuid_ok (srv_rt V)" and I: "pay_I (srv_rt V) w"
  shows "guar (pay_I (srv_rt V)) pay_R (\<lambda>_ _. True) p w"
proof -
  have h: "guar (pay_I (srv_rt V)) pay_R (\<lambda>_ _. True) (handler q) w" if "keeps_inv (srv_rt V) q w" for q :: "('a world, 'b) prog"
    using that unfolding keeps_def by (rule payment.guar_handler [OF _ I])
  from assms(1) show ?thesis
    by (cases rule: Arrives.cases)
      (auto intro!: h keeps_route keeps_auth(3) keeps_DispatcherRun assms(2) I)
qed

lemma environment_keeps:
  assumes "Environment w w'"
  shows "wdb w' = wdb w"
  using assms by (cases rule: Environment.cases) auto

interpretation gateway: handler_pool "gateway_I V" pay_R "Arrives V" Environment for V
proof unfold_locales
  fix w p assume a: "Arrives V w p" and i: "gateway_I V w"
  then have "uuid_ok (srv_rt V)" and "pay_I (srv_rt V) w" by (simp_all add: gateway_I_def)
  with a show "guar (gateway_I V) pay_R (\<lambda>_ _. True) p w"
    by (simp add: gateway_I_ok arrival_keeps)
next
  fix w w' :: "'a world" assume "Environment w w'" and "gateway_I V w"
  then show "gateway_I V w' \<and> pay_R w w'"
    by (auto dest!: environment_keeps simp: gateway_I_def pay_I_def pay_R_def)
qed

subsection \<open>Reachable states\<close>

text \<open>
  States of an execution that starts with no handler running and tables in order; the empty
  database of a new installation is the first of them.
\<close>

lemma reachable_pay_inv:
  assumes "uuid_ok (srv_rt V)" and "wdb w0 = empty_db"
    and "pool_reach (Arrives V) Environment ([], w0) (ps, w)"
  shows "pay_inv (srv_rt V) (wdb w)"
  using gateway.reachable_invariant(1) [OF assms(3)] assms(1,2)
  by (simp add: gateway_I_def pay_I_def pay_inv_empty)

lemma reachable_pool_ok:
  assumes "uuid_ok (srv_rt V)" and "wdb w0 = empty_db"
    and "pool_reach (Arrives V) Environment ([], w0) (ps, w)"
  shows "gateway.pool_ok V (ps, w)"
  using gateway.pool_reach_ok [OF assms(3)] assms(1,2)
  by (simp add: gateway.pool_ok_def gateway_I_def pay_I_def pay_inv_empty)

lemma reachable_evolves:
  assumes "uuid_ok (srv_rt V)" and "wdb w0 = empty_db"
    and "pool_reach (Arrives V) Environment ([], w0) (ps, w)"
    and "pool_reach (Arrives V) Environment (ps, w) (ps', w')"
  shows "evolves (wdb w) (wdb w')"
  using gateway.pool_reach_ok [OF assms(4) reachable_pool_ok [OF assms(1-3)]]
  by (simp add: pay_R_def)

subsection \<open>One request after the other\<close>

primrec serve :: "'p Server \<Rightarrow> Request list \<Rightarrow> 'p world \<Rightarrow> response list \<times> 'p world" where
  "serve V [] w = ([], w)"
| "serve V (req # reqs) w =
     (case run (route V req) w of (resp, w') \<Rightarrow>
        case serve V reqs w' of (resps, w'') \<Rightarrow> (resp # resps, w''))"

lemma run_handler: "snd (run (handler p) w) = snd (run p w)"
  by (simp add: handler_def split: prod.splits)

lemma serve_step:
  "\<exists>ps'. pool_reach (Arrives V) Environment (ps, w) (ps', snd (run (route V req) w))"
proof -
  let ?h = "handler (route V req)"
  have a: "pool_reach (Arrives V) Environment (ps, w) (ps @ [?h], w)"
    by (rule pool_more [OF pool_refl]) (rule arrival, rule request)
  have "pool_reach (Arrives V) Environment (ps @ [?h], w)
      ((ps @ [?h])[length ps := Done (fst (run ?h w))], snd (run ?h w))"
    by (rule pool_reach_run) simp_all
  with a show ?thesis unfolding run_handler by (blast intro: pool_reach_trans)
qed

lemma serve_reach:
  "\<exists>ps'. pool_reach (Arrives V) Environment (ps, w) (ps', snd (serve V reqs w))"
proof (induction reqs arbitrary: ps w)
  case Nil
  show ?case by (auto intro: pool_refl)
next
  case (Cons req reqs)
  obtain ps1 where 1: "pool_reach (Arrives V) Environment (ps, w) (ps1, snd (run (route V req) w))"
    using serve_step by blast
  obtain ps2 where "pool_reach (Arrives V) Environment (ps1, snd (run (route V req) w))
      (ps2, snd (serve V reqs (snd (run (route V req) w))))"
    using Cons.IH by blast
  with 1 show ?case by (auto simp: case_prod_beta intro: pool_reach_trans)
qed

end
