(* ===== verification/Demo.thy ===== *)
theory Demo
  imports Gateway
begin

text \<open>
  A concrete server: the parameters are instantiated by simple computable functions, the
  provider accepts or declines by the card token and counts the charges it made. The
  examples of the development are runs of this server.
\<close>

text \<open>Identifiers are read regardless of the case of their first letter.\<close>

definition demo_parse :: "string \<Rightarrow> string option" where
  "demo_parse s = (case s of [] \<Rightarrow> None | c # cs \<Rightarrow> Some ((if c = CHR ''U'' then CHR ''u'' else c) # cs))"

definition demo_rt :: runtime where
  "demo_rt = \<lparr>sha256_hex = (\<lambda>s. s), hmac_sha256_hex = (\<lambda>k m. k @ m), uuid_New = (\<lambda>n. CHR ''u'' # show_nat n),
     rand_hex = (\<lambda>n. ''rand'' @ show_nat n), parse_uuid = demo_parse, jsonb_ok = (\<lambda>_. True),
     json_webhook = (\<lambda>s. Some \<lparr>EventID = s, EventType = ''charge.succeeded'', Data_PSPRef = ''ref'',
        Data_IdempotencyKey = s, Data_Status = ''succeeded'', Data_Code = []\<rparr>),
     payload_text = pl_id, driver_text = (\<lambda>_. ''driver error''), unicode_trim = (\<lambda>s. s), unicode_upper = (\<lambda>s. s)\<rparr>"

text \<open>The number of a call is the answer it will get.\<close>

definition demo_Send :: "HTTPRequest \<Rightarrow> nat \<Rightarrow> nat \<times> nat" where
  "demo_Send req n =
     (if req_CardToken (hr_body req) = ''tok_success'' then (1, Suc n)
      else if req_CardToken (hr_body req) = ''tok_timeout'' then (2, Suc n)
      else (0, n))"

definition demo_Wait :: "nat \<Rightarrow> nat \<Rightarrow> http_outcome \<times> nat" where
  "demo_Wait call n =
     (if call = 1 then HTTPStatus 200 (Some \<lparr>resp_Status = ''succeeded'', resp_PSPRef = ''ref'', resp_Code = []\<rparr>)
      else if call = 2 then NetError NetDeadline
      else HTTPStatus 200 (Some \<lparr>resp_Status = ''failed'', resp_PSPRef = [], resp_Code = ''insufficient_funds''\<rparr>), n)"

definition demo_server :: "nat Server" where
  "demo_server = \<lparr>srv_rt = demo_rt, srv_PSP_BASE_URL = [], srv_PSP_WEBHOOK_SECRET = [],
     srv_transport = \<lparr>url_error = (\<lambda>_. None), http_Send = demo_Send, http_Wait = demo_Wait\<rparr>,
     srv_merchants = \<lparr>mch_new_request_error = (\<lambda>_. None), mch_Do = (\<lambda>req n. (Inr 200, n))\<rparr>,
     srv_email_ok = (\<lambda>_. True)\<rparr>"

definition demo_start :: "nat world" where
  "demo_start = \<lparr>wdb = empty_db, wfates = [], wclock = 0, wticks = [], wuuids = 0, wrands = 0, wpsp = 0\<rparr>"

text \<open>
  A business is created, then its first key, a customer, and an invoice: the identifiers are
  drawn in order.
\<close>

definition demo_setup :: "Request list" where
  "demo_setup =
     [PostBusinesses (Some ''shop''), PostAPIKeys [] ''u0'' None,
      PostCustomers ''Bearer dodo_live_rand1'' (Some (''ann'', ''a@b'')),
      PostInvoices ''Bearer dodo_live_rand1'' (Some (''u2'', ''usd'', 500))]"

definition demo_pay :: "string \<Rightarrow> string \<Rightarrow> Request" where
  "demo_pay tok key = PostPay ''Bearer dodo_live_rand1'' ''u3'' (Some tok) key"

lemma demo_rt_simps [simp]:
  "sha256_hex demo_rt s = s" "hmac_sha256_hex demo_rt k s = k @ s" "uuid_New demo_rt n = CHR ''u'' # show_nat n"
  "rand_hex demo_rt n = ''rand'' @ show_nat n" "parse_uuid demo_rt = demo_parse"
  "jsonb_ok demo_rt s" "payload_text demo_rt p = pl_id p" "driver_text demo_rt e = ''driver error''"
  by (simp_all add: demo_rt_def)

lemma demo_uuid_ok: "uuid_ok demo_rt"
  by (auto simp: uuid_ok_def demo_rt_def demo_parse_def split: list.splits if_splits)

end
