(* ===== verification/Safety.thy ===== *)
theory Safety
  imports Demo
begin

text \<open>
  What holds of the server in every state it can reach from an empty database, whatever the
  interleaving of its handlers, the statements that are lost and the handlers that crash.
\<close>

definition server_state :: "'p Server \<Rightarrow> 'p world pool \<Rightarrow> bool" where
  "server_state V c \<longleftrightarrow> uuid_ok (srv_rt V)
     \<and> (\<exists>w0. wdb w0 = empty_db \<and> pool_reach (Arrives V) Environment ([], w0) c)"

definition server_leads_to :: "'p Server \<Rightarrow> 'p world pool \<Rightarrow> 'p world pool \<Rightarrow> bool" where
  "server_leads_to V c c' \<longleftrightarrow> pool_reach (Arrives V) Environment c c'"

lemma server_state_inv: "server_state V (ps, w) \<Longrightarrow> pay_inv (srv_rt V) (wdb w)"
  by (auto simp: server_state_def intro: reachable_pay_inv)

lemma server_state_evolves:
  "server_state V (ps, w) \<Longrightarrow> server_leads_to V (ps, w) (ps', w') \<Longrightarrow> evolves (wdb w) (wdb w')"
  by (auto simp: server_state_def server_leads_to_def intro: reachable_evolves)

lemma server_state_later: "server_state V c \<Longrightarrow> server_leads_to V c c' \<Longrightarrow> server_state V c'"
  by (auto simp: server_state_def server_leads_to_def intro: pool_reach_trans)

subsection \<open>The demo server\<close>

text \<open>A declined card, then a payment, each a pool execution of the demo server.\<close>

definition demo_declined :: "nat world" where
  "demo_declined = snd (serve demo_server (demo_setup @ [demo_pay ''tok_declined'' ''k1'']) demo_start)"

definition demo_paid :: "nat world" where
  "demo_paid = snd (serve demo_server [demo_pay ''tok_success'' ''k2''] demo_declined)"

abbreviation demo_service :: "nat PaymentService" where
  "demo_service \<equiv> paymentService demo_server"

lemma demo_service_rt [simp]: "svc_rt demo_service = demo_rt" "srv_rt demo_server = demo_rt"
  by (simp_all add: demo_server_def)

lemma demo_reached:
  "\<exists>ps. server_state demo_server (ps, snd (serve demo_server reqs demo_start))"
proof -
  have "wdb demo_start = empty_db" and "uuid_ok (srv_rt demo_server)"
    using demo_uuid_ok by (simp_all add: demo_start_def)
  with serve_reach [of demo_server "[]" demo_start] show ?thesis
    unfolding server_state_def by blast
qed

lemma demo_declined_state: "\<exists>ps. server_state demo_server (ps, demo_declined)"
  unfolding demo_declined_def by (rule demo_reached)

lemma demo_paid_state:
  "server_state demo_server (ps, demo_declined) \<Longrightarrow> \<exists>ps'. server_leads_to demo_server (ps, demo_declined) (ps', demo_paid)"
  unfolding server_leads_to_def demo_paid_def by (rule serve_reach)

lemma demo_paid_server_state: "\<exists>ps. server_state demo_server (ps, demo_paid)"
  using demo_declined_state demo_paid_state server_state_later by blast

definition demo_attempt :: "string \<Rightarrow> PaymentAttemptStatus \<Rightarrow> string option \<Rightarrow> string option \<Rightarrow> PaymentAttempt" where
  "demo_attempt i st ref code = \<lparr>att_ID = i, att_InvoiceID = ''u3'', att_BusinessID = ''u0'', att_Amount = 500,
     att_Currency = ''USD'', att_Status = st, att_PSPTransactionID = ref, att_FailureCode = code,
     att_CreatedAt = 0, att_UpdatedAt = 0\<rparr>"

lemma demo_declined_attempts:
  "payment_attempts (wdb demo_declined) =
     [demo_attempt ''u4'' PaymentAttemptStatusFailed None (Some ''insufficient_funds'')]"
  by code_simp

lemma demo_paid_attempts:
  "payment_attempts (wdb demo_paid) =
     [demo_attempt ''u4'' PaymentAttemptStatusFailed None (Some ''insufficient_funds''),
      demo_attempt ''u7'' PaymentAttemptStatusSucceeded (Some ''ref'') None]"
  by code_simp

definition demo_invoice :: "InvoiceStatus \<Rightarrow> Invoice" where
  "demo_invoice st = \<lparr>inv_ID = ''u3'', inv_BusinessID = ''u0'', inv_CustomerID = ''u2'', inv_Currency = ''USD'',
     inv_Amount = 500, inv_Status = st, inv_CreatedAt = 0, inv_UpdatedAt = 0\<rparr>"

lemma demo_invoices:
  "invoices (wdb demo_declined) = [demo_invoice InvoiceStatusOpen]"
  "invoices (wdb demo_paid) = [demo_invoice InvoiceStatusPaid]"
  by code_simp+

text \<open>A first payment whose outcome the provider does not tell.\<close>

definition demo_unknown :: "nat world" where
  "demo_unknown = snd (serve demo_server (demo_setup @ [demo_pay ''tok_timeout'' ''k1'']) demo_start)"

lemma demo_unknown_attempts:
  "payment_attempts (wdb demo_unknown) = [demo_attempt ''u4'' PaymentAttemptStatusPending None None]"
  by code_simp

definition demo_key :: "string \<Rightarrow> string \<Rightarrow> string \<Rightarrow> string \<Rightarrow> IdempotencyKey" where
  "demo_key i key att tok = \<lparr>ik_ID = i, ik_BusinessID = ''u0'', ik_IdempotencyKey = key, ik_InvoiceID = ''u3'',
     ik_RequestHash = pay_request_text ''u3'' tok, ik_PaymentAttemptID = Some att, ik_CreatedAt = 0\<rparr>"

lemma demo_keys:
  "idempotency_keys (wdb demo_paid) =
     [demo_key ''u5'' ''k1'' ''u4'' ''tok_declined'', demo_key ''u8'' ''k2'' ''u7'' ''tok_success'']"
  "idempotency_keys (wdb demo_unknown) = [demo_key ''u5'' ''k1'' ''u4'' ''tok_timeout'']"
  by code_simp+

lemma demo_serve_inv: "pay_inv demo_rt (wdb (snd (serve demo_server reqs demo_start)))"
  using demo_reached [of reqs] by (auto dest: server_state_inv)

lemma demo_pay_inv:
  "pay_inv demo_rt (wdb demo_paid)" "pay_inv demo_rt (wdb demo_unknown)" "pay_inv demo_rt (wdb demo_declined)"
  "pay_inv demo_rt (wdb (snd (serve demo_server demo_setup demo_start)))"
  using demo_paid_server_state demo_serve_inv
  by (auto simp: demo_unknown_def demo_declined_def simp del: serve.simps dest: server_state_inv)

lemma demo_no_faults:
  "no_faults demo_paid" "no_faults demo_unknown" "no_faults demo_declined"
  by code_simp+

subsection \<open>Payments\<close>

text \<open>
  C3. An invoice is never paid twice: in every reachable state, two attempts for the same
  invoice that have not failed are the same attempt. In particular there is at most one
  successful payment, and none beside a pending one.
\<close>

theorem no_double_payment:
  assumes "server_state V (ps, w)"
    and "a \<in> set (payment_attempts (wdb w))" and "b \<in> set (payment_attempts (wdb w))"
    and "att_InvoiceID a = att_InvoiceID b"
    and "att_Status a \<noteq> PaymentAttemptStatusFailed" and "att_Status b \<noteq> PaymentAttemptStatusFailed"
  shows "a = b"
  using assms pay_invD(3) [OF server_state_inv [OF assms(1)]]
  by (auto simp: single_active_def attempt_failed_def)

theorem no_double_payment_witness:
  "\<exists>b \<in> set (payment_attempts (wdb demo_paid)). att_ID b = ''u7''
     \<and> demo_attempt ''u7'' PaymentAttemptStatusSucceeded (Some ''ref'') None = b"
proof -
  obtain ps where s: "server_state demo_server (ps, demo_paid)" using demo_paid_server_state by blast
  let ?b = "demo_attempt ''u7'' PaymentAttemptStatusSucceeded (Some ''ref'') None"
  have m: "?b \<in> set (payment_attempts (wdb demo_paid))" by (simp add: demo_paid_attempts)
  from no_double_payment [OF s m m] have "?b = ?b" by (simp add: demo_attempt_def)
  with m show ?thesis by (auto simp: demo_attempt_def)
qed

text \<open>
  C4. An invoice is marked paid exactly when it has a successful attempt; that attempt is
  for the invoice's business, amount and currency, and it is the only successful one.
\<close>

theorem paid_iff_succeeded:
  assumes "server_state V (ps, w)" and "v \<in> set (invoices (wdb w))"
  shows "inv_Status v = InvoiceStatusPaid \<longleftrightarrow>
    (\<exists>!a. a \<in> set (payment_attempts (wdb w)) \<and> att_Status a = PaymentAttemptStatusSucceeded
       \<and> att_InvoiceID a = inv_ID v \<and> att_BusinessID a = inv_BusinessID v
       \<and> att_Amount a = inv_Amount v \<and> att_Currency a = inv_Currency v)"
proof -
  note inv = server_state_inv [OF assms(1)]
  note ok = pay_invD(4,9) [OF inv]
  have ref: "att_BusinessID a = inv_BusinessID v \<and> att_Amount a = inv_Amount v \<and> att_Currency a = inv_Currency v"
    if "a \<in> set (payment_attempts (wdb w))" "att_InvoiceID a = inv_ID v" for a
  proof -
    from pay_invD(2) [OF inv] that obtain u where "u \<in> set (invoices (wdb w))" "attempt_of a u"
      by (auto simp: refs_ok_def)
    with that invoice_unique [OF pay_invD(1) [OF inv] _ assms(2), of u] show ?thesis
      by (simp add: attempt_of_def)
  qed
  have paid: "inv_Status v = InvoiceStatusPaid \<longleftrightarrow>
    (\<exists>a \<in> set (payment_attempts (wdb w)). att_InvoiceID a = inv_ID v \<and> attempt_succeeded a)"
    using ok assms(2) by (auto simp: invoices_ok_def statuses_ok_def)
  have uniq: "a = b" if "a \<in> set (payment_attempts (wdb w))" "b \<in> set (payment_attempts (wdb w))"
    "att_InvoiceID a = inv_ID v" "att_InvoiceID b = inv_ID v" "attempt_succeeded a" "attempt_succeeded b" for a b
    using that pay_invD(3) [OF inv] by (auto simp: single_active_def attempt_status_defs)
  show ?thesis
    unfolding paid using uniq ref by (auto simp: attempt_succeeded_def)
qed

theorem paid_iff_succeeded_witness:
  "\<exists>!a. a \<in> set (payment_attempts (wdb demo_paid)) \<and> att_Status a = PaymentAttemptStatusSucceeded
       \<and> att_InvoiceID a = ''u3'' \<and> att_BusinessID a = ''u0'' \<and> att_Amount a = 500 \<and> att_Currency a = ''USD''"
proof -
  obtain ps where s: "server_state demo_server (ps, demo_paid)" using demo_paid_server_state by blast
  from paid_iff_succeeded [OF s, of "demo_invoice InvoiceStatusPaid"] show ?thesis
    by (simp add: demo_invoices demo_invoice_def)
qed

text \<open>
  C6. What has happened stays: between any two states of an execution, a settled attempt is
  kept unchanged, a pending one keeps its identity, invoice, business, amount and currency,
  an idempotency key is kept, and an invoice keeps its data while its status only moves
  forward in its life cycle.
\<close>

theorem history_is_kept:
  assumes "server_state V (ps, w)" and "server_leads_to V (ps, w) (ps', w')"
  shows "(\<forall>a \<in> set (payment_attempts (wdb w)). att_Status a \<noteq> PaymentAttemptStatusPending \<longrightarrow>
            a \<in> set (payment_attempts (wdb w')))
     \<and> (\<forall>a \<in> set (payment_attempts (wdb w)). \<exists>b \<in> set (payment_attempts (wdb w')). same_attempt a b)
     \<and> set (idempotency_keys (wdb w)) \<subseteq> set (idempotency_keys (wdb w'))
     \<and> (\<forall>v \<in> set (invoices (wdb w)). \<exists>u \<in> set (invoices (wdb w')). inv_ID u = inv_ID v
            \<and> inv_BusinessID u = inv_BusinessID v \<and> inv_Amount u = inv_Amount v
            \<and> inv_Currency u = inv_Currency v \<and> inv_Status v \<le> inv_Status u)"
  using server_state_evolves [OF assms]
  by (fastforce simp: evolves_def rows_evolve_def attempt_evolves_def attempt_settled_def invoice_evolves_def)

theorem history_is_kept_witness:
  "demo_attempt ''u4'' PaymentAttemptStatusFailed None (Some ''insufficient_funds'') \<in> set (payment_attempts (wdb demo_paid))"
proof -
  obtain ps where s: "server_state demo_server (ps, demo_declined)" using demo_declined_state by blast
  then obtain ps' where "server_leads_to demo_server (ps, demo_declined) (ps', demo_paid)" using demo_paid_state by blast
  from history_is_kept [OF s this] show ?thesis
    by (simp add: demo_declined_attempts demo_attempt_def)
qed

text \<open>
  C7. Every idempotency key stands for exactly one attempt, of the invoice and the business
  it was used with, no two keys stand for the same attempt, and a business uses a key once:
  so \<open>replayIdempotentPay\<close> always finds the attempt of a key it finds.
\<close>

theorem keys_stand_for_attempts:
  assumes "server_state V (ps, w)" and "k \<in> set (idempotency_keys (wdb w))"
  shows "(\<exists>!a. a \<in> set (payment_attempts (wdb w)) \<and> ik_PaymentAttemptID k = Some (att_ID a))
     \<and> (\<forall>a \<in> set (payment_attempts (wdb w)). ik_PaymentAttemptID k = Some (att_ID a) \<longrightarrow>
           att_InvoiceID a = ik_InvoiceID k \<and> att_BusinessID a = ik_BusinessID k)
     \<and> (\<forall>l \<in> set (idempotency_keys (wdb w)).
           ik_PaymentAttemptID l = ik_PaymentAttemptID k
           \<or> ik_BusinessID l = ik_BusinessID k \<and> ik_IdempotencyKey l = ik_IdempotencyKey k \<longrightarrow> l = k)"
proof -
  note inv = server_state_inv [OF assms(1)]
  note ok = pay_invD(5) [OF inv, unfolded keys_ok_def]
  from ok assms(2) obtain a where a: "a \<in> set (payment_attempts (wdb w))" "key_of k a" by auto
  have u: "b = a" if "b \<in> set (payment_attempts (wdb w))" "ik_PaymentAttemptID k = Some (att_ID b)" for b
    using attempt_unique [OF pay_invD(1) [OF inv] that(1) a(1)] that a(2) by (simp add: key_of_def)
  have "l = k" if "l \<in> set (idempotency_keys (wdb w))" "ik_PaymentAttemptID l = ik_PaymentAttemptID k
           \<or> ik_BusinessID l = ik_BusinessID k \<and> ik_IdempotencyKey l = ik_IdempotencyKey k" for l
    using that(2) ok assms(2) that(1)
      distinct_map_unique [of ik_PaymentAttemptID "idempotency_keys (wdb w)" l k]
      distinct_map_unique [of "\<lambda>k. (ik_BusinessID k, ik_IdempotencyKey k)" "idempotency_keys (wdb w)" l k]
    by auto
  with a u show ?thesis unfolding key_of_def by metis
qed

theorem keys_stand_for_attempts_witness:
  "\<exists>k \<in> set (idempotency_keys (wdb demo_paid)). ik_IdempotencyKey k = ''k2''
     \<and> (\<exists>!a. a \<in> set (payment_attempts (wdb demo_paid)) \<and> ik_PaymentAttemptID k = Some (att_ID a))"
proof -
  obtain ps where s: "server_state demo_server (ps, demo_paid)" using demo_paid_server_state by blast
  have k: "map ik_IdempotencyKey (idempotency_keys (wdb demo_paid)) = [''k1'', ''k2'']" by code_simp
  then have "''k2'' \<in> ik_IdempotencyKey ` set (idempotency_keys (wdb demo_paid))" by (simp flip: set_map)
  then obtain x where x: "x \<in> set (idempotency_keys (wdb demo_paid))" "ik_IdempotencyKey x = ''k2''" by auto
  from keys_stand_for_attempts [OF s x(1)] x show ?thesis by blast
qed

subsection \<open>The outbox\<close>

text \<open>
  C9. The outbox is exact for successes: a successful attempt has one and only one
  \<open>payment.succeeded\<close> event, carrying its data, and every such event belongs to a
  successful attempt.
\<close>

theorem success_events_exact:
  assumes "server_state V (ps, w)"
  shows "(\<forall>a \<in> set (payment_attempts (wdb w)). att_Status a = PaymentAttemptStatusSucceeded \<longrightarrow>
            (\<exists>!e. e \<in> set (outbound_events (wdb w)) \<and> evt_EventType e = EventTypePaymentSucceeded
               \<and> evt_Payload e = outbound_payload a EventTypePaymentSucceeded))
     \<and> (\<forall>e \<in> set (outbound_events (wdb w)). evt_EventType e = EventTypePaymentSucceeded \<longrightarrow>
            (\<exists>a \<in> set (payment_attempts (wdb w)). att_Status a = PaymentAttemptStatusSucceeded
               \<and> evt_Payload e = outbound_payload a EventTypePaymentSucceeded))"
proof (intro conjI ballI impI)
  note inv = pay_invD [OF server_state_inv [OF assms]]
  fix a assume a: "a \<in> set (payment_attempts (wdb w))" "att_Status a = PaymentAttemptStatusSucceeded"
  with inv(8) obtain e where e: "e \<in> set (outbound_events (wdb w))" "event_for a EventTypePaymentSucceeded e"
    by (auto simp: outbox_complete_def attempt_succeeded_def)
  have "x = e" if x: "x \<in> set (outbound_events (wdb w))" "evt_EventType x = EventTypePaymentSucceeded"
      "evt_Payload x = outbound_payload a EventTypePaymentSucceeded" for x
  proof -
    from inv(7) x obtain b where "event_for b EventTypePaymentSucceeded x" by (auto simp: outbox_sound_def)
    with x e(2) have "event_key x = event_key e" by (auto simp: event_for_def event_key_def outbound_payload_def)
    with distinct_map_unique [OF inv(10) [unfolded outbox_distinct_def] x(1) e(1)] show ?thesis by simp
  qed
  with e show "\<exists>!e. e \<in> set (outbound_events (wdb w)) \<and> evt_EventType e = EventTypePaymentSucceeded
      \<and> evt_Payload e = outbound_payload a EventTypePaymentSucceeded"
    by (auto simp: event_for_def)
next
  fix e assume "e \<in> set (outbound_events (wdb w))" "evt_EventType e = EventTypePaymentSucceeded"
  with pay_invD(7) [OF server_state_inv [OF assms]]
  show "\<exists>a \<in> set (payment_attempts (wdb w)). att_Status a = PaymentAttemptStatusSucceeded
      \<and> evt_Payload e = outbound_payload a EventTypePaymentSucceeded"
    by (auto simp: outbox_sound_def event_for_def attempt_succeeded_def)
qed

theorem success_events_exact_witness:
  "\<exists>!e. e \<in> set (outbound_events (wdb demo_paid)) \<and> evt_EventType e = EventTypePaymentSucceeded
      \<and> evt_Payload e = outbound_payload (demo_attempt ''u7'' PaymentAttemptStatusSucceeded (Some ''ref'') None)
          EventTypePaymentSucceeded"
proof -
  obtain ps where s: "server_state demo_server (ps, demo_paid)" using demo_paid_server_state by blast
  have "demo_attempt ''u7'' PaymentAttemptStatusSucceeded (Some ''ref'') None \<in> set (payment_attempts (wdb demo_paid))"
    by (simp add: demo_paid_attempts)
  with success_events_exact [OF s] show ?thesis by (simp add: demo_attempt_def)
qed

text \<open>
  C11. Merchants are never told a falsehood about a failure: a \<open>payment.failed\<close> event
  carries the data of an attempt that has failed, and no attempt has events of both types.
\<close>

theorem failure_events_sound:
  assumes "server_state V (ps, w)" and "e \<in> set (outbound_events (wdb w))"
    and "evt_EventType e = EventTypePaymentFailed"
  shows "\<exists>a \<in> set (payment_attempts (wdb w)). att_Status a = PaymentAttemptStatusFailed
     \<and> evt_Payload e = outbound_payload a EventTypePaymentFailed
     \<and> (\<forall>x \<in> set (outbound_events (wdb w)).
           \<not> (evt_EventType x = EventTypePaymentSucceeded \<and> pl_payment_attempt_id (evt_Payload x) = att_ID a))"
proof -
  note inv = pay_invD [OF server_state_inv [OF assms(1)]]
  from inv(7) assms obtain a where a: "a \<in> set (payment_attempts (wdb w))" "attempt_failed a"
      "event_for a EventTypePaymentFailed e"
    by (auto simp: outbox_sound_def)
  have "False" if x: "x \<in> set (outbound_events (wdb w))" "evt_EventType x = EventTypePaymentSucceeded"
      "pl_payment_attempt_id (evt_Payload x) = att_ID a" for x
  proof -
    from inv(7) x obtain b where b: "b \<in> set (payment_attempts (wdb w))" "attempt_succeeded b"
        "event_for b EventTypePaymentSucceeded x"
      by (auto simp: outbox_sound_def)
    with x attempt_unique [OF inv(1) b(1) a(1)] a(2) show False
      by (simp add: event_for_def outbound_payload_def attempt_status_defs)
  qed
  with a show ?thesis by (auto simp: event_for_def attempt_failed_def)
qed

theorem failure_events_sound_witness:
  "\<exists>a \<in> set (payment_attempts (wdb demo_declined)). att_Status a = PaymentAttemptStatusFailed
     \<and> evt_Payload (hd (outbound_events (wdb demo_declined))) = outbound_payload a EventTypePaymentFailed"
proof -
  obtain ps where s: "server_state demo_server (ps, demo_declined)" using demo_declined_state by blast
  have "length (outbound_events (wdb demo_declined)) = 1" by code_simp
  then have "hd (outbound_events (wdb demo_declined)) \<in> set (outbound_events (wdb demo_declined))"
    by (cases "outbound_events (wdb demo_declined)") auto
  moreover have "evt_EventType (hd (outbound_events (wdb demo_declined))) = EventTypePaymentFailed" by code_simp
  ultimately show ?thesis using failure_events_sound [OF s] by blast
qed

text \<open>
  C17. A response tells the truth: whatever other handlers do between the steps of
  \<open>PayInvoice\<close>, and whichever statements are lost, each of its steps keeps the invariant and
  the history, and an attempt it returns is a row of the table, with the status it reports
  or a later one, from then on.
\<close>

theorem PayInvoice_answers_truly:
  assumes "uuid_ok (svc_rt S)" and "pay_inv (svc_rt S) (wdb w)"
  shows "guar (\<lambda>w. pay_inv (svc_rt S) (wdb w)) (\<lambda>w w'. evolves (wdb w) (wdb w'))
     (\<lambda>r w. \<forall>a. r = Inr a \<longrightarrow> (\<exists>b \<in> set (payment_attempts (wdb w)).
         same_attempt a b \<and> att_Status a \<le> att_Status b))
     (PayInvoice S businessID invoiceID idempotencyKey cardToken) w"
proof -
  have "guar (pay_I (svc_rt S)) pay_R (\<lambda>r w. \<forall>a. r = Inr a \<longrightarrow> known a (wdb w))
      (PayInvoice S businessID invoiceID idempotencyKey cardToken) w"
    by (rule payment.guar_mono [OF keeps_PayInvoice [OF assms(1), unfolded keeps_def]])
      (use assms(2) in \<open>auto simp: pay_I_def\<close>)
  then show ?thesis by (simp add: pay_I_def [abs_def] pay_R_def [abs_def] known_def)
qed

theorem PayInvoice_answers_truly_witness:
  "guar (\<lambda>w. pay_inv demo_rt (wdb w)) (\<lambda>w w'. evolves (wdb w) (wdb w'))
     (\<lambda>r w. \<forall>a. r = Inr a \<longrightarrow> (\<exists>b \<in> set (payment_attempts (wdb w)).
         same_attempt a b \<and> att_Status a \<le> att_Status b))
     (PayInvoice (paymentService demo_server) ''u0'' ''u3'' ''k3'' ''tok_success'') demo_declined"
proof -
  note rt = demo_service_rt(1)
  have u: "uuid_ok (svc_rt (paymentService demo_server))" using demo_uuid_ok by (simp only: rt)
  have p: "pay_inv (svc_rt (paymentService demo_server)) (wdb demo_declined)"
    using demo_pay_inv(3) by simp
  show ?thesis by (rule PayInvoice_answers_truly [OF u p, unfolded rt])
qed

end
