(* ===== verification/Payment_Replay.thy ===== *)
theory Payment_Replay
  imports Safety
begin

text \<open>
  The idempotency of \<open>PayInvoice\<close> and the requests it refuses: for a server whose
  statements arrive, each outcome that must have no effect leaves the whole world as it
  was, the provider's state included.
\<close>

subsection \<open>Queries that find their row\<close>

lemma exec_read_ok: "no_faults w \<Longrightarrow> q (wclock w) (wdb w) = Inr (a, wdb w) \<Longrightarrow> exec_stmt q w = (Inr a, w)"
  by (simp add: exec)

lemma exec_fail_ok: "no_faults w \<Longrightarrow> q (wclock w) (wdb w) = Inl e \<Longrightarrow> exec_stmt q w = (Inl (DBError e), w)"
  by (simp add: exec)

lemma attempt_get_ok:
  assumes "pay_inv rt (wdb w)" and "no_faults w" and "a \<in> set (payment_attempts (wdb w))"
  shows "exec_stmt (PaymentAttemptRepository_GetByID rt (att_ID a)) w = (Inr a, w)"
  using assms by (intro exec_read_ok) (auto simp: pay_inv_def ids_ok_def payment_reads exec rows)

lemma invoice_get_ok:
  assumes "pay_inv rt (wdb w)" and "no_faults w" and "v \<in> set (invoices (wdb w))"
    and "parse_uuid rt i = Some (inv_ID v)"
  shows "exec_stmt (InvoiceRepository_GetByIDForUpdate rt i) w = (Inr v, w)"
  using assms by (intro exec_read_ok) (auto simp: pay_inv_def ids_ok_def payment_reads exec rows)

lemma key_get_ok:
  assumes "pay_inv rt (wdb w)" and "no_faults w" and k: "k \<in> set (idempotency_keys (wdb w))"
    and b: "parse_uuid rt b = Some (ik_BusinessID k)"
  shows "exec_stmt (IdempotencyRepository_GetByKey rt b (ik_IdempotencyKey k)) w = (Inr k, w)"
proof (rule exec_read_ok [OF assms(2)])
  have "distinct (map (\<lambda>k. (ik_BusinessID k, ik_IdempotencyKey k)) (idempotency_keys (wdb w)))"
    using pay_invD(5) [OF assms(1)] by (simp add: keys_ok_def)
  from find_key [OF this k] show "IdempotencyRepository_GetByKey rt b (ik_IdempotencyKey k) (wclock w) (wdb w)
      = Inr (k, wdb w)"
    by (simp add: payment_reads exec b)
qed

definition key_unused :: "string \<Rightarrow> string \<Rightarrow> db \<Rightarrow> bool" where
  "key_unused b key d \<longleftrightarrow>
     (\<forall>k \<in> set (idempotency_keys d). \<not> (ik_BusinessID k = b \<and> ik_IdempotencyKey k = key))"

lemma key_get_none:
  assumes "no_faults w" and "parse_uuid rt b = Some b" and "key_unused b key (wdb w)"
  shows "exec_stmt (IdempotencyRepository_GetByKey rt b key) w = (Inl (DBError NoRows), w)"
proof (rule exec_fail_ok [OF assms(1)])
  have "find (\<lambda>r. ik_BusinessID r = b \<and> ik_IdempotencyKey r = key) (idempotency_keys (wdb w)) = None"
    using assms(3) by (simp add: find_None_iff key_unused_def)
  then show "IdempotencyRepository_GetByKey rt b key (wclock w) (wdb w) = Inl NoRows"
    by (simp add: payment_reads exec assms(2))
qed

text \<open>The spelling of a stored key's business is the database's.\<close>

lemma key_business_canonical:
  assumes "pay_inv rt d" and "k \<in> set (idempotency_keys d)"
  shows "parse_uuid rt (ik_BusinessID k) = Some (ik_BusinessID k)"
proof -
  from pay_invD(5) [OF assms(1)] assms(2) obtain a where a: "a \<in> set (payment_attempts d)" "key_of k a"
    by (auto simp: keys_ok_def)
  with pay_invD(2) [OF assms(1)] obtain v where "v \<in> set (invoices d)" "attempt_of a v"
    by (auto simp: refs_ok_def)
  with a pay_invD(1) [OF assms(1)] show ?thesis by (auto simp: ids_ok_def attempt_of_def key_of_def)
qed

text \<open>The business's key and the request it was used for.\<close>

definition used_key :: "runtime \<Rightarrow> IdempotencyKey \<Rightarrow> string \<Rightarrow> string \<Rightarrow> string \<Rightarrow> string \<Rightarrow> db \<Rightarrow> bool" where
  "used_key rt k b key i tok d \<longleftrightarrow> k \<in> set (idempotency_keys d) \<and> ik_BusinessID k = b \<and> ik_IdempotencyKey k = key
     \<and> ik_InvoiceID k = i \<and> ik_RequestHash k = hashPayRequest rt i tok"

lemma PayInvoice_used_key:
  assumes "pay_inv (svc_rt S) (wdb w)" and "no_faults w" and "k \<in> set (idempotency_keys (wdb w))"
    and "ik_BusinessID k = b" and "ik_IdempotencyKey k = key"
  shows "run (PayInvoice S b i key tok) w =
    run (replayIdempotentPay S k i tok (hashPayRequest (svc_rt S) i tok)) w"
proof -
  have "exec_stmt (IdempotencyRepository_GetByKey (svc_rt S) b key) w = (Inr k, w)"
    using key_get_ok [OF assms(1-3) key_business_canonical [OF assms(1,3)]] assms(4,5) by simp
  then show ?thesis by (simp add: PayInvoice_def Let_def)
qed

subsection \<open>Replays\<close>

text \<open>
  C19. A retry is answered from the store: when the key was used for the same request and its
  attempt has settled, \<open>PayInvoice\<close> returns that attempt and nothing at all changes; in
  particular the provider is not asked again.
\<close>

theorem replay_returns_stored_attempt:
  assumes "pay_inv (svc_rt S) (wdb w)" and "no_faults w"
    and "used_key (svc_rt S) k businessID key invoiceID cardToken (wdb w)"
    and "a \<in> set (payment_attempts (wdb w))" and "ik_PaymentAttemptID k = Some (att_ID a)"
    and "att_Status a \<noteq> PaymentAttemptStatusPending"
  shows "run (PayInvoice S businessID invoiceID key cardToken) w = (Inr a, w)"
  using assms attempt_get_ok [OF assms(1,2,4)]
  by (simp add: PayInvoice_used_key [where k = k] used_key_def replayIdempotentPay_def)

theorem replay_returns_stored_attempt_witness:
  "run (PayInvoice demo_service ''u0'' ''u3'' ''k2'' ''tok_success'') demo_paid
     = (Inr (demo_attempt ''u7'' PaymentAttemptStatusSucceeded (Some ''ref'') None), demo_paid)"
  by (rule replay_returns_stored_attempt [where k = "demo_key ''u8'' ''k2'' ''u7'' ''tok_success''"])
    (simp_all add: demo_pay_inv demo_no_faults used_key_def demo_keys demo_paid_attempts demo_key_def demo_attempt_def
      hashPayRequest_def)

text \<open>
  C23. A key cannot be reused: when the business used it for another invoice, or for a request
  with another fingerprint, \<open>PayInvoice\<close> fails with \<open>ErrIdempotencyConflict\<close> and nothing
  changes.
\<close>

theorem key_reuse_conflicts:
  assumes "pay_inv (svc_rt S) (wdb w)" and "no_faults w" and "k \<in> set (idempotency_keys (wdb w))"
    and "ik_BusinessID k = businessID" and "ik_IdempotencyKey k = key"
    and "ik_InvoiceID k \<noteq> invoiceID \<or> ik_RequestHash k \<noteq> hashPayRequest (svc_rt S) invoiceID cardToken"
  shows "run (PayInvoice S businessID invoiceID key cardToken) w = (Inl ErrIdempotencyConflict, w)"
  using assms by (auto simp: PayInvoice_used_key [where k = k] replayIdempotentPay_def)

theorem key_reuse_conflicts_witness:
  "run (PayInvoice demo_service ''u0'' ''u3'' ''k2'' ''tok_other'') demo_paid = (Inl ErrIdempotencyConflict, demo_paid)"
  by (rule key_reuse_conflicts [where k = "demo_key ''u8'' ''k2'' ''u7'' ''tok_success''"])
    (simp_all add: demo_pay_inv demo_no_faults demo_keys demo_key_def hashPayRequest_def pay_request_text_def)

subsection \<open>Refusals\<close>

text \<open>What \<open>createPendingAttempt\<close> checks of the invoice, as a function of the tables.\<close>

definition pay_refusal :: "runtime \<Rightarrow> string \<Rightarrow> string \<Rightarrow> db \<Rightarrow> goerr option" where
  "pay_refusal rt b i d =
     (case parse_uuid rt i of None \<Rightarrow> Some ErrInvoiceNotFound
      | Some c \<Rightarrow>
        (case find (\<lambda>v. inv_ID v = c) (invoices d) of
           None \<Rightarrow> Some ErrInvoiceNotFound
         | Some v \<Rightarrow> if inv_BusinessID v \<noteq> b then Some ErrInvoiceNotOwned
                      else payableInvoice (inv_Status v)))"

lemma world_db_same [simp]: "w\<lparr>wdb := wdb w\<rparr> = (w :: 'p world)"
  by simp

lemma createPendingAttempt_refuses:
  assumes "no_faults w" and "pay_refusal rt b i (wdb w) = Some e"
  shows "createPendingAttempt_body rt b i key h w = (Inl e, w)"
  using assms
  by (auto simp: createPendingAttempt_body_def act_try_def act_fail_def pay_refusal_def exec_stmt_ok payment_reads
      with_uuid_def split: option.splits if_splits)

lemma pay_refusal_known:
  assumes "pay_refusal rt b i d = Some e"
  shows "e \<in> set pay_errors \<or> e = ErrInvoiceUncollectible"
  using assms by (auto simp: pay_refusal_def pay_errors_def payableInvoice_def
      split: option.splits if_splits InvoiceStatus.splits)

lemma refusal_blocks:
  assumes "no_faults w" and "parse_uuid (svc_rt S) businessID = Some businessID"
    and "key_unused businessID key (wdb w)" and "pay_refusal (svc_rt S) businessID invoiceID (wdb w) = Some e"
  shows "run (PayInvoice S businessID invoiceID key cardToken) w = (Inl e, w)"
proof -
  have "createPendingAttempt_body (svc_rt S) businessID invoiceID key h w = (Inl e, w)" for h
    by (rule createPendingAttempt_refuses [OF assms(1,4)])
  then have c: "transaction (createPendingAttempt_body (svc_rt S) businessID invoiceID key h) w = (Inl e, w)" for h
    using assms(1) by (simp add: transaction_ok)
  from pay_refusal_known [OF assms(4)] have "e \<in> set pay_errors \<or> \<not> isUniqueViolation e"
    by (auto simp: isUniqueViolation_def)
  then show ?thesis
    by (auto simp: PayInvoice_def Let_def key_get_none [OF assms(1-3)] createPendingAttempt_def c)
qed



end
