(* ===== verification/Payment_Charge.thy ===== *)
theory Payment_Charge
  imports Payment_Replay
begin

text \<open>
  The first use of a key, on a server whose statements arrive: the attempt is created and
  the provider is asked once, with the invoice's amount and the attempt's identifier; its
  answer decides how the attempt, the invoice and the outbox end up.
\<close>

subsection \<open>Creating the attempt\<close>

definition ids_fresh :: "runtime \<Rightarrow> 'p world \<Rightarrow> bool" where
  "ids_fresh rt w \<longleftrightarrow> uuid_ok rt \<and> (\<forall>n \<ge> wuuids w.
     uuid_New rt n \<notin> att_ID ` set (payment_attempts (wdb w)) \<union> ik_ID ` set (idempotency_keys (wdb w))
       \<union> evt_ID ` set (outbound_events (wdb w)))"

text \<open>The business's own unpaid invoice, with no payment under way.\<close>

definition own_unpaid :: "runtime \<Rightarrow> string \<Rightarrow> string \<Rightarrow> Invoice \<Rightarrow> db \<Rightarrow> bool" where
  "own_unpaid rt b i v d \<longleftrightarrow> v \<in> set (invoices d) \<and> parse_uuid rt i = Some (inv_ID v) \<and> inv_BusinessID v = b
     \<and> unpaid_status (inv_Status v) \<and> 0 < inv_Amount v \<and> business_exists b d"

definition payable :: "runtime \<Rightarrow> string \<Rightarrow> string \<Rightarrow> Invoice \<Rightarrow> db \<Rightarrow> bool" where
  "payable rt b i v d \<longleftrightarrow> own_unpaid rt b i v d
     \<and> (\<forall>a \<in> set (payment_attempts d). att_InvoiceID a = inv_ID v \<longrightarrow> \<not> attempt_pending a)"

definition opened :: "Invoice \<Rightarrow> 'p world \<Rightarrow> 'p world" where
  "opened v w = w\<lparr>wdb := (wdb w)\<lparr>invoices := open_invoice v (wclock w) (wdb w)\<rparr>\<rparr>"

lemma opened_fields [simp]:
  "wfates (opened v w) = wfates w" "wclock (opened v w) = wclock w" "wuuids (opened v w) = wuuids w"
  "wpsp (opened v w) = wpsp w" "wticks (opened v w) = wticks w" "wrands (opened v w) = wrands w"
  "payment_attempts (wdb (opened v w)) = payment_attempts (wdb w)"
  "idempotency_keys (wdb (opened v w)) = idempotency_keys (wdb w)"
  "outbound_events (wdb (opened v w)) = outbound_events (wdb w)"
  "businesses (wdb (opened v w)) = businesses (wdb w)"
  "invoices (wdb (opened v w)) = open_invoice v (wclock w) (wdb w)"
  by (simp_all add: opened_def)

lemma invoice_exists_ids: "invoice_exists i d \<longleftrightarrow> i \<in> set (map inv_ID (invoices d))"
  by (auto simp: invoice_exists_def list_ex_iff)

lemma exists_opened [simp]:
  "business_exists b (wdb (opened v w)) = business_exists b (wdb w)"
  "invoice_exists i (wdb (opened v w)) = invoice_exists i (wdb w)"
proof -
  show "business_exists b (wdb (opened v w)) = business_exists b (wdb w)"
    by (simp add: business_exists_def)
  show "invoice_exists i (wdb (opened v w)) = invoice_exists i (wdb w)"
    by (simp only: invoice_exists_ids opened_fields map_ID_open_invoice)
qed

lemma open_step_ok:
  assumes "no_faults w" and "parse_uuid rt (inv_ID v) = Some (inv_ID v)"
  shows "(if inv_Status v = InvoiceStatusDraft
      then exec_stmt (InvoiceRepository_UpdateStatus rt (inv_ID v) InvoiceStatusOpen)
      else act_ret ()) w = (Inr (), opened v w)"
  using assms
  by (simp add: exec_stmt_ok payment_writes exec invoice_status_valid_def opened_def open_invoice_def act_ret_def)

text \<open>The rows \<open>createPendingAttempt\<close> inserts.\<close>

definition new_attempt :: "runtime \<Rightarrow> Invoice \<Rightarrow> 'p world \<Rightarrow> PaymentAttempt" where
  "new_attempt rt v w =
     \<lparr>att_ID = uuid_New rt (wuuids w), att_InvoiceID = inv_ID v, att_BusinessID = inv_BusinessID v,
      att_Amount = inv_Amount v, att_Currency = inv_Currency v, att_Status = PaymentAttemptStatusPending,
      att_PSPTransactionID = None, att_FailureCode = None, att_CreatedAt = wclock w, att_UpdatedAt = wclock w\<rparr>"

lemma key_Create_ok:
  assumes "no_faults w" and "parse_uuid rt (ik_ID k) = Some (ik_ID k)"
    and "parse_uuid rt (ik_BusinessID k) = Some (ik_BusinessID k)"
    and "parse_uuid rt (ik_InvoiceID k) = Some (ik_InvoiceID k)"
    and "ik_PaymentAttemptID k = Some x" and "parse_uuid rt x = Some x"
    and "ik_ID k \<notin> ik_ID ` set (idempotency_keys (wdb w))"
    and "key_unused (ik_BusinessID k) (ik_IdempotencyKey k) (wdb w)"
    and "business_exists (ik_BusinessID k) (wdb w)" and "invoice_exists (ik_InvoiceID k) (wdb w)"
  shows "exec_stmt (IdempotencyRepository_Create rt k) w =
    (Inr (k\<lparr>ik_CreatedAt := wclock w\<rparr>), w\<lparr>wdb := (wdb w)\<lparr>idempotency_keys := idempotency_keys (wdb w) @
        [k\<lparr>ik_CreatedAt := wclock w\<rparr>]\<rparr>\<rparr>)"
proof -
  have "\<not> list_ex (\<lambda>r. ik_ID r = ik_ID k) (idempotency_keys (wdb w))"
    using assms(7) by (simp add: list_ex_iff image_iff) metis
  moreover have "\<not> list_ex (\<lambda>r. ik_BusinessID r = ik_BusinessID k \<and> ik_IdempotencyKey r = ik_IdempotencyKey k)
        (idempotency_keys (wdb w))"
    using assms(8) by (auto simp: list_ex_iff key_unused_def)
  ultimately show ?thesis using assms
    by (cases k) (simp add: exec_stmt_ok IdempotencyRepository_Create_def with_uuid_opt_def with_uuid_Some)
qed

lemma attempt_Create_ok:
  assumes "no_faults w" and "parse_uuid rt (att_ID a) = Some (att_ID a)"
    and "parse_uuid rt (att_InvoiceID a) = Some (att_InvoiceID a)"
    and "parse_uuid rt (att_BusinessID a) = Some (att_BusinessID a)"
    and "0 < att_Amount a" and "att_PSPTransactionID a = None" and "att_FailureCode a = None"
    and "att_ID a \<notin> att_ID ` set (payment_attempts (wdb w))"
    and "\<forall>r \<in> set (payment_attempts (wdb w)). att_InvoiceID r = att_InvoiceID a \<longrightarrow> \<not> attempt_pending r"
    and "invoice_exists (att_InvoiceID a) (wdb w)" and "business_exists (att_BusinessID a) (wdb w)"
  shows "exec_stmt (PaymentAttemptRepository_Create rt a) w =
    (Inr (a\<lparr>att_CreatedAt := wclock w, att_UpdatedAt := wclock w\<rparr>),
     w\<lparr>wdb := (wdb w)\<lparr>payment_attempts := payment_attempts (wdb w) @
        [a\<lparr>att_CreatedAt := wclock w, att_UpdatedAt := wclock w\<rparr>]\<rparr>\<rparr>)"
proof -
  have "\<not> list_ex (\<lambda>r. att_ID r = att_ID a) (payment_attempts (wdb w))"
    using assms(8) by (simp add: list_ex_iff image_iff) metis
  moreover have "\<not> list_ex (\<lambda>r. att_InvoiceID r = att_InvoiceID a \<and> attempt_pending r) (payment_attempts (wdb w))"
    using assms(9) by (auto simp: list_ex_iff)
  ultimately show ?thesis using assms
    by (cases a) (simp add: exec_stmt_ok PaymentAttemptRepository_Create_def with_uuid_Some)
qed

lemma pending_get_none:
  assumes "no_faults w" and "parse_uuid rt i = Some i"
    and "\<forall>r \<in> set (payment_attempts (wdb w)). att_InvoiceID r = i \<longrightarrow> \<not> attempt_pending r"
  shows "exec_stmt (PaymentAttemptRepository_GetPendingByInvoiceID rt i) w = (Inl (DBError NoRows), w)"
proof (rule exec_fail_ok [OF assms(1)])
  have "find (\<lambda>r. att_InvoiceID r = i \<and> attempt_pending r) (payment_attempts (wdb w)) = None"
    using assms(3) by (auto simp: find_None_iff)
  then show "PaymentAttemptRepository_GetPendingByInvoiceID rt i (wclock w) (wdb w) = Inl NoRows"
    by (simp add: payment_reads with_uuid_Some assms(2))
qed

text \<open>The state in which the key is stored, and the rest of the transaction from there.\<close>

definition key_row :: "runtime \<Rightarrow> Invoice \<Rightarrow> string \<Rightarrow> string \<Rightarrow> 'p world \<Rightarrow> IdempotencyKey" where
  "key_row rt v key h w = \<lparr>ik_ID = uuid_New rt (Suc (wuuids w)), ik_BusinessID = inv_BusinessID v,
     ik_IdempotencyKey = key, ik_InvoiceID = inv_ID v, ik_RequestHash = h,
     ik_PaymentAttemptID = Some (uuid_New rt (wuuids w)), ik_CreatedAt = wclock w\<rparr>"

definition keyed :: "runtime \<Rightarrow> Invoice \<Rightarrow> string \<Rightarrow> string \<Rightarrow> 'p world \<Rightarrow> 'p world" where
  "keyed rt v key h w = (opened v w)\<lparr>wuuids := Suc (Suc (wuuids w)),
     wdb := (wdb (opened v w))\<lparr>idempotency_keys := idempotency_keys (wdb w) @ [key_row rt v key h w]\<rparr>\<rparr>"

definition create_rest :: "runtime \<Rightarrow> Invoice \<Rightarrow> string \<Rightarrow> ('p, PaymentAttempt result) act" where
  "create_rest rt v attemptID =
     act_try (exec_stmt (PaymentAttemptRepository_GetPendingByInvoiceID rt (inv_ID v))) (\<lambda>pending.
       case pending of
         Inr _ \<Rightarrow> act_fail ErrPaymentInProgress
       | Inl pendingErr \<Rightarrow>
           if pendingErr \<noteq> DBError NoRows then act_fail pendingErr
           else act_try (exec_stmt (PaymentAttemptRepository_Create rt
             \<lparr>att_ID = attemptID, att_InvoiceID = inv_ID v, att_BusinessID = inv_BusinessID v,
              att_Amount = inv_Amount v, att_Currency = inv_Currency v,
              att_Status = PaymentAttemptStatusPending, att_PSPTransactionID = None,
              att_FailureCode = None, att_CreatedAt = time_zero, att_UpdatedAt = time_zero\<rparr>)) (\<lambda>created.
           case created of
             Inl e \<Rightarrow> act_fail (if isUniqueViolation e then ErrPaymentInProgress else e)
           | Inr attempt \<Rightarrow> act_ret attempt))"

lemma own_unpaid_canonical:
  assumes "pay_inv rt d" and "own_unpaid rt b i v d"
  shows "parse_uuid rt (inv_ID v) = Some (inv_ID v)" and "parse_uuid rt b = Some b" and "invoice_exists (inv_ID v) d"
  using assms by (auto simp: own_unpaid_def pay_inv_def ids_ok_def invoice_exists_def list_ex_iff)

lemma keyed_fields [simp]:
  "wfates (keyed rt v key h w) = wfates w" "wclock (keyed rt v key h w) = wclock w" "wpsp (keyed rt v key h w) = wpsp w"
  "wticks (keyed rt v key h w) = wticks w" "wuuids (keyed rt v key h w) = Suc (Suc (wuuids w))"
  "payment_attempts (wdb (keyed rt v key h w)) = payment_attempts (wdb w)"
  "business_exists b (wdb (keyed rt v key h w)) = business_exists b (wdb w)"
  "businesses (wdb (keyed rt v key h w)) = businesses (wdb w)"
  by (simp_all add: keyed_def business_exists_def)

lemma invoice_exists_keyed [simp]: "invoice_exists i (wdb (keyed rt v key h w)) = invoice_exists i (wdb w)"
proof -
  have "invoices (wdb (keyed rt v key h w)) = open_invoice v (wclock w) (wdb w)" by (simp add: keyed_def)
  then show ?thesis by (simp only: invoice_exists_ids map_ID_open_invoice)
qed

lemma create_until_key:
  assumes inv: "pay_inv rt (wdb w)" and nf: "no_faults w" and fresh: "ids_fresh rt w"
    and p: "own_unpaid rt b i v (wdb w)" and key: "key_unused b key (wdb w)"
  shows "createPendingAttempt_body rt b i key h w = create_rest rt v (uuid_New rt (wuuids w)) (keyed rt v key h w)"
proof -
  from p have v: "v \<in> set (invoices (wdb w))" and pi: "parse_uuid rt i = Some (inv_ID v)" and b: "inv_BusinessID v = b"
    and s: "unpaid_status (inv_Status v)" and be: "business_exists b (wdb w)"
    by (auto simp: own_unpaid_def)
  note can = own_unpaid_canonical [OF inv p]
  have cu: "parse_uuid rt (uuid_New rt n) = Some (uuid_New rt n)" for n
    using fresh by (auto simp: ids_fresh_def uuid_okD)
  have new: "uuid_New rt (Suc (wuuids w)) \<notin> ik_ID ` set (idempotency_keys (wdb w))"
    using fresh unfolding ids_fresh_def by (meson UnCI le_refl le_SucI)
  have pay: "payableInvoice (inv_Status v) = None" using s by (simp add: payable_unpaid)
  obtain u where u: "u = (opened v w)\<lparr>wuuids := Suc (Suc (wuuids w))\<rparr>" by simp
  let ?k = "(key_row rt v key h w)\<lparr>ik_CreatedAt := time_zero\<rparr>"
  have wk: "keyed rt v key h w = u\<lparr>wdb := (wdb u)\<lparr>idempotency_keys := idempotency_keys (wdb u) @
      [?k\<lparr>ik_CreatedAt := wclock u\<rparr>]\<rparr>\<rparr>" by (simp add: keyed_def u key_row_def)
  have ids: "uuid_Next rt (opened v w) = (uuid_New rt (wuuids w), (opened v w)\<lparr>wuuids := Suc (wuuids w)\<rparr>)"
    "uuid_Next rt ((opened v w)\<lparr>wuuids := Suc (wuuids w)\<rparr>) = (uuid_New rt (Suc (wuuids w)), u)"
    by (simp_all add: uuid_Next_def u)
  have k: "exec_stmt (IdempotencyRepository_Create rt ?k) u = (Inr (?k\<lparr>ik_CreatedAt := wclock u\<rparr>), keyed rt v key h w)"
    unfolding wk by (rule key_Create_ok [where x = "uuid_New rt (wuuids w)"])
      (use be can new key b in \<open>simp_all add: nf cu key_unused_def u key_row_def\<close>)
  then show ?thesis
    by (simp add: createPendingAttempt_body_def create_rest_def act_try_def act_bind_def key_row_def
        invoice_get_ok [OF inv nf v pi] open_step_ok [OF nf can(1)] ids pay flip: b)
qed

lemma create_succeeds:
  fixes w :: "'p world"
  assumes inv: "pay_inv rt (wdb w)" and nf: "no_faults w" and fresh: "ids_fresh rt w"
    and p: "payable rt b i v (wdb w)" and key: "key_unused b key (wdb w)"
  obtains w' where "transaction (createPendingAttempt_body rt b i key h) w = (Inr (new_attempt rt v w), w')"
    and "creates rt b i key h (wclock w) (new_attempt rt v w) (wdb w) (wdb w')"
    and "no_faults w'" and "wpsp w' = wpsp w" and "wclock w' = wclock w" and "wticks w' = wticks w"
    and "wuuids w' = Suc (Suc (wuuids w))" and "businesses (wdb w') = businesses (wdb w)"
proof -
  from p have own: "own_unpaid rt b i v (wdb w)" and b: "inv_BusinessID v = b"
    and am: "0 < inv_Amount v" and be: "business_exists b (wdb w)"
    and np: "\<forall>a \<in> set (payment_attempts (wdb w)). att_InvoiceID a = inv_ID v \<longrightarrow> \<not> attempt_pending a"
    by (auto simp: payable_def own_unpaid_def)
  note can = own_unpaid_canonical [OF inv own]
  have rt: "uuid_ok rt" using fresh by (simp add: ids_fresh_def)
  have new: "uuid_New rt (wuuids w) \<notin> att_ID ` set (payment_attempts (wdb w))"
    using fresh unfolding ids_fresh_def by (meson UnCI le_refl)
  let ?a = "(new_attempt rt v w)\<lparr>att_CreatedAt := time_zero, att_UpdatedAt := time_zero\<rparr>"
  obtain wk where wk: "wk = keyed rt v key h w" by simp
  obtain wf where wf: "wf = wk\<lparr>wdb := (wdb wk)\<lparr>payment_attempts := payment_attempts (wdb wk) @
      [?a\<lparr>att_CreatedAt := wclock wk, att_UpdatedAt := wclock wk\<rparr>]\<rparr>\<rparr>" by simp
  have pd: "exec_stmt (PaymentAttemptRepository_GetPendingByInvoiceID rt (inv_ID v)) wk = (Inl (DBError NoRows), wk)"
    by (rule pending_get_none) (use np can in \<open>simp_all add: nf wk\<close>)
  have a: "exec_stmt (PaymentAttemptRepository_Create rt ?a) wk =
      (Inr (?a\<lparr>att_CreatedAt := wclock wk, att_UpdatedAt := wclock wk\<rparr>), wf)"
    unfolding wf by (rule attempt_Create_ok)
      (use be can new np in \<open>simp_all add: nf uuid_okD(2) [OF rt] am wk new_attempt_def b\<close>)
  have body: "createPendingAttempt_body rt b i key h w = (Inr (new_attempt rt v w), wf)"
    using a by (simp add: create_until_key [OF inv nf fresh own key] create_rest_def act_try_def pd act_ret_def
        new_attempt_def flip: wk) (simp add: wk)
  have tr: "transaction (createPendingAttempt_body rt b i key h) w = (Inr (new_attempt rt v w), wf)"
    by (simp add: transaction_ok nf body next_fate_ok wf wk)
  show thesis
    by (rule that [OF tr createPendingAttempt_creates [OF inv rt body]]) (simp_all add: nf wf wk)
qed

subsection \<open>Settling the attempt\<close>

lemma time_Now_ok: "\<exists>t w'. time_Now w = (t, w') \<and> wfates w' = wfates w \<and> wpsp w' = wpsp w \<and> wdb w' = wdb w
    \<and> wuuids w' = wuuids w"
  by (auto simp: time_Now_def split: list.splits)

lemma enqueue_ok:
  assumes "no_faults w" and "uuid_ok rt" and "uuid_New rt (wuuids w) \<notin> evt_ID ` set (outbound_events (wdb w))"
    and "parse_uuid rt (att_BusinessID a) = Some (att_BusinessID a)" and "business_exists (att_BusinessID a) (wdb w)"
  obtains w' where "enqueueOutboundEvent rt a ty w = (Inr (), w')" and "no_faults w'" and "wpsp w' = wpsp w"
proof -
  obtain t w1 where t: "time_Now (w\<lparr>wuuids := Suc (wuuids w)\<rparr>) = (t, w1)" and
    w1: "wfates w1 = []" "wpsp w1 = wpsp w" "wdb w1 = wdb w"
    using time_Now_ok [of "w\<lparr>wuuids := Suc (wuuids w)\<rparr>"] assms(1) by auto
  have n: "\<not> list_ex (\<lambda>r. evt_ID r = uuid_New rt (wuuids w)) (outbound_events (wdb w))"
    using assms(3) by (simp add: list_ex_iff image_iff) metis
  let ?e = "\<lparr>evt_ID = uuid_New rt (wuuids w), evt_BusinessID = att_BusinessID a,
      evt_SourceID = source_id (att_ID a) ty, evt_EventType = ty, evt_Payload = outbound_payload a ty,
      evt_Status = OutboundEventStatusPending, evt_AttemptCount = 0, evt_NextRetryAt = t, evt_LastError = None,
      evt_CreatedAt = time_zero, evt_DeliveredAt = None\<rparr>"
  have "\<exists>d. OutboundEventRepository_Create rt ?e (wclock w1) (wdb w1) = Inr ((), d)"
    using n assms(2,4,5) w1 by (auto simp: OutboundEventRepository_Create_def with_uuid_Some uuid_okD)
  then obtain d where d: "OutboundEventRepository_Create rt ?e (wclock w1) (wdb w1) = Inr ((), d)" by blast
  have "enqueueOutboundEvent rt a ty w = (Inr (), w1\<lparr>wdb := d\<rparr>)"
    by (simp add: enqueueOutboundEvent_def act_try_def uuid_Next_def t exec_stmt_ok w1(1) d)
  then show thesis by (rule that) (simp_all add: w1)
qed

text \<open>What settling needs of the world, beyond the invariant: nothing is lost, the event's identifier is new.\<close>

definition can_settle :: "runtime \<Rightarrow> PaymentAttempt \<Rightarrow> 'p world \<Rightarrow> bool" where
  "can_settle rt a w \<longleftrightarrow> pay_inv rt (wdb w) \<and> no_faults w \<and> uuid_ok rt
     \<and> a \<in> set (payment_attempts (wdb w)) \<and> attempt_pending a
     \<and> uuid_New rt (wuuids w) \<notin> evt_ID ` set (outbound_events (wdb w))
     \<and> business_exists (att_BusinessID a) (wdb w)"

lemma can_settle_business:
  assumes "can_settle rt a w"
  shows "parse_uuid rt (att_BusinessID a) = Some (att_BusinessID a)"
    and "\<exists>v \<in> set (invoices (wdb w)). attempt_of a v"
  using assms by (auto simp: can_settle_def pay_inv_def refs_ok_def ids_ok_def attempt_of_def) force+

lemma persistSuccess_ok:
  assumes c: "can_settle rt a w"
  obtains w' where "transaction (persistSuccess_body rt a ref) w = (Inr (succeeded_attempt a ref), w')"
    and "settles a ref (wclock w) (succeeded_attempt a ref) (wdb w) (wdb w')" and "no_faults w'" and "wpsp w' = wpsp w"
proof -
  from c have inv: "pay_inv rt (wdb w)" and nf: "no_faults w" and rt: "uuid_ok rt"
    and a: "a \<in> set (payment_attempts (wdb w))" "attempt_pending a"
    and fresh: "uuid_New rt (wuuids w) \<notin> evt_ID ` set (outbound_events (wdb w))"
    and be: "business_exists (att_BusinessID a) (wdb w)"
    by (simp_all add: can_settle_def)
  have held: "held a (wdb w)" by (rule held_row [OF inv a(1)])
  note can = held_canonical [OF inv held]
  obtain v where v: "v \<in> set (invoices (wdb w))" "attempt_of a v" using can_settle_business(2) [OF c] by blast
  have g: "exec_stmt (InvoiceRepository_GetByIDForUpdate rt (att_InvoiceID a)) w = (Inr v, w)"
    by (rule invoice_get_ok [OF inv nf v(1)]) (use v(2) can in \<open>simp add: attempt_of_def\<close>)
  obtain w2 where w2: "w2 = w\<lparr>wdb := (wdb w)\<lparr>payment_attempts := map (mark_attempt (att_ID a)
      PaymentAttemptStatusSucceeded (Some ref) None (wclock w)) (payment_attempts (wdb w))\<rparr>\<rparr>" by simp
  have u: "exec_stmt (PaymentAttemptRepository_UpdateStatusIfPending rt (att_ID a) PaymentAttemptStatusSucceeded
      (Some ref) None) w = (Inr True, w2)"
    using a by (auto simp: exec_stmt_ok nf UpdateStatusIfPending_stmt [OF can(1)] w2)
  obtain w3 where w3: "w3 = w2\<lparr>wdb := (wdb w2)\<lparr>invoices := map (mark_paid (att_InvoiceID a) (wclock w2))
      (invoices (wdb w2))\<rparr>\<rparr>" by simp
  have m: "exec_stmt (InvoiceRepository_MarkPaidIfOpen rt (att_InvoiceID a)) w2 = (Inr (), w3)"
    by (simp add: exec_stmt_ok nf MarkPaidIfOpen_stmt [OF can(2)] w2 w3)
  obtain w4 where q: "enqueueOutboundEvent rt (succeeded_attempt a ref) EventTypePaymentSucceeded w3 = (Inr (), w4)"
    and w4: "no_faults w4" "wpsp w4 = wpsp w3"
    by (rule enqueue_ok [of w3 rt "succeeded_attempt a ref" EventTypePaymentSucceeded])
      (use nf rt fresh be can_settle_business(1) [OF c] in
        \<open>simp_all add: w3 w2 succeeded_attempt_def business_exists_def\<close>)
  have body: "persistSuccess_body rt a ref w = (Inr (succeeded_attempt a ref), w4)"
    by (simp add: persistSuccess_body_def act_bind_def g u settleSuccess_def m q act_ret_def)
  have tr: "transaction (persistSuccess_body rt a ref) w = (Inr (succeeded_attempt a ref), w4)"
    by (simp add: transaction_ok nf body next_fate_ok w4)
  show thesis
    by (rule that [OF tr persistSuccess_settles [OF inv held body]]) (use w4 in \<open>simp_all add: w3 w2\<close>)
qed

lemma persistFailure_ok:
  assumes c: "can_settle (svc_rt S) a w"
  obtains w' where "run (persistFailure S a code) w = (Inr (failed_attempt a code), w')"
    and "enqueues (failed_attempt a code) EventTypePaymentFailed (mark_failure a code (wclock w) (wdb w)) (wdb w')"
    and "no_faults w'" and "wpsp w' = wpsp w"
proof -
  from c have inv: "pay_inv (svc_rt S) (wdb w)" and nf: "no_faults w" and rt: "uuid_ok (svc_rt S)"
    and a: "a \<in> set (payment_attempts (wdb w))" "attempt_pending a"
    and fresh: "uuid_New (svc_rt S) (wuuids w) \<notin> evt_ID ` set (outbound_events (wdb w))"
    and be: "business_exists (att_BusinessID a) (wdb w)"
    by (simp_all add: can_settle_def)
  note can = held_canonical(1) [OF inv held_row [OF inv a(1)]]
  obtain w2 where w2: "w2 = w\<lparr>wdb := mark_failure a code (wclock w) (wdb w)\<rparr>" by simp
  have u: "exec_stmt (PaymentAttemptRepository_UpdateStatusIfPending (svc_rt S) (att_ID a) PaymentAttemptStatusFailed
      None (Some code)) w = (Inr True, w2)"
    using a by (auto simp: exec_stmt_ok nf UpdateStatusIfPending_stmt [OF can] w2 mark_failure_def)
  obtain w4 where q: "enqueueOutboundEvent (svc_rt S) (failed_attempt a code) EventTypePaymentFailed w2 = (Inr (), w4)"
    and w4: "no_faults w4" "wpsp w4 = wpsp w2"
    by (rule enqueue_ok [of w2 "svc_rt S" "failed_attempt a code" EventTypePaymentFailed])
      (use nf rt fresh be can_settle_business(1) [OF c] in
        \<open>simp_all add: w2 failed_attempt_def business_exists_def mark_failure_def\<close>)
  have r: "run (persistFailure S a code) w = (Inr (failed_attempt a code), w4)"
    by (simp add: persistFailure_def u q)
  show thesis
    by (rule that [OF r]) (use w4 enqueue_db_Inr [OF q] in \<open>simp_all add: w2\<close>)
qed

subsection \<open>The first use of a key\<close>

definition first_use :: "'p PaymentService \<Rightarrow> string \<Rightarrow> string \<Rightarrow> string \<Rightarrow> Invoice \<Rightarrow> 'p world \<Rightarrow> bool" where
  "first_use S b i key v w \<longleftrightarrow> pay_inv (svc_rt S) (wdb w) \<and> no_faults w \<and> ids_fresh (svc_rt S) w
     \<and> payable (svc_rt S) b i v (wdb w) \<and> key_unused b key (wdb w)"

text \<open>After the attempt is created, the handler is where the provider's answer takes over.\<close>

lemma first_use_charges:
  assumes f: "first_use S b i key v w"
    and psp: "Charge (svc_psp S) (charge_request (new_attempt (svc_rt S) v w) tok) (wpsp w) = (answer, p)"
  obtains w1 where "creates (svc_rt S) b i key (hashPayRequest (svc_rt S) i tok) (wclock w)
        (new_attempt (svc_rt S) v w) (wdb w) (wdb w1)"
    and "can_settle (svc_rt S) (new_attempt (svc_rt S) v w) w1" and "wpsp w1 = p" and "wclock w1 = wclock w"
    and "run (PayInvoice S b i key tok) w = run (case answer of
         Inl err \<Rightarrow> if IsUnknownOutcome err then Done (Inr (new_attempt (svc_rt S) v w))
                     else persistFailure S (new_attempt (svc_rt S) v w) (err_text (svc_rt S) err)
       | Inr resp \<Rightarrow> if resp_Status resp \<noteq> ''succeeded''
                     then persistFailure S (new_attempt (svc_rt S) v w) (decline_code (resp_Code resp))
                     else persistSuccess S (new_attempt (svc_rt S) v w) (resp_PSPRef resp)) w1"
proof -
  let ?a = "new_attempt (svc_rt S) v w"
  from f have inv: "pay_inv (svc_rt S) (wdb w)" and nf: "no_faults w" and fresh: "ids_fresh (svc_rt S) w"
    and p: "payable (svc_rt S) b i v (wdb w)" and key: "key_unused b key (wdb w)"
    by (simp_all add: first_use_def)
  obtain w0 where tr: "transaction (createPendingAttempt_body (svc_rt S) b i key (hashPayRequest (svc_rt S) i tok)) w
        = (Inr ?a, w0)"
    and c: "creates (svc_rt S) b i key (hashPayRequest (svc_rt S) i tok) (wclock w) ?a (wdb w) (wdb w0)"
    and w0: "no_faults w0" "wpsp w0 = wpsp w" "wclock w0 = wclock w" "wticks w0 = wticks w"
      "wuuids w0 = Suc (Suc (wuuids w))" "businesses (wdb w0) = businesses (wdb w)"
    by (rule create_succeeds [OF inv nf fresh p key])
  let ?w1 = "w0\<lparr>wpsp := p\<rparr>"
  have cb: "parse_uuid (svc_rt S) b = Some b"
    using p pay_invD(1) [OF inv] by (auto simp: payable_def own_unpaid_def ids_ok_def)
  have bid: "att_BusinessID ?a = b" using p by (simp add: payable_def own_unpaid_def new_attempt_def)
  have "uuid_New (svc_rt S) (wuuids w0) \<notin> evt_ID ` set (outbound_events (wdb w))"
    using fresh w0(5) unfolding ids_fresh_def by (metis UnCI le_SucI le_refl)
  moreover have "outbound_events (wdb w0) = outbound_events (wdb w)" and "?a \<in> set (payment_attempts (wdb w0))"
    using c by (auto simp: creates_def)
  moreover have "business_exists b (wdb w0)" using p w0(6) by (simp add: payable_def own_unpaid_def business_exists_def)
  ultimately have s: "can_settle (svc_rt S) ?a ?w1"
    using creates_pay_inv [OF c inv] fresh w0(1) bid
    by (simp add: can_settle_def ids_fresh_def) (simp add: new_attempt_def attempt_pending_def)
  have "run (PayInvoice S b i key tok) w = run (chargeAndSettle S ?a tok) w0"
    by (simp add: PayInvoice_def Let_def key_get_none [OF nf cb key] createPendingAttempt_def tr)
  moreover have "run (psp_Charge S (charge_request ?a tok)) w0 = (answer, ?w1)"
    by (simp add: w0(2) psp)
  ultimately show thesis
    using that [of ?w1] c s w0(3) by (simp add: chargeAndSettle_def flip: charge_request_def)
qed

text \<open>A settled success, read off the tables.\<close>

definition paid_with :: "PaymentAttempt \<Rightarrow> string \<Rightarrow> db \<Rightarrow> bool" where
  "paid_with a ref d \<longleftrightarrow>
     (\<exists>r \<in> set (payment_attempts d). same_attempt a r \<and> att_Status r = PaymentAttemptStatusSucceeded
        \<and> att_PSPTransactionID r = Some ref)
     \<and> (\<exists>u \<in> set (invoices d). inv_ID u = att_InvoiceID a \<and> inv_Status u = InvoiceStatusPaid)
     \<and> (\<exists>e \<in> set (outbound_events d). evt_Status e = OutboundEventStatusPending
        \<and> evt_Payload e = outbound_payload (succeeded_attempt a ref) EventTypePaymentSucceeded)"

lemma persistSuccess_done:
  assumes s: "can_settle rt a w"
  obtains w' where "transaction (persistSuccess_body rt a ref) w = (Inr (succeeded_attempt a ref), w')"
    and "paid_with a ref (wdb w')" and "no_faults w'" and "wpsp w' = wpsp w"
    and "webhook_events (wdb w') = webhook_events (wdb w)"
proof -
  obtain w2 where t: "transaction (persistSuccess_body rt a ref) w = (Inr (succeeded_attempt a ref), w2)"
    and st: "settles a ref (wclock w) (succeeded_attempt a ref) (wdb w) (wdb w2)"
    and w2: "no_faults w2" "wpsp w2 = wpsp w"
    by (rule persistSuccess_ok [OF s])
  let ?m = "mark_success a ref (wclock w) (wdb w)"
  have a: "a \<in> set (payment_attempts (wdb w))" "attempt_pending a" and inv: "pay_inv rt (wdb w)"
    using s by (simp_all add: can_settle_def)
  have cp: "copy_of a a"
    using pay_invD(6) [OF inv] a by (auto simp: copy_of_def same_attempt_def fields_ok_def fields_match_def attempt_pending_def)
  have q: "enqueues (succeeded_attempt a ref) EventTypePaymentSucceeded ?m (wdb w2)"
  proof -
    from st obtain r where r: "r \<in> set (payment_attempts (wdb w))" "copy_of a r"
      and alt: "attempt_pending r \<and> enqueues (succeeded_attempt a ref) EventTypePaymentSucceeded ?m (wdb w2)
        \<or> attempt_settled r"
      by (auto simp: settles_def attempt_status_defs)
    have "r = a" using attempt_unique [OF pay_invD(1) [OF inv] r(1) a(1)] r(2)
      by (simp add: copy_of_def same_attempt_def)
    with alt a(2) show ?thesis by (auto simp: attempt_status_defs)
  qed
  obtain e where e: "event_for (succeeded_attempt a ref) EventTypePaymentSucceeded e"
      "evt_Status e = OutboundEventStatusPending"
    and d2: "wdb w2 = ?m\<lparr>outbound_events := outbound_events ?m @ [e]\<rparr>"
    using q settles_now [OF inv a(1) cp a(2) q] by (auto simp: enqueues_def mark_success_def queued_def)
  let ?r = "mark_attempt (att_ID a) PaymentAttemptStatusSucceeded (Some ref) None (wclock w) a"
  have r: "?r \<in> set (payment_attempts (wdb w2))" using a(1) by (simp add: d2 mark_success_def)
  have rf: "same_attempt a ?r" "attempt_succeeded ?r" "att_PSPTransactionID ?r = Some ref"
      "att_InvoiceID ?r = att_InvoiceID a"
    using a(2) by (simp_all add: mark_attempt_def set_attempt_status_def same_attempt_def attempt_succeeded_def)
  note inv2 = settles_pay_inv [OF st inv]
  from pay_invD(2) [OF inv2] r obtain u where u: "u \<in> set (invoices (wdb w2))" "attempt_of ?r u"
    by (auto simp: refs_ok_def)
  have ui: "inv_ID u = att_InvoiceID a" using u(2) rf(4) by (simp add: attempt_of_def)
  have "inv_Status u = InvoiceStatusPaid"
    using pay_invD(4,9) [OF inv2] u(1) r rf(2,4) ui by (auto simp: invoices_ok_def statuses_ok_def)
  with u(1) ui have "\<exists>u \<in> set (invoices (wdb w2)). inv_ID u = att_InvoiceID a \<and> inv_Status u = InvoiceStatusPaid"
    by blast
  moreover have "\<exists>r \<in> set (payment_attempts (wdb w2)). same_attempt a r \<and> att_Status r = PaymentAttemptStatusSucceeded
        \<and> att_PSPTransactionID r = Some ref"
    by (rule bexI [OF _ r]) (use rf in \<open>simp add: attempt_succeeded_def\<close>)
  ultimately have "paid_with a ref (wdb w2)"
    using e by (auto simp: paid_with_def d2 event_for_def)
  then show thesis by (rule that [OF t _ w2]) (simp add: d2 mark_success_def)
qed

text \<open>
  C21. A payment the provider accepts: \<open>PayInvoice\<close> asks it once, with the invoice's amount and
  currency and the attempt's identifier as its key; the attempt it returns has succeeded
  with the provider's reference and is for the invoice; in the database the attempt has
  succeeded, the invoice is paid, and the event for the merchant is queued.
\<close>

theorem accepted_payment:
  assumes "first_use S businessID invoiceID key v w"
    and "Charge (svc_psp S) (charge_request (new_attempt (svc_rt S) v w) cardToken) (wpsp w) = (Inr resp, p)"
    and "resp_Status resp = ''succeeded''"
  shows "\<exists>a w'. run (PayInvoice S businessID invoiceID key cardToken) w
         = (Inr (succeeded_attempt a (resp_PSPRef resp)), w') \<and> wpsp w' = p
     \<and> a = new_attempt (svc_rt S) v w \<and> paid_with a (resp_PSPRef resp) (wdb w')"
proof -
  let ?a = "new_attempt (svc_rt S) v w"
  obtain w1 where s: "can_settle (svc_rt S) ?a w1" and p: "wpsp w1 = p"
    and run1: "run (PayInvoice S businessID invoiceID key cardToken) w = run (persistSuccess S ?a (resp_PSPRef resp)) w1"
    by (rule first_use_charges [OF assms(1,2)]) (use assms(3) in simp)
  obtain w2 where "transaction (persistSuccess_body (svc_rt S) ?a (resp_PSPRef resp)) w1
        = (Inr (succeeded_attempt ?a (resp_PSPRef resp)), w2)"
    and "paid_with ?a (resp_PSPRef resp) (wdb w2)" and "wpsp w2 = wpsp w1"
    by (rule persistSuccess_done [OF s])
  with p show ?thesis by (auto simp: run1 persistSuccess_def)
qed

text \<open>The failure code of an answer that is not a success, if the answer settles anything.\<close>

definition failure_of :: "runtime \<Rightarrow> ChargeResponse result \<Rightarrow> string option" where
  "failure_of rt answer = (case answer of
       Inl err \<Rightarrow> if IsUnknownOutcome err then None else Some (err_text rt err)
     | Inr resp \<Rightarrow> if resp_Status resp = ''succeeded'' then None else Some (decline_code (resp_Code resp)))"

lemma first_use_fails:
  fixes w :: "'p world"
  assumes "first_use S b i key v w"
    and "Charge (svc_psp S) (charge_request (new_attempt (svc_rt S) v w) tok) (wpsp w) = (answer, p)"
    and "failure_of (svc_rt S) answer = Some code"
  obtains w1 w' :: "'p world" where "creates (svc_rt S) b i key (hashPayRequest (svc_rt S) i tok) (wclock w)
        (new_attempt (svc_rt S) v w) (wdb w) (wdb w1)"
    and "can_settle (svc_rt S) (new_attempt (svc_rt S) v w) w1"
    and "run (PayInvoice S b i key tok) w = (Inr (failed_attempt (new_attempt (svc_rt S) v w) code), w')"
    and "enqueues (failed_attempt (new_attempt (svc_rt S) v w) code) EventTypePaymentFailed
        (mark_failure (new_attempt (svc_rt S) v w) code (wclock w1) (wdb w1)) (wdb w')"
    and "no_faults w'" and "wpsp w' = p"
proof -
  obtain w1 where c: "creates (svc_rt S) b i key (hashPayRequest (svc_rt S) i tok) (wclock w)
        (new_attempt (svc_rt S) v w) (wdb w) (wdb w1)"
    and s: "can_settle (svc_rt S) (new_attempt (svc_rt S) v w) w1" and p: "wpsp w1 = p"
    and r: "run (PayInvoice S b i key tok) w = run (persistFailure S (new_attempt (svc_rt S) v w) code) w1"
    by (rule first_use_charges [OF assms(1,2)])
      (use assms(3) in \<open>auto simp: failure_of_def split: sum.splits if_splits\<close>)
  show thesis
    by (rule persistFailure_ok [OF s, of code]) (rule that [OF c s], use r p in simp_all)
qed

lemma mark_failure_row:
  assumes "a \<in> set (payment_attempts d)" and "attempt_pending a"
  shows "a\<lparr>att_Status := PaymentAttemptStatusFailed, att_PSPTransactionID := None, att_FailureCode := Some code,
            att_UpdatedAt := now\<rparr> \<in> set (payment_attempts (mark_failure a code now d))"
proof -
  have "mark_attempt (att_ID a) PaymentAttemptStatusFailed None (Some code) now a
      \<in> set (payment_attempts (mark_failure a code now d))"
    using assms(1) by (simp add: mark_failure_def)
  then show ?thesis using assms(2) by (simp add: mark_attempt_def set_attempt_status_def)
qed

text \<open>
  C22. A payment the provider declines or rejects: the attempt fails with the provider's code
  (\<open>card_declined\<close> when it gives none) or with the text of the error, the merchant's event is
  queued, and the invoice can be paid again.
\<close>

theorem refused_payment:
  assumes "first_use S businessID invoiceID key v w"
    and "Charge (svc_psp S) (charge_request (new_attempt (svc_rt S) v w) cardToken) (wpsp w) = (answer, p)"
    and "failure_of (svc_rt S) answer = Some code"
  shows "\<exists>a w'. run (PayInvoice S businessID invoiceID key cardToken) w = (Inr a, w') \<and> wpsp w' = p
     \<and> a = failed_attempt (new_attempt (svc_rt S) v w) code
     \<and> (\<exists>r \<in> set (payment_attempts (wdb w')). same_attempt a r \<and> att_Status r = PaymentAttemptStatusFailed
           \<and> att_FailureCode r = Some code)
     \<and> (\<exists>e \<in> set (outbound_events (wdb w')). evt_Status e = OutboundEventStatusPending
           \<and> evt_Payload e = outbound_payload a EventTypePaymentFailed)
     \<and> (\<exists>u. inv_ID u = inv_ID v \<and> payable (svc_rt S) businessID invoiceID u (wdb w'))"
proof (rule first_use_fails [OF assms])
  let ?a = "new_attempt (svc_rt S) v w"
  fix w1 w'
  assume c: "creates (svc_rt S) businessID invoiceID key (hashPayRequest (svc_rt S) invoiceID cardToken) (wclock w) ?a
      (wdb w) (wdb w1)"
    and s: "can_settle (svc_rt S) ?a w1"
    and r: "run (PayInvoice S businessID invoiceID key cardToken) w = (Inr (failed_attempt ?a code), w')"
    and q: "enqueues (failed_attempt ?a code) EventTypePaymentFailed (mark_failure ?a code (wclock w1) (wdb w1)) (wdb w')"
    and p: "wpsp w' = p"
  have a: "?a \<in> set (payment_attempts (wdb w1))" "attempt_pending ?a" and inv1: "pay_inv (svc_rt S) (wdb w1)"
    using s by (simp_all add: can_settle_def)
  let ?r = "?a\<lparr>att_Status := PaymentAttemptStatusFailed, att_PSPTransactionID := None, att_FailureCode := Some code,
            att_UpdatedAt := wclock w1\<rparr>"
  have "\<not> queued (failed_attempt ?a code) EventTypePaymentFailed (wdb w1)"
    by (rule pending_not_queued [OF inv1 a]) (simp_all add: failed_attempt_def)
  then have nq: "\<not> queued (failed_attempt ?a code) EventTypePaymentFailed (mark_failure ?a code (wclock w1) (wdb w1))"
    by (simp add: queued_def mark_failure_def)
  with q obtain e where e: "event_for (failed_attempt ?a code) EventTypePaymentFailed e"
      "evt_Status e = OutboundEventStatusPending"
    and d': "wdb w' = (mark_failure ?a code (wclock w1) (wdb w1))\<lparr>outbound_events := outbound_events (wdb w1) @ [e]\<rparr>"
    by (auto simp: enqueues_def mark_failure_def)
  have row: "?r \<in> set (payment_attempts (wdb w'))" using mark_failure_row [OF a, where code = code and now = "wclock w1"] d' by simp
  from c obtain u where u: "u \<in> set (invoices (wdb w1))" "attempt_of ?a u" "inv_Status u = InvoiceStatusOpen"
  proof -
    from pay_invD(2) [OF inv1] a(1) obtain u where u: "u \<in> set (invoices (wdb w1))" "attempt_of ?a u"
      by (auto simp: refs_ok_def)
    have "\<not> attempt_succeeded x" if "x \<in> set (payment_attempts (wdb w1))" "att_InvoiceID x = inv_ID u" for x
      using pay_invD(3) [OF inv1] that a u(2)
      by (fastforce simp: single_active_def attempt_of_def attempt_status_defs)
    then have "inv_Status u = InvoiceStatusOpen"
      using pay_invD(4,9) [OF inv1] u a(1)
      by (fastforce simp: invoices_ok_def statuses_ok_def unpaid_status_def attempt_of_def)
    with u show thesis by (rule that)
  qed
  have np: "\<not> attempt_pending x" if x: "x \<in> set (payment_attempts (wdb w'))" "att_InvoiceID x = inv_ID u" for x
  proof
    assume px: "attempt_pending x"
    from x(1) obtain y where y: "y \<in> set (payment_attempts (wdb w1))"
      "x = mark_attempt (att_ID ?a) PaymentAttemptStatusFailed None (Some code) (wclock w1) y"
      by (auto simp: d' mark_failure_def)
    then have "attempt_pending y" "att_ID y \<noteq> att_ID ?a" "att_InvoiceID y = inv_ID u"
      using px x(2) by (auto simp: mark_attempt_def set_attempt_status_def attempt_pending_def split: if_splits)
    with pay_invD(3) [OF inv1] y(1) a u(2) show False
      by (fastforce simp: single_active_def attempt_of_def attempt_status_defs)
  qed
  have "businesses (wdb w1) = businesses (wdb w)" using c by (auto simp: creates_def)
  then have pay: "payable (svc_rt S) businessID invoiceID u (wdb w')"
    using assms(1) u np
    by (auto simp: payable_def own_unpaid_def first_use_def attempt_of_def new_attempt_def d' mark_failure_def unpaid_status_def
        business_exists_def)
  have "inv_ID u = inv_ID v" using u(2) by (simp add: attempt_of_def new_attempt_def)
  with pay have again: "\<exists>u. inv_ID u = inv_ID v \<and> payable (svc_rt S) businessID invoiceID u (wdb w')"
    by blast
  have ev: "\<exists>e \<in> set (outbound_events (wdb w')). evt_Status e = OutboundEventStatusPending
           \<and> evt_Payload e = outbound_payload (failed_attempt ?a code) EventTypePaymentFailed"
    using e by (auto simp: d' event_for_def)
  have "same_attempt (failed_attempt ?a code) ?r" by (simp add: same_attempt_def failed_attempt_def)
  then have rr: "\<exists>r \<in> set (payment_attempts (wdb w')). same_attempt (failed_attempt ?a code) r
      \<and> att_Status r = PaymentAttemptStatusFailed \<and> att_FailureCode r = Some code"
    using row by (intro bexI [of _ ?r]) simp_all
  show ?thesis using r p rr ev again by blast
qed

text \<open>
  C18. An outcome the provider did not tell (a timeout, a lost connection, a server error)
  decides nothing: the attempt is returned and stays pending, no event is queued, and the
  key is bound to it, so that a retry resumes it.
\<close>

theorem unknown_outcome_stays_pending:
  assumes "first_use S businessID invoiceID key v w"
    and "Charge (svc_psp S) (charge_request (new_attempt (svc_rt S) v w) cardToken) (wpsp w) = (Inl err, p)"
    and "IsUnknownOutcome err"
  shows "\<exists>a w'. run (PayInvoice S businessID invoiceID key cardToken) w = (Inr a, w') \<and> wpsp w' = p
     \<and> a = new_attempt (svc_rt S) v w \<and> att_Status a = PaymentAttemptStatusPending
     \<and> set (payment_attempts (wdb w')) = insert a (set (payment_attempts (wdb w)))
     \<and> outbound_events (wdb w') = outbound_events (wdb w)
     \<and> (\<exists>k \<in> set (idempotency_keys (wdb w')). ik_BusinessID k = businessID \<and> ik_IdempotencyKey k = key
           \<and> ik_PaymentAttemptID k = Some (att_ID a) \<and> ik_InvoiceID k = inv_ID v
           \<and> ik_RequestHash k = hashPayRequest (svc_rt S) invoiceID cardToken)"
proof (rule first_use_charges [OF assms(1,2)])
  let ?a = "new_attempt (svc_rt S) v w"
  fix w1
  assume c: "creates (svc_rt S) businessID invoiceID key (hashPayRequest (svc_rt S) invoiceID cardToken) (wclock w) ?a
      (wdb w) (wdb w1)"
    and p: "wpsp w1 = p"
    and r: "run (PayInvoice S businessID invoiceID key cardToken) w = run (case Inl err of
         Inl err \<Rightarrow> if IsUnknownOutcome err then Done (Inr ?a) else persistFailure S ?a (err_text (svc_rt S) err)
       | Inr resp \<Rightarrow> if resp_Status resp \<noteq> ''succeeded''
                     then persistFailure S ?a (decline_code (resp_Code resp))
                     else persistSuccess S ?a (resp_PSPRef resp)) w1"
  from c obtain k where k: "key_of k ?a" "ik_IdempotencyKey k = key"
      "ik_RequestHash k = hashPayRequest (svc_rt S) invoiceID cardToken" "ik_BusinessID k = businessID"
      "idempotency_keys (wdb w1) = idempotency_keys (wdb w) @ [k]"
      "payment_attempts (wdb w1) = payment_attempts (wdb w) @ [?a]" "outbound_events (wdb w1) = outbound_events (wdb w)"
    by (auto simp: creates_def key_of_def attempt_of_def)
  then have "\<exists>k \<in> set (idempotency_keys (wdb w1)). ik_BusinessID k = businessID \<and> ik_IdempotencyKey k = key
           \<and> ik_PaymentAttemptID k = Some (att_ID ?a) \<and> ik_InvoiceID k = inv_ID v
           \<and> ik_RequestHash k = hashPayRequest (svc_rt S) invoiceID cardToken"
    by (auto simp: key_of_def new_attempt_def)
  moreover have "run (PayInvoice S businessID invoiceID key cardToken) w = (Inr ?a, w1)"
    using r assms(3) by simp
  ultimately show ?thesis using p k(6,7) by (auto simp: new_attempt_def)
qed

subsection \<open>Resuming an attempt\<close>

text \<open>A recorded failure, read off the tables.\<close>

definition failed_with :: "PaymentAttempt \<Rightarrow> string \<Rightarrow> db \<Rightarrow> bool" where
  "failed_with a code d \<longleftrightarrow>
     (\<exists>r \<in> set (payment_attempts d). same_attempt a r \<and> att_Status r = PaymentAttemptStatusFailed
        \<and> att_FailureCode r = Some code)
     \<and> (\<exists>e \<in> set (outbound_events d). evt_Status e = OutboundEventStatusPending
        \<and> evt_Payload e = outbound_payload (failed_attempt a code) EventTypePaymentFailed)"

definition same_payments :: "db \<Rightarrow> db \<Rightarrow> bool" where
  "same_payments d d' \<longleftrightarrow> map att_ID (payment_attempts d') = map att_ID (payment_attempts d)
     \<and> idempotency_keys d' = idempotency_keys d"

lemma enqueues_payments: "enqueues a ty d d' \<Longrightarrow> same_payments d d'"
  by (auto simp: enqueues_def same_payments_def)

lemma mark_payments: "same_payments d (mark_failure a code now d)" "same_payments d (mark_success a ref now d)"
  by (simp_all add: same_payments_def mark_failure_def mark_success_def comp_def)

lemma same_payments_trans: "same_payments d d' \<Longrightarrow> same_payments d' d'' \<Longrightarrow> same_payments d d''"
  by (simp add: same_payments_def)

lemma settles_payments: "settles a ref now a' d d' \<Longrightarrow> same_payments d d'"
  unfolding settles_def by (auto simp: same_payments_def mark_success_def comp_def enqueues_def)

lemma persistFailure_done:
  assumes s: "can_settle (svc_rt S) a w"
  obtains w' where "run (persistFailure S a code) w = (Inr (failed_attempt a code), w')"
    and "failed_with a code (wdb w')" and "same_payments (wdb w) (wdb w')" and "wpsp w' = wpsp w"
proof (rule persistFailure_ok [OF s])
  fix w'
  assume r: "run (persistFailure S a code) w = (Inr (failed_attempt a code), w')" and p: "wpsp w' = wpsp w"
    and q: "enqueues (failed_attempt a code) EventTypePaymentFailed (mark_failure a code (wclock w) (wdb w)) (wdb w')"
  have a: "a \<in> set (payment_attempts (wdb w))" "attempt_pending a" and inv: "pay_inv (svc_rt S) (wdb w)"
    using s by (simp_all add: can_settle_def)
  have "\<not> queued (failed_attempt a code) EventTypePaymentFailed (wdb w)"
    by (rule pending_not_queued [OF inv a]) (simp_all add: failed_attempt_def)
  then have "\<not> queued (failed_attempt a code) EventTypePaymentFailed (mark_failure a code (wclock w) (wdb w))"
    by (simp add: queued_def mark_failure_def)
  with q obtain e where e: "event_for (failed_attempt a code) EventTypePaymentFailed e" "evt_Status e = OutboundEventStatusPending"
    and d': "wdb w' = (mark_failure a code (wclock w) (wdb w))\<lparr>outbound_events := outbound_events (wdb w) @ [e]\<rparr>"
    by (auto simp: enqueues_def mark_failure_def)
  let ?r = "a\<lparr>att_Status := PaymentAttemptStatusFailed, att_PSPTransactionID := None, att_FailureCode := Some code,
            att_UpdatedAt := wclock w\<rparr>"
  have "?r \<in> set (payment_attempts (wdb w'))" using mark_failure_row [OF a, where code = code and now = "wclock w"] d' by simp
  moreover have "same_attempt a ?r" by (simp add: same_attempt_def)
  ultimately have "failed_with a code (wdb w')"
    unfolding failed_with_def using e by (auto simp: d' event_for_def intro!: bexI [of _ ?r])
  moreover have "same_payments (wdb w) (wdb w')"
    using same_payments_trans [OF mark_payments(1) enqueues_payments [OF q]] .
  ultimately show thesis using that [OF r _ _ p] by blast
qed

text \<open>
  C20. A retry while the outcome is unknown resumes the attempt: the provider is asked once more, for the
  amount and currency of the attempt with the attempt's own identifier as the idempotency key; no
  attempt and no key is created; and the answer decides the attempt the key stands for: a success is
  recorded with the provider's reference, the invoice paid and its event queued; a refusal is recorded
  with its code and its event queued; an unknown outcome leaves the database as it was and the attempt pending.
\<close>

theorem replay_resumes_pending_attempt:
  assumes "pay_inv (svc_rt S) (wdb w)" and "no_faults w" and "ids_fresh (svc_rt S) w"
    and "used_key (svc_rt S) k businessID key invoiceID cardToken (wdb w)"
    and "a \<in> set (payment_attempts (wdb w))" and "ik_PaymentAttemptID k = Some (att_ID a)"
    and "att_Status a = PaymentAttemptStatusPending" and "business_exists (att_BusinessID a) (wdb w)"
    and "Charge (svc_psp S) \<lparr>req_Amount = att_Amount a, req_Currency = att_Currency a, req_CardToken = cardToken,
        req_IdempotencyKey = att_ID a\<rparr> (wpsp w) = (answer, p)"
  shows "\<exists>r w'. run (PayInvoice S businessID invoiceID key cardToken) w = (Inr r, w') \<and> wpsp w' = p
     \<and> map att_ID (payment_attempts (wdb w')) = map att_ID (payment_attempts (wdb w))
     \<and> idempotency_keys (wdb w') = idempotency_keys (wdb w)
     \<and> (case answer of
          Inr resp \<Rightarrow>
            if resp_Status resp = ''succeeded''
            then r = succeeded_attempt a (resp_PSPRef resp) \<and> paid_with a (resp_PSPRef resp) (wdb w')
            else let code = (if resp_Code resp = [] then ''card_declined'' else resp_Code resp)
                 in r = failed_attempt a code \<and> failed_with a code (wdb w')
        | Inl err \<Rightarrow>
            if IsUnknownOutcome err then r = a \<and> wdb w' = wdb w
            else r = failed_attempt a (err_text (svc_rt S) err) \<and> failed_with a (err_text (svc_rt S) err) (wdb w'))"
proof -
  let ?w = "w\<lparr>wpsp := p\<rparr>"
  have "uuid_New (svc_rt S) (wuuids w) \<notin> evt_ID ` set (outbound_events (wdb w))"
    using assms(3) unfolding ids_fresh_def by (meson UnCI le_refl)
  then have s: "can_settle (svc_rt S) a ?w"
    using assms(1-3,5,7,8) by (simp add: can_settle_def attempt_pending_def ids_fresh_def)
  have run1: "run (PayInvoice S businessID invoiceID key cardToken) w = run (case answer of
         Inl err \<Rightarrow> if IsUnknownOutcome err then Done (Inr a) else persistFailure S a (err_text (svc_rt S) err)
       | Inr resp \<Rightarrow> if resp_Status resp \<noteq> ''succeeded'' then persistFailure S a (decline_code (resp_Code resp))
                     else persistSuccess S a (resp_PSPRef resp)) ?w"
    using assms attempt_get_ok [OF assms(1,2,5)]
    by (simp add: PayInvoice_used_key [where k = k] used_key_def replayIdempotentPay_def chargeAndSettle_def)
  have fail: "\<exists>w'. run (persistFailure S a code) ?w = (Inr (failed_attempt a code), w') \<and> wpsp w' = p
      \<and> same_payments (wdb w) (wdb w') \<and> failed_with a code (wdb w')" for code
    by (rule persistFailure_done [OF s, of code]) auto
  have paid: "\<exists>w'. run (persistSuccess S a ref) ?w = (Inr (succeeded_attempt a ref), w') \<and> wpsp w' = p
      \<and> same_payments (wdb w) (wdb w') \<and> paid_with a ref (wdb w')" for ref
    by (rule persistSuccess_done [OF s, of ref], rule persistSuccess_ok [OF s, of ref])
      (auto simp: persistSuccess_def dest: settles_payments)
  show ?thesis
  proof (cases answer)
    case (Inl err)
    then show ?thesis using fail [of "err_text (svc_rt S) err"] by (auto simp: run1 same_payments_def)
  next
    case (Inr resp)
    then show ?thesis using paid [of "resp_PSPRef resp"] fail [of "decline_code (resp_Code resp)"]
      by (auto simp: run1 same_payments_def decline_code_def Let_def)
  qed
qed

text \<open>
  C25. One payment at a time: while an attempt for the invoice is pending, a payment with
  another key is refused with \<open>ErrPaymentInProgress\<close>; the database is as it was and the
  provider is not asked.
\<close>

theorem pending_payment_blocks:
  assumes "pay_inv (svc_rt S) (wdb w)" and "no_faults w" and "ids_fresh (svc_rt S) w"
    and "own_unpaid (svc_rt S) businessID invoiceID v (wdb w)" and "key_unused businessID key (wdb w)"
    and "a \<in> set (payment_attempts (wdb w))" and "att_InvoiceID a = inv_ID v"
    and "att_Status a = PaymentAttemptStatusPending"
  shows "\<exists>w'. run (PayInvoice S businessID invoiceID key cardToken) w = (Inl ErrPaymentInProgress, w')
     \<and> wdb w' = wdb w \<and> wpsp w' = wpsp w"
proof -
  let ?h = "hashPayRequest (svc_rt S) invoiceID cardToken"
  obtain wk where wk: "wk = keyed (svc_rt S) v key ?h w" by simp
  note can = own_unpaid_canonical [OF assms(1,4)]
  obtain x where "find (\<lambda>r. att_InvoiceID r = inv_ID v \<and> attempt_pending r) (payment_attempts (wdb w)) = Some x"
    using find_isSome [OF assms(6), of "\<lambda>r. att_InvoiceID r = inv_ID v \<and> attempt_pending r"] assms(7,8)
    by (auto simp: attempt_pending_def)
  then have "exec_stmt (PaymentAttemptRepository_GetPendingByInvoiceID (svc_rt S) (inv_ID v)) wk = (Inr x, wk)"
    using assms(2) can(1) by (intro exec_read_ok) (simp_all add: wk payment_reads with_uuid_Some)
  then have "createPendingAttempt_body (svc_rt S) businessID invoiceID key ?h w = (Inl ErrPaymentInProgress, wk)"
    by (simp add: create_until_key [OF assms(1-5)] create_rest_def act_try_def act_fail_def flip: wk)
  then have "transaction (createPendingAttempt_body (svc_rt S) businessID invoiceID key ?h) w
      = (Inl ErrPaymentInProgress, wk\<lparr>wdb := wdb w\<rparr>)"
    using assms(2) by (simp add: transaction_ok)
  then show ?thesis
    by (simp add: PayInvoice_def Let_def key_get_none [OF assms(2) can(2) assms(5)] createPendingAttempt_def
        pay_errors_def) (simp add: wk)
qed

subsection \<open>A key and another spelling of the invoice's identifier\<close>

lemma first_use_ends:
  fixes w :: "'p world"
  assumes f: "first_use S b i key v w"
  obtains a k and w' :: "'p world" where "run (PayInvoice S b i key tok) w = (Inr a, w')" and "no_faults w'"
    and "pay_inv (svc_rt S) (wdb w')" and "k \<in> set (idempotency_keys (wdb w'))" and "ik_BusinessID k = b"
    and "ik_IdempotencyKey k = key" and "ik_InvoiceID k = inv_ID v"
proof -
  let ?a = "new_attempt (svc_rt S) v w"
  obtain answer p where psp: "Charge (svc_psp S) (charge_request ?a tok) (wpsp w) = (answer, p)"
    by (cases "Charge (svc_psp S) (charge_request ?a tok) (wpsp w)")
  have rt: "uuid_ok (svc_rt S)" and inv: "pay_inv (svc_rt S) (wdb w)"
    using f by (simp_all add: first_use_def ids_fresh_def)
  have inv': "pay_inv (svc_rt S) (wdb (snd (run (PayInvoice S b i key tok) w)))"
    using payment.guar_run [OF keeps_PayInvoice [OF rt, unfolded keeps_def], of w b i key tok] inv
    by (simp add: pay_I_def)
  obtain w1 where c: "creates (svc_rt S) b i key (hashPayRequest (svc_rt S) i tok) (wclock w) ?a (wdb w) (wdb w1)"
    and s: "can_settle (svc_rt S) ?a w1"
    and r: "run (PayInvoice S b i key tok) w = run (case answer of
         Inl err \<Rightarrow> if IsUnknownOutcome err then Done (Inr ?a) else persistFailure S ?a (err_text (svc_rt S) err)
       | Inr resp \<Rightarrow> if resp_Status resp \<noteq> ''succeeded''
                     then persistFailure S ?a (decline_code (resp_Code resp))
                     else persistSuccess S ?a (resp_PSPRef resp)) w1"
    by (rule first_use_charges [OF f psp])
  have nf: "no_faults w1" using s by (simp add: can_settle_def)
  have fail: "\<exists>a w'. run (persistFailure S ?a code) w1 = (Inr a, w') \<and> no_faults w'
      \<and> set (idempotency_keys (wdb w')) = set (idempotency_keys (wdb w1))" for code
    by (rule persistFailure_ok [OF s, of code]) (auto simp: enqueues_def mark_failure_def)
  have succ: "\<exists>a w'. run (persistSuccess S ?a ref) w1 = (Inr a, w') \<and> no_faults w'
      \<and> set (idempotency_keys (wdb w')) = set (idempotency_keys (wdb w1))" for ref
    by (rule persistSuccess_ok [OF s, of ref])
      (auto simp: persistSuccess_def settles_def enqueues_def mark_success_def)
  have "\<exists>a w'. run (PayInvoice S b i key tok) w = (Inr a, w') \<and> no_faults w'
      \<and> set (idempotency_keys (wdb w')) = set (idempotency_keys (wdb w1))"
    unfolding r using fail succ nf by (auto split: sum.splits)
  then obtain a w' where a: "run (PayInvoice S b i key tok) w = (Inr a, w')" "no_faults w'"
    "set (idempotency_keys (wdb w')) = set (idempotency_keys (wdb w1))" by blast
  from c obtain k where "key_of k ?a" "ik_IdempotencyKey k = key" "ik_BusinessID k = b" "k \<in> set (idempotency_keys (wdb w1))"
    by (auto simp: creates_def key_of_def attempt_of_def)
  with a inv' show thesis by (intro that [of a w' k]) (auto simp: key_of_def new_attempt_def)
qed

text \<open>
  The identifier of the invoice is compared as text. A client that pays with another
  spelling of it than the database's standard one (PostgreSQL accepts several) is served
  the first time; the identical request repeated with the same key is then refused as a
  conflict instead of being replayed.
\<close>

theorem nonstandard_spelling_conflicts:
  assumes "first_use S businessID invoiceID key v w" and "invoiceID \<noteq> inv_ID v"
  shows "\<exists>a w'. run (PayInvoice S businessID invoiceID key cardToken) w = (Inr a, w')
     \<and> run (PayInvoice S businessID invoiceID key cardToken) w' = (Inl ErrIdempotencyConflict, w')"
proof (rule first_use_ends [OF assms(1), of cardToken])
  fix a k w'
  assume r: "run (PayInvoice S businessID invoiceID key cardToken) w = (Inr a, w')" and "no_faults w'"
    and "pay_inv (svc_rt S) (wdb w')" and "k \<in> set (idempotency_keys (wdb w'))" and "ik_BusinessID k = businessID"
    and "ik_IdempotencyKey k = key" and k: "ik_InvoiceID k = inv_ID v"
  then have "run (PayInvoice S businessID invoiceID key cardToken) w' =
      run (replayIdempotentPay S k invoiceID cardToken (hashPayRequest (svc_rt S) invoiceID cardToken)) w'"
    by (intro PayInvoice_used_key)
  with r k assms(2) show ?thesis by (simp add: replayIdempotentPay_def)
qed

subsection \<open>Examples\<close>

definition demo_ready :: "nat world" where
  "demo_ready = snd (serve demo_server demo_setup demo_start)"

lemma demo_ready_tables:
  "payment_attempts (wdb demo_ready) = []" "idempotency_keys (wdb demo_ready) = []"
  "outbound_events (wdb demo_ready) = []" "invoices (wdb demo_ready) = [demo_invoice InvoiceStatusDraft]"
  "map biz_ID (businesses (wdb demo_ready)) = [''u0'']" "wfates demo_ready = []" "wpsp demo_ready = 0"
  "wuuids demo_ready = 4" "wclock demo_ready = 0"
  by code_simp+

lemma business_exists_ids: "business_exists b d \<longleftrightarrow> b \<in> set (map biz_ID (businesses d))"
  by (auto simp: business_exists_def list_ex_iff)

lemma demo_first_use:
  "i = ''u3'' \<or> i = ''U3'' \<Longrightarrow> first_use demo_service ''u0'' i key (demo_invoice InvoiceStatusDraft) demo_ready"
proof -
  have "pay_inv demo_rt (wdb demo_ready)" unfolding demo_ready_def by (rule demo_serve_inv)
  moreover have "business_exists ''u0'' (wdb demo_ready)" by (simp only: business_exists_ids demo_ready_tables) simp
  ultimately show "i = ''u3'' \<or> i = ''U3'' \<Longrightarrow> ?thesis"
    by (auto simp: first_use_def ids_fresh_def demo_ready_tables demo_uuid_ok payable_def own_unpaid_def key_unused_def
        demo_invoice_def unpaid_status_def demo_parse_def)
qed

lemma demo_charge:
  "Charge (svc_psp demo_service) (charge_request a ''tok_success'') n =
     (Inr \<lparr>resp_Status = ''succeeded'', resp_PSPRef = ''ref'', resp_Code = []\<rparr>, Suc n)"
  "Charge (svc_psp demo_service) (charge_request a ''tok_timeout'') n = (Inl ErrTimeout, Suc n)"
  "Charge (svc_psp demo_service) (charge_request a ''tok_declined'') n =
     (Inr \<lparr>resp_Status = ''failed'', resp_PSPRef = [], resp_Code = ''insufficient_funds''\<rparr>, n)"
  by (simp_all add: paymentService_def demo_server_def Charge_def HTTPClient_Charge_def charge_request_def
      charge_http_request_def charge_result_def demo_Send_def demo_Wait_def Let_def isTimeout_def)

theorem accepted_payment_witness:
  "\<exists>a w'. run (PayInvoice demo_service ''u0'' ''u3'' ''k1'' ''tok_success'') demo_ready = (Inr a, w') \<and> wpsp w' = 1
     \<and> att_Status a = PaymentAttemptStatusSucceeded \<and> att_Amount a = 500"
  using accepted_payment [OF demo_first_use [of "''u3''" "''k1''"] demo_charge(1)]
  by (auto simp: demo_ready_tables succeeded_attempt_def new_attempt_def demo_invoice_def)

theorem refused_payment_witness:
  "\<exists>a w'. run (PayInvoice demo_service ''u0'' ''u3'' ''k1'' ''tok_declined'') demo_ready = (Inr a, w') \<and> wpsp w' = 0
     \<and> att_Status a = PaymentAttemptStatusFailed \<and> att_FailureCode a = Some ''insufficient_funds''"
  using refused_payment [OF demo_first_use [of "''u3''" "''k1''"] demo_charge(3), of "''insufficient_funds''"]
  by (auto simp: demo_ready_tables failed_attempt_def new_attempt_def demo_invoice_def failure_of_def decline_code_def)

theorem unknown_outcome_stays_pending_witness:
  "\<exists>a w'. run (PayInvoice demo_service ''u0'' ''u3'' ''k1'' ''tok_timeout'') demo_ready = (Inr a, w') \<and> wpsp w' = 1
     \<and> att_Status a = PaymentAttemptStatusPending \<and> outbound_events (wdb w') = []"
  using unknown_outcome_stays_pending [OF demo_first_use [of "''u3''" "''k1''"] demo_charge(2)]
  by (auto simp: demo_ready_tables IsUnknownOutcome_def)

theorem nonstandard_spelling_conflicts_witness:
  "\<exists>a w'. run (PayInvoice demo_service ''u0'' ''U3'' ''k1'' ''tok_success'') demo_ready = (Inr a, w')
     \<and> run (PayInvoice demo_service ''u0'' ''U3'' ''k1'' ''tok_success'') w' = (Inl ErrIdempotencyConflict, w')"
  by (rule nonstandard_spelling_conflicts [OF demo_first_use]) (simp_all add: demo_invoice_def)

lemma demo_ids_fresh: "ids_fresh demo_rt demo_unknown"
proof -
  have t: "outbound_events (wdb demo_unknown) = []" "wuuids demo_unknown = 6"
    by code_simp+
  have "uuid_New demo_rt n = ''u4'' \<longrightarrow> n = 4" "uuid_New demo_rt n = ''u5'' \<longrightarrow> n = 5" for n
  proof -
    have "show_nat n = ''4'' \<longrightarrow> n = 4" "show_nat n = ''5'' \<longrightarrow> n = 5"
      using parse_show_nat [of n] by (auto simp: parse_digits_def digit_value_def split: if_splits)
    then show "uuid_New demo_rt n = ''u4'' \<longrightarrow> n = 4" "uuid_New demo_rt n = ''u5'' \<longrightarrow> n = 5" by simp_all
  qed
  then show ?thesis
    by (fastforce simp: ids_fresh_def demo_uuid_ok t demo_unknown_attempts demo_keys demo_attempt_def demo_key_def)
qed

text \<open>The attempt whose outcome was unknown, resumed at a provider that now answers.\<close>

definition answering_service :: "nat PaymentService" where
  "answering_service = demo_service\<lparr>svc_psp := \<lparr>psp_send = (\<lambda>req n. (Inr n, Suc n)),
     psp_wait = (\<lambda>call n. (Inr \<lparr>resp_Status = ''succeeded'', resp_PSPRef = ''ref'', resp_Code = []\<rparr>, n))\<rparr>\<rparr>"

theorem replay_resumes_pending_attempt_witness:
  "\<exists>w'. run (PayInvoice answering_service ''u0'' ''u3'' ''k1'' ''tok_timeout'') demo_unknown =
       (Inr (demo_attempt ''u4'' PaymentAttemptStatusSucceeded (Some ''ref'') None), w')
     \<and> map att_ID (payment_attempts (wdb w')) = [''u4''] \<and> wpsp w' = Suc (wpsp demo_unknown)"
proof -
  have "map biz_ID (businesses (wdb demo_unknown)) = [''u0'']" by code_simp
  then have b: "business_exists ''u0'' (wdb demo_unknown)" by (simp only: business_exists_ids) simp
  let ?a = "demo_attempt ''u4'' PaymentAttemptStatusPending None None"
  have c: "Charge (svc_psp answering_service) req n = (Inr \<lparr>resp_Status = ''succeeded'', resp_PSPRef = ''ref'', resp_Code = []\<rparr>, Suc n)"
    for req n by (simp add: answering_service_def Charge_def)
  have rt: "svc_rt answering_service = demo_rt" by (simp add: answering_service_def)
  have k: "used_key demo_rt (demo_key ''u5'' ''k1'' ''u4'' ''tok_timeout'') ''u0'' ''k1'' ''u3'' ''tok_timeout'' (wdb demo_unknown)"
    by (simp add: used_key_def demo_keys demo_key_def hashPayRequest_def)
  have a: "?a \<in> set (payment_attempts (wdb demo_unknown))" "att_ID ?a = ''u4''"
    "att_Status ?a = PaymentAttemptStatusPending" "att_BusinessID ?a = ''u0''"
    by (simp_all add: demo_unknown_attempts demo_attempt_def)
  have "ik_PaymentAttemptID (demo_key ''u5'' ''k1'' ''u4'' ''tok_timeout'') = Some (att_ID ?a)"
    by (simp add: demo_key_def a(2))
  from replay_resumes_pending_attempt [of answering_service, unfolded rt, OF demo_pay_inv(2) demo_no_faults(2) demo_ids_fresh k a(1) this a(3) _ c]
  obtain r w' where r: "run (PayInvoice answering_service ''u0'' ''u3'' ''k1'' ''tok_timeout'') demo_unknown = (Inr r, w')"
    "wpsp w' = Suc (wpsp demo_unknown)" "map att_ID (payment_attempts (wdb w')) = map att_ID (payment_attempts (wdb demo_unknown))"
    "r = succeeded_attempt ?a ''ref''"
    using b by (auto simp: a(4))
  then show ?thesis by (simp add: demo_unknown_attempts demo_attempt_def succeeded_attempt_def)
qed

theorem pending_payment_blocks_witness:
  "\<exists>w'. run (PayInvoice demo_service ''u0'' ''u3'' ''k9'' ''tok_success'') demo_unknown = (Inl ErrPaymentInProgress, w')
     \<and> wdb w' = wdb demo_unknown \<and> wpsp w' = wpsp demo_unknown"
proof (rule pending_payment_blocks [where v = "demo_invoice InvoiceStatusOpen"
      and a = "demo_attempt ''u4'' PaymentAttemptStatusPending None None"])
  have t: "invoices (wdb demo_unknown) = [demo_invoice InvoiceStatusOpen]" "map biz_ID (businesses (wdb demo_unknown)) = [''u0'']"
    by code_simp+
  have "business_exists ''u0'' (wdb demo_unknown)" by (simp only: business_exists_ids t) simp
  then show "own_unpaid (svc_rt demo_service) ''u0'' ''u3'' (demo_invoice InvoiceStatusOpen) (wdb demo_unknown)"
    by (simp add: own_unpaid_def t demo_parse_def demo_invoice_def unpaid_status_def)
  show "ids_fresh (svc_rt demo_service) demo_unknown" using demo_ids_fresh by simp
qed (simp_all add: demo_pay_inv demo_no_faults demo_unknown_attempts demo_keys key_unused_def demo_key_def demo_attempt_def
    demo_invoice_def)

end
