(* ===== verification/Payment_Webhooks.thy ===== *)
theory Payment_Webhooks
  imports Payment_Charge
begin

text \<open>
  The provider's webhooks: what is refused, what is ignored, what settles an attempt, and
  what a lost statement does to them.
\<close>

subsection \<open>Refused and repeated events\<close>

text \<open>The check of a request at the time it is read.\<close>

definition webhook_accepted :: "'p PaymentService \<Rightarrow> string \<Rightarrow> string \<Rightarrow> string \<Rightarrow> string \<Rightarrow> 'p world \<Rightarrow> bool" where
  "webhook_accepted S payload eventID ts sig w \<longleftrightarrow>
     Verify (svc_rt S) (svc_pspWebhookSecret S) eventID ts sig payload (fst (time_Now w)) = None"

text \<open>
  C28. A webhook whose signature or timestamp does not pass the check, whose body does not
  decode, or that lacks an event id or type, fails and changes neither the database nor the
  provider.
\<close>

theorem bad_webhook_changes_nothing:
  assumes "\<not> webhook_accepted S payload eventID ts sig w
     \<or> (case json_webhook (svc_rt S) payload of None \<Rightarrow> True | Some body \<Rightarrow> EventID body = [] \<or> EventType body = [])"
  shows "\<exists>e w'. run (ProcessPSPWebhook S payload eventID ts sig) w = (Inl e, w') \<and> wdb w' = wdb w \<and> wpsp w' = wpsp w"
proof -
  obtain t w1 where t: "time_Now w = (t, w1)" by (cases "time_Now w")
  from time_Now_frame [OF t] assms show ?thesis
    by (auto simp: ProcessPSPWebhook_def t webhook_accepted_def split: option.splits)
qed

theorem bad_webhook_changes_nothing_witness:
  "\<exists>e w'. run (ProcessPSPWebhook demo_service ''x'' ''e1'' ''0'' ''v1=forged'') demo_unknown = (Inl e, w')
     \<and> wdb w' = wdb demo_unknown \<and> wpsp w' = wpsp demo_unknown"
proof (rule bad_webhook_changes_nothing, rule disjI1)
  show "\<not> webhook_accepted demo_service ''x'' ''e1'' ''0'' ''v1=forged'' demo_unknown" by code_simp
qed

lemma webhook_create_duplicate:
  assumes "no_faults w" and "jsonb_ok rt (whe_Payload e)" and "parse_uuid rt (whe_ID e) = Some (whe_ID e)"
    and "r \<in> set (webhook_events (wdb w))" and "whe_EventID r = whe_EventID e"
  shows "exec_stmt (WebhookEventRepository_Create rt e) w = (Inl (DBError UniqueViolation), w)"
proof (rule exec_fail_ok [OF assms(1)])
  have "list_ex (\<lambda>r. whe_EventID r = whe_EventID e) (webhook_events (wdb w))"
    using assms(4,5) by (auto simp: list_ex_iff)
  then show "WebhookEventRepository_Create rt e (wclock w) (wdb w) = Inl UniqueViolation"
    using assms(2,3) by (simp add: WebhookEventRepository_Create_def with_uuid_Some)
qed

text \<open>
  C27. An event is processed once: a delivery of an event whose identifier is stored as
  processed is acknowledged and changes neither the database nor the provider.
\<close>

theorem processed_event_is_ignored:
  assumes "uuid_ok (svc_rt S)" and "no_faults w" and "webhook_accepted S payload eventID ts sig w"
    and "json_webhook (svc_rt S) payload = Some body" and "EventID body \<noteq> []" and "EventType body \<noteq> []"
    and "jsonb_ok (svc_rt S) payload"
    and "find (\<lambda>r. whe_EventID r = EventID body) (webhook_events (wdb w)) = Some r"
    and "whe_Status r = WebhookEventStatusProcessed"
  shows "\<exists>w'. run (ProcessPSPWebhook S payload eventID ts sig) w = (Inr (), w') \<and> wdb w' = wdb w \<and> wpsp w' = wpsp w"
proof -
  obtain t w1 where t: "time_Now w = (t, w1)" by (cases "time_Now w")
  let ?w2 = "w1\<lparr>wuuids := Suc (wuuids w1)\<rparr>"
  have w1: "wdb w1 = wdb w" "wpsp w1 = wpsp w" "wfates w1 = []" using time_Now_frame [OF t] assms(2) by auto
  have r: "r \<in> set (webhook_events (wdb w))" "whe_EventID r = EventID body" using find_in_set [OF assms(8)] by auto
  let ?e = "\<lparr>whe_ID = uuid_New (svc_rt S) (wuuids w1), whe_EventID = EventID body, whe_EventType = EventType body,
      whe_Payload = payload, whe_Status = WebhookEventStatusPending, whe_CreatedAt = time_zero, whe_ProcessedAt = None\<rparr>"
  have c: "exec_stmt (WebhookEventRepository_Create (svc_rt S) ?e) ?w2 = (Inl (DBError UniqueViolation), ?w2)"
    by (rule webhook_create_duplicate [where r = r]) (use w1 r assms(7) uuid_okD(2) [OF assms(1)] in simp_all)
  have g: "exec_stmt (WebhookEventRepository_GetByEventID (svc_rt S) (EventID body)) ?w2 = (Inr r, ?w2)"
    by (rule exec_read_ok) (simp_all add: w1 WebhookEventRepository_GetByEventID_def assms(8))
  have "run (ProcessPSPWebhook S payload eventID ts sig) w = (Inr (), ?w2)"
    using assms(3) by (simp add: ProcessPSPWebhook_def t webhook_accepted_def assms(4-6,9) uuid_Next_def c g isUniqueViolation_def)
  then show ?thesis using w1 by auto
qed

subsection \<open>A success reported by webhook\<close>

lemma exec_delivered:
  assumes "wfates w = [] \<or> (\<exists>fs. wfates w = Delivered # fs)" and "q (wclock w) (wdb w) = Inr (a, d)"
  shows "exec_stmt q w = (Inr a, w\<lparr>wfates := tl (wfates w), wdb := d\<rparr>)"
  using assms by (auto simp: exec_stmt_def next_fate_def)

lemma webhook_create_stmt:
  assumes "jsonb_ok rt (whe_Payload e)" and "parse_uuid rt (whe_ID e) = Some (whe_ID e)"
    and "\<forall>r \<in> set (webhook_events d). whe_ID r \<noteq> whe_ID e \<and> whe_EventID r \<noteq> whe_EventID e"
    and "whe_ProcessedAt e = None"
  shows "WebhookEventRepository_Create rt e now d = Inr (e\<lparr>whe_CreatedAt := now\<rparr>,
    d\<lparr>webhook_events := webhook_events d @ [e\<lparr>whe_CreatedAt := now\<rparr>]\<rparr>)"
  using assms
  by (cases e) (auto simp: WebhookEventRepository_Create_def with_uuid_Some list_ex_iff)

text \<open>A new event about an attempt, on a server whose statements arrive.\<close>

definition new_event :: "'p PaymentService \<Rightarrow> string \<Rightarrow> string \<Rightarrow> string \<Rightarrow> string \<Rightarrow> pspWebhookPayload \<Rightarrow> PaymentAttempt
    \<Rightarrow> 'p world \<Rightarrow> bool" where
  "new_event S payload eventID ts sig body a w \<longleftrightarrow> pay_inv (svc_rt S) (wdb w) \<and> ids_fresh (svc_rt S) w
     \<and> webhook_accepted S payload eventID ts sig w \<and> json_webhook (svc_rt S) payload = Some body
     \<and> EventID body \<noteq> [] \<and> EventType body \<noteq> [] \<and> Data_IdempotencyKey body \<noteq> [] \<and> jsonb_ok (svc_rt S) payload
     \<and> (\<forall>r \<in> set (webhook_events (wdb w)). whe_ID r \<noteq> uuid_New (svc_rt S) (wuuids w) \<and> whe_EventID r \<noteq> EventID body)
     \<and> a \<in> set (payment_attempts (wdb w)) \<and> attempt_pending a \<and> Data_IdempotencyKey body = att_ID a
     \<and> business_exists (att_BusinessID a) (wdb w)"

text \<open>The row stored for the event, and the state after it.\<close>

definition event_row :: "runtime \<Rightarrow> string \<Rightarrow> pspWebhookPayload \<Rightarrow> 'p world \<Rightarrow> WebhookEvent" where
  "event_row rt payload body w =
     \<lparr>whe_ID = uuid_New rt (wuuids w), whe_EventID = EventID body, whe_EventType = EventType body,
      whe_Payload = payload, whe_Status = WebhookEventStatusPending, whe_CreatedAt = wclock w, whe_ProcessedAt = None\<rparr>"

definition stored_event :: "runtime \<Rightarrow> string \<Rightarrow> pspWebhookPayload \<Rightarrow> 'p world \<Rightarrow> 'p world" where
  "stored_event rt payload body w = w\<lparr>wuuids := Suc (wuuids w),
     wdb := (wdb w)\<lparr>webhook_events := webhook_events (wdb w) @ [event_row rt payload body w]\<rparr>\<rparr>"

lemma new_event_processed_from:
  assumes n: "new_event S payload eventID ts sig body a w" and t: "time_Now w = (now, w1)"
    and nf: "wfates w = [] \<or> (\<exists>fs. wfates w = Delivered # fs)"
  shows "run (ProcessPSPWebhook S payload eventID ts sig) w =
    run (processEvent S body (event_row (svc_rt S) payload body w1))
      ((stored_event (svc_rt S) payload body w1)\<lparr>wfates := tl (wfates w)\<rparr>)"
proof -
  from time_Now_frame [OF t] have w1: "wdb w1 = wdb w" "wuuids w1 = wuuids w" "wfates w1 = wfates w" by auto
  let ?e = "(event_row (svc_rt S) payload body w1)\<lparr>whe_CreatedAt := time_zero\<rparr>"
  have rt: "uuid_ok (svc_rt S)" using n by (simp add: new_event_def ids_fresh_def)
  have "WebhookEventRepository_Create (svc_rt S) ?e (wclock w1) (wdb w1) =
      Inr (?e\<lparr>whe_CreatedAt := wclock w1\<rparr>, (wdb w1)\<lparr>webhook_events := webhook_events (wdb w1) @ [?e\<lparr>whe_CreatedAt := wclock w1\<rparr>]\<rparr>)"
    by (rule webhook_create_stmt) (use n uuid_okD(2) [OF rt] in \<open>auto simp: new_event_def w1 event_row_def\<close>)
  then have c: "exec_stmt (WebhookEventRepository_Create (svc_rt S) ?e) (w1\<lparr>wuuids := Suc (wuuids w1)\<rparr>)
      = (Inr (event_row (svc_rt S) payload body w1),
         (stored_event (svc_rt S) payload body w1)\<lparr>wfates := tl (wfates w)\<rparr>)"
    using nf w1(3) by (subst exec_delivered) (auto simp: stored_event_def event_row_def)
  with n show ?thesis
    by (simp add: ProcessPSPWebhook_def t new_event_def webhook_accepted_def uuid_Next_def event_row_def)
qed

text \<open>
  C26. The provider's report of a success settles a pending attempt: the signed event is
  acknowledged, the attempt has succeeded with the reported reference, its invoice is paid,
  the merchant's event is queued, and the webhook is stored as processed.
\<close>

theorem success_webhook_settles:
  assumes "new_event S payload eventID ts sig body a w" and "no_faults w"
    and "EventType body = ''charge.succeeded'' \<or> Data_Status body = ''succeeded''"
  shows "\<exists>w'. run (ProcessPSPWebhook S payload eventID ts sig) w = (Inr (), w') \<and> paid_with a (Data_PSPRef body) (wdb w')
     \<and> (\<exists>x \<in> set (webhook_events (wdb w')). whe_EventID x = EventID body \<and> whe_Status x = WebhookEventStatusProcessed)"
proof -
  obtain t w1 where t: "time_Now w = (t, w1)" by (cases "time_Now w")
  from time_Now_frame [OF t] have w1: "wdb w1 = wdb w" "wuuids w1 = wuuids w" "wfates w1 = []" using assms(2) by auto
  let ?row = "event_row (svc_rt S) payload body w1"
  obtain w2 where w2: "w2 = (stored_event (svc_rt S) payload body w1)\<lparr>wfates := []\<rparr>" by simp
  have start: "run (ProcessPSPWebhook S payload eventID ts sig) w = run (processEvent S body ?row) w2"
    using new_event_processed_from [OF assms(1) t] assms(2) by (simp add: w2)
  have inv2: "pay_inv (svc_rt S) (wdb w2)"
    using assms(1) by (subst pay_inv_frame [of _ "wdb w"]) (simp_all add: w2 stored_event_def w1 new_event_def)
  have s: "can_settle (svc_rt S) a w2"
    using assms(1) inv2 unfolding new_event_def ids_fresh_def can_settle_def
    by (auto simp: w2 stored_event_def w1 business_exists_def)
  have g: "exec_stmt (PaymentAttemptRepository_GetByID (svc_rt S) (att_ID a)) w2 = (Inr a, w2)"
    by (rule attempt_get_ok) (use s in \<open>simp_all add: can_settle_def\<close>)
  obtain w3 where p: "transaction (persistSuccess_body (svc_rt S) a (Data_PSPRef body)) w2
        = (Inr (succeeded_attempt a (Data_PSPRef body)), w3)"
    and paid: "paid_with a (Data_PSPRef body) (wdb w3)" and nf3: "no_faults w3"
    and ev: "webhook_events (wdb w3) = webhook_events (wdb w2)"
    by (rule persistSuccess_done [OF s])
  obtain t4 w4 where t4: "time_Now w3 = (t4, w4)" by (cases "time_Now w3")
  from time_Now_frame [OF t4] have w4: "wdb w4 = wdb w3" "wfates w4 = []" using nf3 by auto
  have rt: "uuid_ok (svc_rt S)" using s by (simp add: can_settle_def)
  let ?d = "(wdb w3)\<lparr>webhook_events := update_where (\<lambda>r. whe_ID r = whe_ID ?row)
      (\<lambda>r. r\<lparr>whe_Status := WebhookEventStatusProcessed, whe_ProcessedAt := Some t4\<rparr>) (webhook_events (wdb w3))\<rparr>"
  have m: "exec_stmt (WebhookEventRepository_MarkProcessed (svc_rt S) (whe_ID ?row) t4) w4 = (Inr (), w4\<lparr>wdb := ?d\<rparr>)"
    by (simp add: exec_stmt_ok w4 WebhookEventRepository_MarkProcessed_def with_uuid_Some event_row_def uuid_okD(2) [OF rt])
  have applied: "run (applyWebhook S body) w2 = (Inr (), w3)"
    using assms(1,3) s by (auto simp: applyWebhook_def new_event_def g persistSuccess_def p can_settle_def)
  have "run (processEvent S body ?row) w2 = (Inr (), w4\<lparr>wdb := ?d\<rparr>)"
    by (simp add: processEvent_def applied act_try_def t4 m)
  moreover have "?row\<lparr>whe_Status := WebhookEventStatusProcessed, whe_ProcessedAt := Some t4\<rparr> \<in> set (webhook_events ?d)"
    by (simp add: ev w2 stored_event_def update_where_def)
  then have "\<exists>x \<in> set (webhook_events ?d). whe_EventID x = EventID body \<and> whe_Status x = WebhookEventStatusProcessed"
    by (rule rev_bexI) (simp add: event_row_def)
  moreover have "paid_with a (Data_PSPRef body) ?d" using paid by (simp add: paid_with_def)
  ultimately show ?thesis unfolding start by auto
qed

definition demo_webhook :: string where
  "demo_webhook = ''u4''"

lemma demo_new_event:
  assumes "fs = [] \<or> fs = [Delivered, LostRequest]"
  shows "new_event demo_service demo_webhook ''e1'' ''0'' (Sign demo_rt DefaultPSPSecret ''e1'' 0 demo_webhook)
     \<lparr>EventID = ''u4'', EventType = ''charge.succeeded'', Data_PSPRef = ''ref'', Data_IdempotencyKey = ''u4'',
      Data_Status = ''succeeded'', Data_Code = []\<rparr>
     (demo_attempt ''u4'' PaymentAttemptStatusPending None None) (demo_unknown\<lparr>wfates := fs\<rparr>)"
proof -
  have t: "map biz_ID (businesses (wdb demo_unknown)) = [''u0'']" "webhook_events (wdb demo_unknown) = []"
    "wticks demo_unknown = []" "wclock demo_unknown = 0"
    by code_simp+
  have "time_Now (demo_unknown\<lparr>wfates := fs\<rparr>) = (0, demo_unknown\<lparr>wfates := fs\<rparr>)"
    using t(3,4) by (simp add: time_Now_def)
  moreover have "Verify demo_rt DefaultPSPSecret ''e1'' ''0'' (Sign demo_rt DefaultPSPSecret ''e1'' 0 demo_webhook)
      demo_webhook 0 = None" by code_simp
  moreover have "svc_pspWebhookSecret demo_service = DefaultPSPSecret"
    by (simp add: paymentService_def demo_server_def env_or_def)
  ultimately have "webhook_accepted demo_service demo_webhook ''e1'' ''0'' (Sign demo_rt DefaultPSPSecret ''e1'' 0 demo_webhook)
      (demo_unknown\<lparr>wfates := fs\<rparr>)" by (simp add: webhook_accepted_def)
  moreover have "business_exists ''u0'' (wdb demo_unknown)" by (simp only: business_exists_ids t) simp
  moreover have "json_webhook demo_rt s = Some \<lparr>EventID = s, EventType = ''charge.succeeded'', Data_PSPRef = ''ref'',
        Data_IdempotencyKey = s, Data_Status = ''succeeded'', Data_Code = []\<rparr>" for s
    by (simp add: demo_rt_def)
  ultimately show ?thesis
    using demo_ids_fresh
    by (simp add: new_event_def t demo_pay_inv demo_unknown_attempts demo_webhook_def demo_attempt_def attempt_pending_def
        ids_fresh_def)
qed

definition processed_row :: WebhookEvent where
  "processed_row = \<lparr>whe_ID = ''u9'', whe_EventID = ''u4'', whe_EventType = ''charge.succeeded'',
     whe_Payload = demo_webhook, whe_Status = WebhookEventStatusProcessed, whe_CreatedAt = 0, whe_ProcessedAt = Some 0\<rparr>"

definition demo_processed :: "nat world" where
  "demo_processed = demo_start\<lparr>wdb := empty_db\<lparr>webhook_events := [processed_row]\<rparr>\<rparr>"

theorem processed_event_is_ignored_witness:
  "\<exists>w'. run (ProcessPSPWebhook demo_service demo_webhook ''e1'' ''0'' (Sign demo_rt DefaultPSPSecret ''e1'' 0 demo_webhook))
        demo_processed = (Inr (), w') \<and> wdb w' = wdb demo_processed \<and> wpsp w' = wpsp demo_processed"
proof -
  have "Verify demo_rt DefaultPSPSecret ''e1'' ''0'' (Sign demo_rt DefaultPSPSecret ''e1'' 0 demo_webhook)
      demo_webhook 0 = None" by code_simp
  then have v: "webhook_accepted demo_service demo_webhook ''e1'' ''0''
      (Sign demo_rt DefaultPSPSecret ''e1'' 0 demo_webhook) demo_processed"
    by (simp add: webhook_accepted_def time_Now_def demo_processed_def demo_start_def paymentService_def demo_server_def
        env_or_def)
  have j: "json_webhook (svc_rt demo_service) demo_webhook = Some \<lparr>EventID = ''u4'', EventType = ''charge.succeeded'',
      Data_PSPRef = ''ref'', Data_IdempotencyKey = ''u4'', Data_Status = ''succeeded'', Data_Code = []\<rparr>"
    by (simp add: demo_rt_def demo_webhook_def)
  show ?thesis
    by (rule processed_event_is_ignored [OF _ _ v j, where r = processed_row])
      (simp_all add: demo_uuid_ok demo_processed_def demo_start_def processed_row_def)
qed

theorem success_webhook_settles_witness:
  "\<exists>w'. run (ProcessPSPWebhook demo_service demo_webhook ''e1'' ''0'' (Sign demo_rt DefaultPSPSecret ''e1'' 0 demo_webhook))
        (demo_unknown\<lparr>wfates := []\<rparr>) = (Inr (), w')
     \<and> paid_with (demo_attempt ''u4'' PaymentAttemptStatusPending None None) ''ref'' (wdb w')"
  using success_webhook_settles [OF demo_new_event [of "[]"]] by auto

text \<open>
  C38. A report can be lost for good. When the query for the event's attempt fails because the
  connection does, \<open>applyWebhook\<close> takes the attempt for unknown: the signed event of a success
  is acknowledged and stored as processed while its attempt is still pending, so that, by
  the deduplication of events, no later delivery of it is looked at.
\<close>

theorem lost_query_swallows_webhook:
  assumes "new_event S payload eventID ts sig body a w" and "wfates w = [Delivered, LostRequest]"
    and "EventType body = ''charge.succeeded''"
  shows "\<exists>w'. run (ProcessPSPWebhook S payload eventID ts sig) w = (Inr (), w') \<and> no_faults w'
     \<and> a \<in> set (payment_attempts (wdb w')) \<and> att_Status a = PaymentAttemptStatusPending
     \<and> outbound_events (wdb w') = outbound_events (wdb w)
     \<and> (\<exists>x. find (\<lambda>r. whe_EventID r = EventID body) (webhook_events (wdb w')) = Some x
           \<and> whe_Status x = WebhookEventStatusProcessed)"
proof -
  obtain t w1 where t: "time_Now w = (t, w1)" by (cases "time_Now w")
  from time_Now_frame [OF t] have w1: "wdb w1 = wdb w" "wuuids w1 = wuuids w" by auto
  let ?row = "event_row (svc_rt S) payload body w1"
  obtain w2 where w2: "w2 = (stored_event (svc_rt S) payload body w1)\<lparr>wfates := [LostRequest]\<rparr>" by simp
  have start: "run (ProcessPSPWebhook S payload eventID ts sig) w = run (processEvent S body ?row) w2"
    using new_event_processed_from [OF assms(1) t] assms(2) by (simp add: w2)
  have g: "exec_stmt (PaymentAttemptRepository_GetByID (svc_rt S) i) w2 = (Inl (DBError ConnLost), w2\<lparr>wfates := []\<rparr>)" for i
    by (simp add: exec_stmt_def next_fate_def w2)
  obtain t4 w4 where t4: "time_Now (w2\<lparr>wfates := []\<rparr>) = (t4, w4)" by (cases "time_Now (w2\<lparr>wfates := []\<rparr>)")
  from time_Now_frame [OF t4] have w4: "wdb w4 = wdb w2" "wfates w4 = []" by auto
  have rt: "uuid_ok (svc_rt S)" using assms(1) by (simp add: new_event_def ids_fresh_def)
  let ?f = "\<lambda>r. r\<lparr>whe_Status := WebhookEventStatusProcessed, whe_ProcessedAt := Some t4\<rparr>"
  let ?d = "(wdb w2)\<lparr>webhook_events := update_where (\<lambda>r. whe_ID r = whe_ID ?row) ?f (webhook_events (wdb w2))\<rparr>"
  have m: "exec_stmt (WebhookEventRepository_MarkProcessed (svc_rt S) (whe_ID ?row) t4) w4 = (Inr (), w4\<lparr>wdb := ?d\<rparr>)"
    by (simp add: exec_stmt_ok w4 WebhookEventRepository_MarkProcessed_def with_uuid_Some event_row_def uuid_okD(2) [OF rt])
  have "run (applyWebhook S body) w2 = (Inr (), w2\<lparr>wfates := []\<rparr>)"
    using assms(1) by (auto simp: applyWebhook_def g new_event_def)
  then have r: "run (processEvent S body ?row) w2 = (Inr (), w4\<lparr>wdb := ?d\<rparr>)"
    by (simp add: processEvent_def act_try_def t4 m)
  have "find (\<lambda>r. whe_EventID r = EventID body) (webhook_events (wdb w)) = None"
    using assms(1) by (auto simp: find_None_iff new_event_def)
  then have "find (\<lambda>r. whe_EventID r = EventID body) (webhook_events ?d) = Some (?f ?row)"
    by (simp add: find_update_where find_append w2 stored_event_def w1) (simp add: event_row_def)
  then show ?thesis
    unfolding start r using assms(1) w4
    by (auto simp: new_event_def w2 stored_event_def w1 attempt_pending_def)
qed

theorem lost_query_swallows_webhook_witness:
  "\<exists>w'. run (ProcessPSPWebhook demo_service demo_webhook ''e1'' ''0'' (Sign demo_rt DefaultPSPSecret ''e1'' 0 demo_webhook))
        (demo_unknown\<lparr>wfates := [Delivered, LostRequest]\<rparr>) = (Inr (), w') \<and> no_faults w'
     \<and> demo_attempt ''u4'' PaymentAttemptStatusPending None None \<in> set (payment_attempts (wdb w'))"
  using lost_query_swallows_webhook [OF demo_new_event [of "[Delivered, LostRequest]"]] by auto

subsection \<open>A failure whose event is lost\<close>

text \<open>
  C39. Failures are not written in a transaction. When the status of the attempt is written
  and the insert of its event is lost, the attempt has failed and no event tells the
  merchant; the retry with the same key is answered from the store and queues none either.
\<close>

theorem lost_insert_loses_failure_event:
  assumes "pay_inv (svc_rt S) (wdb w)" and "a \<in> set (payment_attempts (wdb w))"
    and "att_Status a = PaymentAttemptStatusPending" and "wfates w = [Delivered, LostRequest]"
    and "used_key (svc_rt S) k businessID key invoiceID cardToken (wdb w)"
    and "ik_PaymentAttemptID k = Some (att_ID a)"
  shows "\<exists>e w' r. run (persistFailure S a code) w = (Inl e, w')
     \<and> r \<in> set (payment_attempts (wdb w')) \<and> same_attempt a r \<and> att_Status r = PaymentAttemptStatusFailed
     \<and> \<not> queued a EventTypePaymentFailed (wdb w')
     \<and> run (PayInvoice S businessID invoiceID key cardToken) w' = (Inr r, w')"
proof -
  let ?rt = "svc_rt S"
  have p: "attempt_pending a" using assms(3) by (simp add: attempt_pending_def)
  note can = held_canonical(1) [OF assms(1) held_row [OF assms(1,2)]]
  obtain w2 where w2: "w2 = w\<lparr>wfates := [LostRequest], wdb := mark_failure a code (wclock w) (wdb w)\<rparr>" by simp
  have u: "exec_stmt (PaymentAttemptRepository_UpdateStatusIfPending ?rt (att_ID a) PaymentAttemptStatusFailed None (Some code)) w
      = (Inr True, w2)"
    by (subst exec_delivered [where a = True and d = "mark_failure a code (wclock w) (wdb w)"])
      (use assms(2,4) p in \<open>auto simp: UpdateStatusIfPending_stmt [OF can] mark_failure_def w2\<close>)
  obtain t w3 where t: "time_Now (w2\<lparr>wuuids := Suc (wuuids w2)\<rparr>) = (t, w3)"
    by (cases "time_Now (w2\<lparr>wuuids := Suc (wuuids w2)\<rparr>)")
  have w3: "wdb w3 = mark_failure a code (wclock w) (wdb w)" "wfates w3 = [LostRequest]"
    using time_Now_frame [OF t] by (auto simp: w2)
  have q: "enqueueOutboundEvent ?rt (failed_attempt a code) EventTypePaymentFailed w2
      = (Inl (DBError ConnLost), w3\<lparr>wfates := []\<rparr>)"
    by (simp add: enqueueOutboundEvent_def act_try_def uuid_Next_def t exec_stmt_def next_fate_def w3)
  let ?w = "w3\<lparr>wfates := []\<rparr>"
  let ?r = "a\<lparr>att_Status := PaymentAttemptStatusFailed, att_PSPTransactionID := None, att_FailureCode := Some code,
            att_UpdatedAt := wclock w\<rparr>"
  have r: "?r \<in> set (payment_attempts (wdb ?w))" using mark_failure_row [OF assms(2) p] by (simp add: w3)
  have inv: "pay_inv ?rt (wdb ?w)" using mark_failure_pay_inv [OF assms(1)] by (simp add: w3)
  have k: "used_key ?rt k businessID key invoiceID cardToken (wdb ?w)"
    using assms(5) by (simp add: used_key_def w3 mark_failure_def)
  have g: "exec_stmt (PaymentAttemptRepository_GetByID ?rt (att_ID a)) ?w = (Inr ?r, ?w)"
    using attempt_get_ok [OF inv _ r] by simp
  have "run (PayInvoice S businessID invoiceID key cardToken) ?w = (Inr ?r, ?w)"
    using k inv assms(6) g
    by (simp add: PayInvoice_used_key [where k = k] used_key_def replayIdempotentPay_def)
  moreover have "\<not> queued a EventTypePaymentFailed (wdb ?w)"
    using pending_not_queued [OF assms(1,2) p refl] by (simp add: queued_def w3 mark_failure_def)
  moreover have "run (persistFailure S a code) w = (Inl (DBError ConnLost), ?w)"
    by (simp add: persistFailure_def u q)
  ultimately show ?thesis using r by (intro exI [of _ "DBError ConnLost"] exI [of _ ?w] exI [of _ ?r])
      (simp add: same_attempt_def)
qed

theorem lost_insert_loses_failure_event_witness:
  "\<exists>e w' r. run (persistFailure demo_service (demo_attempt ''u4'' PaymentAttemptStatusPending None None) ''card_declined'')
        (demo_unknown\<lparr>wfates := [Delivered, LostRequest]\<rparr>) = (Inl e, w')
     \<and> att_Status r = PaymentAttemptStatusFailed
     \<and> run (PayInvoice demo_service ''u0'' ''u3'' ''k1'' ''tok_timeout'') w' = (Inr r, w')"
  using lost_insert_loses_failure_event [of demo_service "demo_unknown\<lparr>wfates := [Delivered, LostRequest]\<rparr>"
      "demo_attempt ''u4'' PaymentAttemptStatusPending None None" "demo_key ''u5'' ''k1'' ''u4'' ''tok_timeout''"
      "''u0''" "''k1''" "''u3''" "''tok_timeout''" "''card_declined''"]
  by (auto simp: demo_pay_inv demo_unknown_attempts used_key_def demo_keys demo_key_def demo_attempt_def hashPayRequest_def)

end
