(* ===== verification/Signature_Facts.thy ===== *)
theory Signature_Facts
  imports Signature
begin

text \<open>What the check of a webhook signature accepts.\<close>

subsection \<open>Acceptance\<close>

lemma Verify_None:
  "Verify rt secret eventID ts sig body now = None \<longleftrightarrow>
     (\<exists>unixTs. ParseInt64 ts = Some unixTs \<and> clock_skew now unixTs \<le> ReplayWindow
        \<and> Sign rt secret eventID (time_Unix unixTs) body = sig)"
  by (auto simp: Verify_def split: option.splits if_splits)

lemma ParseInt64_in_int64: "ParseInt64 s = Some i \<Longrightarrow> in_int64 i"
  by (auto simp: ParseInt64_def Let_def split: list.splits if_splits option.splits)

lemma Sign_Verify:
  assumes "in_int64 (t div second + unixToInternal)" and "in_int64 (t div second)"
    and "\<bar>now - (t div second) * second\<bar> \<le> ReplayWindow"
  shows "Verify rt secret eventID (show_int (unix_of t)) (Sign rt secret eventID t body) body now = None"
proof -
  let ?s = "t div second"
  have u: "unix_of t = ?s" using assms(2) by (simp add: unix_of_def wrap64_id)
  have "ReplayWindow = 300000000000" by (simp add: ReplayWindow_def minute_def second_def)
  with assms(3) have "in_int64 (now - ?s * second)" and "now - ?s * second \<noteq> min_int64"
    by (auto simp: int64_defs)
  with assms(1,3) have "clock_skew now ?s \<le> ReplayWindow" by (simp add: clock_skew_exact)
  moreover have "Sign rt secret eventID (time_Unix ?s) body = Sign rt secret eventID t body"
    by (simp add: Sign_def unix_of_time_Unix [OF assms(2)] u)
  ultimately show ?thesis by (simp add: Verify_None u parse_show_int [OF assms(2)])
qed

definition plain_rt :: runtime where
  "plain_rt = \<lparr>sha256_hex = (\<lambda>s. s), hmac_sha256_hex = (\<lambda>k m. k @ m), uuid_New = show_nat,
     rand_hex = show_nat, parse_uuid = Some, jsonb_ok = (\<lambda>_. True), json_webhook = (\<lambda>_. None),
     payload_text = pl_id, driver_text = (\<lambda>_. []), unicode_trim = (\<lambda>s. s), unicode_upper = (\<lambda>s. s)\<rparr>"

text \<open>
  C29. What is accepted was signed and is recent: when the check passes, the header is a
  64-bit number of seconds, the signature is the keyed hash of the identifier, that number
  and the body, and, unless the distance between the clocks overflows, the number lies
  within five minutes of the time of the check.
\<close>

theorem verified_was_signed:
  assumes "Verify rt secret eventID ts sig body now = None"
  shows "\<exists>unixTs. ParseInt64 ts = Some unixTs \<and> in_int64 unixTs
     \<and> sig = ''v1='' @ hmac_sha256_hex rt secret (signedPayload eventID unixTs body)
     \<and> (in_int64 (unixTs + unixToInternal) \<and> in_int64 (now - unixTs * second) \<and> now - unixTs * second \<noteq> min_int64 \<longrightarrow>
           \<bar>now - unixTs * second\<bar> \<le> 300 * second)"
proof -
  from assms obtain u where u: "ParseInt64 ts = Some u" "clock_skew now u \<le> ReplayWindow"
      "Sign rt secret eventID (time_Unix u) body = sig"
    by (auto simp: Verify_None)
  note i = ParseInt64_in_int64 [OF u(1)]
  from u(3) have "sig = ''v1='' @ hmac_sha256_hex rt secret (signedPayload eventID u body)"
    by (simp add: Sign_def unix_of_time_Unix [OF i])
  moreover have "\<bar>now - u * second\<bar> \<le> 300 * second"
    if "in_int64 (u + unixToInternal)" "in_int64 (now - u * second)" "now - u * second \<noteq> min_int64"
    using u(2) clock_skew_exact [OF that] by (simp add: ReplayWindow_def minute_def)
  ultimately show ?thesis using u(1) i by blast
qed

theorem verified_was_signed_witness:
  "\<exists>unixTs. ParseInt64 ''100'' = Some unixTs \<and> \<bar>100000000000 - unixTs * second\<bar> \<le> 300 * second"
proof -
  have v: "Verify plain_rt ''k'' ''evt'' ''100'' (''v1=kevt.100.x'') ''x'' 100000000000 = None" by code_simp
  have "ParseInt64 ''100'' = Some 100" by code_simp
  with verified_was_signed [OF v] show ?thesis
    by (auto simp: int64_defs second_def unixToInternal_def)
qed

subsection \<open>The window overflows\<close>

text \<open>
  The replay window has a hole. The distance of a timestamp more than about 292 years
  ahead does not fit a \<open>time.Duration\<close>: it saturates at the least value, whose negation is
  itself, so the check sees a negative distance. A signature over such a timestamp is
  accepted at any time, and can be replayed for ever.
\<close>

lemma far_future_is_never_stale:
  assumes "in_int64 (unixTs + unixToInternal)" and "now - unixTs * second \<le> min_int64"
    and "ParseInt64 ts = Some unixTs"
  shows "Verify rt secret eventID ts (Sign rt secret eventID (time_Unix unixTs) body) body now = None"
proof -
  have "time_Sub now (time_Unix unixTs) = min_int64"
    using assms(2) by (simp add: time_Sub_def time_Unix_exact [OF assms(1)] sat64_low)
  then have "clock_skew now unixTs = (if min_int64 < 0 then wrap64 (- min_int64) else min_int64)"
    by (simp add: clock_skew_def Let_def)
  then have "clock_skew now unixTs = min_int64" using wrap64_neg_min by simp
  moreover have "min_int64 \<le> ReplayWindow" by (simp add: min_int64_def ReplayWindow_def minute_def second_def)
  ultimately show ?thesis using assms(3) by (simp add: Verify_None)
qed

subsection \<open>The signed text\<close>

text \<open>
  C37. The signed text determines what was signed, as long as event identifiers have no dot
  in them: two texts are the same exactly when their identifiers, timestamps and bodies are.
\<close>

theorem signedPayload_inject:
  assumes "CHR ''.'' \<notin> set eventID" and "CHR ''.'' \<notin> set eventID'" and "in_int64 t" and "in_int64 t'"
  shows "signedPayload eventID t body = signedPayload eventID' t' body' \<longleftrightarrow> eventID = eventID' \<and> t = t' \<and> body = body'"
proof
  assume "signedPayload eventID t body = signedPayload eventID' t' body'"
  then have "eventID @ CHR ''.'' # (show_int t @ CHR ''.'' # body)
      = eventID' @ CHR ''.'' # (show_int t' @ CHR ''.'' # body')"
    by (simp add: signedPayload_def)
  from append_sep_inject [OF this assms(1,2)] have "eventID = eventID'"
    and "show_int t @ CHR ''.'' # body = show_int t' @ CHR ''.'' # body'" by simp_all
  with append_sep_inject [OF this(2) show_int_no_dot show_int_no_dot] show_int_inject [OF assms(3,4)]
  show "eventID = eventID' \<and> t = t' \<and> body = body'" by simp
qed simp

text \<open>The same digits and dots, cut at different places, are signed differently.\<close>

theorem signedPayload_inject_witness:
  "signedPayload ''evt1'' 2 ''3.4'' \<noteq> signedPayload ''evt1'' 23 ''4''
     \<and> signedPayload ''evt1'' 2 ''3.4'' \<noteq> signedPayload ''evt12'' 3 ''4''"
  using signedPayload_inject [of "''evt1''" "''evt1''" 2 23 "''3.4''" "''4''"]
    signedPayload_inject [of "''evt1''" "''evt12''" 2 3 "''3.4''" "''4''"]
  by (simp add: int64_defs)

text \<open>
  With a dot in the identifier it does not: two different events, with different
  timestamps, have the same signed text and so the same signature.
\<close>

theorem signedPayload_ambiguous:
  "Sign rt secret ''evt.1'' (time_Unix 2) ''x'' = Sign rt secret ''evt'' (time_Unix 1) ''2.x''"
proof -
  have "unix_of (time_Unix 2) = 2" and "unix_of (time_Unix 1) = 1"
    by (simp_all add: unix_of_time_Unix int64_defs)
  moreover have "signedPayload ''evt.1'' 2 ''x'' = signedPayload ''evt'' 1 ''2.x''" by code_simp
  ultimately show ?thesis by (simp add: Sign_def)
qed

end
