(* ===== verification/Delivery.thy ===== *)
theory Delivery
  imports Dispatcher Signature_Facts
begin

text \<open>
  Delivery to the merchants: the schedule of attempts, what a claim takes, and how the
  outcome of an attempt is recorded.
\<close>

subsection \<open>The schedule\<close>

text \<open>The waits after the failures \<open>1, ..., n\<close>.\<close>

definition waited :: "nat \<Rightarrow> int" where
  "waited n = sum_list (map (\<lambda>k. fst (NextRetryAt (int k) 0)) [1..<Suc n])"

text \<open>
  C34. The schedule is the documented one: seven failures are each followed by another
  attempt, later than the one before, 8 hours, 42 minutes and 30 seconds in all; the eighth
  failure is the last.
\<close>

theorem retry_schedule:
  "(\<forall>n \<in> {1..7}. \<forall>now. NextRetryAt (int n) now = (now + fst (NextRetryAt (int n) 0), True))
     \<and> map (\<lambda>k. fst (NextRetryAt (int k) 0)) [1..<8] =
         map (\<lambda>s. s * second) [5, 25, 120, 600, 1800, 7200, 21600]
     \<and> waited 7 = 8 * hour + 42 * minute + 30 * second
     \<and> (\<forall>n \<ge> 8. \<forall>now. \<not> snd (NextRetryAt n now))"
proof (intro conjI)
  show m: "map (\<lambda>k. fst (NextRetryAt (int k) 0)) [1..<8] = map (\<lambda>s. s * second) [5, 25, 120, 600, 1800, 7200, 21600]"
    by code_simp
  show "waited 7 = 8 * hour + 42 * minute + 30 * second" by code_simp
  show "\<forall>n \<in> {1..7}. \<forall>now. NextRetryAt (int n) now = (now + fst (NextRetryAt (int n) 0), True)"
    by (auto simp: NextRetryAt_def MaxAttempts_def BackoffAfterFailure_def)
  show "\<forall>n \<ge> 8. \<forall>now. \<not> snd (NextRetryAt n now)"
    by (simp add: NextRetryAt_def MaxAttempts_def)
qed

theorem retry_schedule_witness:
  "NextRetryAt 3 1000 = (1000 + fst (NextRetryAt 3 0), True) \<and> \<not> snd (NextRetryAt 8 0)"
proof -
  note last = conjunct2 [OF conjunct2 [OF conjunct2 [OF retry_schedule]]]
  have "(3 :: nat) \<in> {1..7}" by simp
  from spec [OF bspec [OF conjunct1 [OF retry_schedule] this], of 1000]
  have "NextRetryAt 3 1000 = (1000 + fst (NextRetryAt 3 0), True)" unfolding of_nat_numeral .
  then show ?thesis using last by blast
qed

subsection \<open>Claiming\<close>

definition claim_one :: "OutboundEvent \<Rightarrow> OutboundEvent" where
  "claim_one r = r\<lparr>evt_Status := OutboundEventStatusDelivering\<rparr>"

lemma length_filter_ids:
  assumes "distinct (map evt_ID rs)" and "set ids \<subseteq> evt_ID ` set rs" and "distinct ids"
  shows "length (filter (\<lambda>r. evt_ID r \<in> set ids) rs) = length ids"
proof -
  have "distinct (map evt_ID (filter (\<lambda>r. evt_ID r \<in> set ids) rs))" using assms(1) by (rule distinct_map_filter)
  then have "length (filter (\<lambda>r. evt_ID r \<in> set ids) rs) = card (evt_ID ` set (filter (\<lambda>r. evt_ID r \<in> set ids) rs))"
    by (metis distinct_card length_map list.set_map)
  also have "evt_ID ` set (filter (\<lambda>r. evt_ID r \<in> set ids) rs) = set ids" using assms(2) by auto
  also have "card (set ids) = length ids" using assms(3) by (rule distinct_card)
  finally show ?thesis .
qed

lemma due_ids_props:
  assumes "distinct (map evt_ID rs)"
  shows "set (due_ids limit t rs) \<subseteq> evt_ID ` {r \<in> set rs. event_due t r}" and "distinct (due_ids limit t rs)"
    and "length (due_ids limit t rs) \<le> limit"
proof -
  let ?s = "sort_key evt_NextRetryAt (filter (event_due t) rs)"
  have "distinct (map evt_ID (filter (event_due t) rs))" using assms by (rule distinct_map_filter)
  then have d: "distinct (map evt_ID ?s)" by (simp add: distinct_map)
  then show "distinct (due_ids limit t rs)" unfolding due_ids_def take_map [symmetric] by (rule distinct_take)
  show "set (due_ids limit t rs) \<subseteq> evt_ID ` {r \<in> set rs. event_due t r}"
    using set_take_subset [of limit ?s] by (auto simp: due_ids_def)
  show "length (due_ids limit t rs) \<le> limit" by (simp add: due_ids_def)
qed

text \<open>
  C33. A claim takes what is due and nothing else: it returns at most the batch, every event it
  returns was pending and due, was in the table, and is now marked as being delivered; the
  others are unchanged; and no due event is left over unless the batch is full.
\<close>

theorem claim_takes_what_is_due:
  assumes "distinct (map evt_ID (outbound_events d))"
    and "OutboundEventRepository_ClaimDue limit t now d = Inr (claimed, d')"
  shows "length claimed \<le> limit
     \<and> (\<forall>e \<in> set claimed. \<exists>r \<in> set (outbound_events d). e = claim_one r \<and> e \<in> set (outbound_events d')
           \<and> evt_Status r = OutboundEventStatusPending \<and> evt_NextRetryAt r \<le> t)
     \<and> (\<forall>r \<in> set (outbound_events d). evt_ID r \<notin> evt_ID ` set claimed \<longrightarrow> r \<in> set (outbound_events d'))
     \<and> map evt_ID (outbound_events d') = map evt_ID (outbound_events d)
     \<and> (length claimed < limit \<longrightarrow> (\<forall>r \<in> set (outbound_events d'). \<not> event_due t r))"
proof -
  let ?rs = "outbound_events d"
  let ?ids = "due_ids limit t ?rs"
  note props = due_ids_props [OF assms(1), of limit t]
  have ids: "set ?ids \<subseteq> evt_ID ` set ?rs" using props(1) by auto
  from assms(2) have c: "claimed = map claim_one (filter (\<lambda>r. evt_ID r \<in> set ?ids) ?rs)"
    and d': "outbound_events d' = update_where (\<lambda>r. evt_ID r \<in> set ?ids) claim_one ?rs"
    by (auto simp: OutboundEventRepository_ClaimDue_def Let_def claim_one_def [abs_def])
  have id [simp]: "evt_ID (claim_one r) = evt_ID r" for r by (simp add: claim_one_def)
  have len: "length claimed = length ?ids" using length_filter_ids [OF assms(1) ids props(2)] by (simp add: c)
  have due: "event_due t r" if "r \<in> set ?rs" "evt_ID r \<in> set ?ids" for r
  proof -
    from that(2) props(1) obtain x where x: "x \<in> set ?rs" "event_due t x" "evt_ID x = evt_ID r" by fastforce
    with distinct_map_unique [OF assms(1) x(1) that(1)] show ?thesis by simp
  qed
  have cids: "evt_ID ` set claimed = set ?ids" using ids by (auto simp: c image_image)
  have all: "\<not> event_due t x" if "length claimed < limit" "x \<in> set (outbound_events d')" for x
  proof
    assume x: "event_due t x"
    then have "x \<in> set ?rs" "evt_ID x \<notin> set ?ids"
      using that(2) by (auto simp: d' rows claim_one_def event_due_def)
    moreover have "due_ids limit t ?rs = map evt_ID (sort_key evt_NextRetryAt (filter (event_due t) ?rs))"
      using that(1) unfolding len by (simp add: due_ids_def)
    ultimately show False using x by auto
  qed
  show ?thesis
  proof (intro conjI ballI impI)
    show "length claimed \<le> limit" using len props(3) by simp
    show "map evt_ID (outbound_events d') = map evt_ID ?rs" unfolding d' by (rule map_update_where) simp
    show "r \<in> set (outbound_events d')" if "r \<in> set ?rs" "evt_ID r \<notin> evt_ID ` set claimed" for r
      using that by (simp add: cids d' rows)
    show "\<exists>r \<in> set ?rs. e = claim_one r \<and> e \<in> set (outbound_events d')
           \<and> evt_Status r = OutboundEventStatusPending \<and> evt_NextRetryAt r \<le> t" if "e \<in> set claimed" for e
      using that due by (auto simp: c d' rows event_due_def intro!: bexI)
    show "\<not> event_due t x" if "length claimed < limit" "x \<in> set (outbound_events d')" for x
      using all that by blast
  qed
qed

definition sample_event :: "string \<Rightarrow> OutboundEventStatus \<Rightarrow> int \<Rightarrow> time \<Rightarrow> OutboundEvent" where
  "sample_event i st n t = \<lparr>evt_ID = i, evt_BusinessID = ''b'', evt_SourceID = i, evt_EventType = EventTypePaymentSucceeded,
     evt_Payload = \<lparr>pl_id = i, pl_type = [], pl_payment_attempt_id = i, pl_invoice_id = [], pl_business_id = ''b'',
       pl_amount = 1, pl_currency = [], pl_status = PaymentAttemptStatusSucceeded, pl_psp_transaction_id = None,
       pl_failure_code = None\<rparr>, evt_Status = st, evt_AttemptCount = n, evt_NextRetryAt = t, evt_LastError = None,
     evt_CreatedAt = 0, evt_DeliveredAt = None\<rparr>"

definition sample_db :: db where
  "sample_db = empty_db\<lparr>outbound_events :=
     [sample_event ''e1'' OutboundEventStatusPending 0 5, sample_event ''e2'' OutboundEventStatusPending 0 3,
      sample_event ''e3'' OutboundEventStatusDelivering 0 1, sample_event ''e4'' OutboundEventStatusPending 0 9]\<rparr>"

theorem claim_takes_what_is_due_witness:
  "\<exists>claimed d'. OutboundEventRepository_ClaimDue 1 6 0 sample_db = Inr (claimed, d')
     \<and> map evt_ID claimed = [''e2''] \<and> length claimed \<le> 1"
proof -
  obtain claimed d' where q: "OutboundEventRepository_ClaimDue 1 6 0 sample_db = Inr (claimed, d')"
    by (simp add: OutboundEventRepository_ClaimDue_def Let_def)
  have "map_option (\<lambda>(c, d). map evt_ID c) (case OutboundEventRepository_ClaimDue 1 6 0 sample_db of
      Inl _ \<Rightarrow> None | Inr x \<Rightarrow> Some x) = Some [''e2'']" by code_simp
  moreover have "distinct (map evt_ID (outbound_events sample_db))" by code_simp
  from claim_takes_what_is_due [OF this q] have "length claimed \<le> 1" by simp
  ultimately show ?thesis using q by auto
qed

text \<open>
  An event that is marked as being delivered is not claimed, however long it has been
  due: no claim returns it or changes its row. If the process stops between the claim and the
  record of its outcome, later polls pass the event over.
\<close>

theorem delivering_is_not_reclaimed:
  assumes "distinct (map evt_ID (outbound_events d))"
    and "e \<in> set (outbound_events d)" and "evt_Status e = OutboundEventStatusDelivering"
    and "OutboundEventRepository_ClaimDue limit t now d = Inr (claimed, d')"
  shows "e \<in> set (outbound_events d') \<and> evt_ID e \<notin> evt_ID ` set claimed"
proof -
  let ?rs = "outbound_events d"
  have "evt_ID e \<notin> set (due_ids limit t ?rs)"
  proof
    assume "evt_ID e \<in> set (due_ids limit t ?rs)"
    with due_ids_props(1) [OF assms(1), of limit t] obtain x where
      x: "x \<in> set ?rs" "event_due t x" "evt_ID x = evt_ID e" by fastforce
    with distinct_map_unique [OF assms(1) x(1) assms(2)] assms(3) show False by (simp add: event_due_def)
  qed
  then show ?thesis
    using assms(2,4) by (auto simp: OutboundEventRepository_ClaimDue_def Let_def rows)
qed

theorem delivering_is_not_reclaimed_witness:
  "\<exists>claimed d'. OutboundEventRepository_ClaimDue 10 1000000 0 sample_db = Inr (claimed, d')
     \<and> sample_event ''e3'' OutboundEventStatusDelivering 0 1 \<in> set (outbound_events d')"
proof -
  obtain claimed d' where q: "OutboundEventRepository_ClaimDue 10 1000000 0 sample_db = Inr (claimed, d')"
    by (simp add: OutboundEventRepository_ClaimDue_def Let_def)
  have "distinct (map evt_ID (outbound_events sample_db))" by code_simp
  from delivering_is_not_reclaimed [OF this _ _ q, of "sample_event ''e3'' OutboundEventStatusDelivering 0 1"] q
  show ?thesis by (simp add: sample_db_def) (simp add: sample_event_def)
qed

subsection \<open>Recording the outcome\<close>

text \<open>An event as the dispatcher holds it: a row of the table, whose identifiers are unique and standard.\<close>

definition claimed_event :: "runtime \<Rightarrow> OutboundEvent \<Rightarrow> 'p world \<Rightarrow> bool" where
  "claimed_event rt e w \<longleftrightarrow> wfates w = [] \<and> e \<in> set (outbound_events (wdb w))
     \<and> distinct (map evt_ID (outbound_events (wdb w))) \<and> parse_uuid rt (evt_ID e) = Some (evt_ID e)"

text \<open>Only the row of the event changes, and it becomes the one given.\<close>

definition event_becomes :: "OutboundEvent \<Rightarrow> OutboundEvent \<Rightarrow> db \<Rightarrow> db \<Rightarrow> bool" where
  "event_becomes e r d d' \<longleftrightarrow>
     outbound_events d' = map (\<lambda>x. if x = e then r else x) (outbound_events d)"

lemma update_one:
  assumes "distinct (map evt_ID rs)" and "e \<in> set rs"
  shows "update_where (\<lambda>x. evt_ID x = evt_ID e) f rs = map (\<lambda>x. if x = e then f e else x) rs"
  using distinct_map_unique [OF assms(1) _ assms(2)] by (auto simp: update_where_def)

lemma exec_mark:
  assumes "claimed_event rt e w" and "wdb w' = wdb w" and "wfates w' = []"
    and "\<And>t d. q t d = with_uuid rt (evt_ID e) (\<lambda>k. Inr ((), d\<lparr>outbound_events :=
            update_where (\<lambda>x. evt_ID x = k) f (outbound_events d)\<rparr>))"
  shows "\<exists>d. exec_stmt q w' = (Inr (), w'\<lparr>wdb := d\<rparr>) \<and> event_becomes e (f e) (wdb w) d \<and> businesses d = businesses (wdb w)"
  using assms update_one [of "outbound_events (wdb w)" e f]
  by (intro exI [of _ "(wdb w)\<lparr>outbound_events := map (\<lambda>x. if x = e then f e else x) (outbound_events (wdb w))\<rparr>"])
    (simp add: claimed_event_def exec_stmt_ok with_uuid_Some event_becomes_def)

text \<open>
  C32. A failed delivery is counted and either rescheduled or given up: after the failures
  one to seven the event is pending again, due later than now by the schedule's wait; after
  the eighth it is dead. Its error is kept, and no other event changes.
\<close>

theorem failure_is_recorded:
  assumes "claimed_event (wd_rt D) e w" and "0 \<le> evt_AttemptCount e"
  shows "\<exists>r w'. run (recordFailure D e reason) w = (Inr (), w') \<and> event_becomes e r (wdb w) (wdb w')
     \<and> evt_ID r = evt_ID e \<and> evt_AttemptCount r = evt_AttemptCount e + 1 \<and> evt_LastError r = Some reason
     \<and> (if evt_AttemptCount e < 7
         then evt_Status r = OutboundEventStatusPending \<and> evt_NextRetryAt r > fst (time_Now w)
         else evt_Status r = OutboundEventStatusFailed)"
proof -
  obtain t w1 where t: "time_Now w = (t, w1)" by (cases "time_Now w")
  from time_Now_frame [OF t] assms(1) have w1: "wdb w1 = wdb w" "wfates w1 = []" by (auto simp: claimed_event_def)
  let ?n = "evt_AttemptCount e + 1"
  obtain nxt ok where n: "NextRetryAt ?n t = (nxt, ok)" by (cases "NextRetryAt ?n t")
  have ok: "ok \<longleftrightarrow> evt_AttemptCount e < 7" using NextRetryAt_ok [of ?n t] n by (simp add: MaxAttempts_def)
  show ?thesis
  proof (cases ok)
    case False
    obtain d where d: "exec_stmt (OutboundEventRepository_MarkFailed (wd_rt D) (evt_ID e) ?n reason) w1 = (Inr (), w1\<lparr>wdb := d\<rparr>)"
      "event_becomes e (e\<lparr>evt_Status := OutboundEventStatusFailed, evt_AttemptCount := ?n, evt_LastError := Some reason\<rparr>)
          (wdb w) d"
      using exec_mark [OF assms(1) w1, of "OutboundEventRepository_MarkFailed (wd_rt D) (evt_ID e) ?n reason"]
      by (auto simp: OutboundEventRepository_MarkFailed_def)
    with False ok t n show ?thesis
      by (intro exI [of _ "e\<lparr>evt_Status := OutboundEventStatusFailed, evt_AttemptCount := ?n, evt_LastError := Some reason\<rparr>"]
          exI [of _ "w1\<lparr>wdb := d\<rparr>"]) (simp add: recordFailure_def Let_def)
  next
    case True
    let ?r = "e\<lparr>evt_Status := OutboundEventStatusPending, evt_AttemptCount := ?n, evt_NextRetryAt := nxt,
        evt_LastError := Some reason\<rparr>"
    obtain d where d: "exec_stmt (OutboundEventRepository_MarkRetry (wd_rt D) (evt_ID e) ?n nxt reason) w1 = (Inr (), w1\<lparr>wdb := d\<rparr>)"
      "event_becomes e ?r (wdb w) d"
      using exec_mark [OF assms(1) w1, of "OutboundEventRepository_MarkRetry (wd_rt D) (evt_ID e) ?n nxt reason"]
      by (auto simp: OutboundEventRepository_MarkRetry_def)
    have "BackoffAfterFailure ! nat (?n - 1) \<in> set BackoffAfterFailure"
      using True ok assms(2) by (intro nth_mem) (simp add: BackoffAfterFailure_def)
    then have "nxt > t"
      using n True ok assms(2) BackoffAfterFailure_pos by (auto simp: NextRetryAt_def split: if_splits)
    with d True ok t n show ?thesis
      by (intro exI [of _ ?r] exI [of _ "w1\<lparr>wdb := d\<rparr>"]) (simp add: recordFailure_def Let_def)
  qed
qed

definition sample_dispatcher :: "nat WebhookDispatcher" where
  "sample_dispatcher = \<lparr>wd_rt = plain_rt,
     wd_http = \<lparr>mch_new_request_error = (\<lambda>_. None), mch_Do = (\<lambda>req n. (Inr 200, Suc n))\<rparr>\<rparr>"

definition sample_business :: Business where
  "sample_business = \<lparr>biz_ID = ''b'', biz_Name = ''shop'', biz_WebhookURL = Some ''http://shop'',
     biz_WebhookSecret = ''secret'', biz_CreatedAt = 0\<rparr>"

definition sample_world :: "nat world" where
  "sample_world = \<lparr>wdb = sample_db\<lparr>businesses := [sample_business]\<rparr>, wfates = [], wclock = 100, wticks = [],
     wuuids = 0, wrands = 0, wpsp = 0\<rparr>"

definition sample_claimed :: OutboundEvent where
  "sample_claimed = sample_event ''e3'' OutboundEventStatusDelivering 0 1"

lemma sample_is_claimed: "claimed_event (wd_rt sample_dispatcher) sample_claimed sample_world"
proof -
  have "distinct (map evt_ID (outbound_events (wdb sample_world)))" by code_simp
  then show ?thesis
    by (simp add: claimed_event_def sample_dispatcher_def plain_rt_def)
      (simp add: sample_world_def sample_db_def sample_claimed_def)
qed

theorem failure_is_recorded_witness:
  "\<exists>r w'. run (recordFailure sample_dispatcher sample_claimed ''http 500'') sample_world = (Inr (), w')
     \<and> event_becomes sample_claimed r (wdb sample_world) (wdb w')
     \<and> evt_Status r = OutboundEventStatusPending \<and> evt_NextRetryAt r > 100"
proof -
  have "0 \<le> evt_AttemptCount sample_claimed" and n: "evt_AttemptCount sample_claimed < 7"
    and t: "fst (time_Now sample_world) = 100"
    by (simp_all add: sample_claimed_def sample_event_def sample_world_def time_Now_def)
  from failure_is_recorded [OF sample_is_claimed this(1), of "''http 500''"] n t show ?thesis by auto
qed

text \<open>One delivery that is answered with a 2xx status.\<close>

definition delivered_at :: "time \<Rightarrow> OutboundEvent \<Rightarrow> OutboundEvent" where
  "delivered_at t r = r\<lparr>evt_Status := OutboundEventStatusDelivered, evt_DeliveredAt := Some t, evt_LastError := None\<rparr>"

lemma time_Now_clock: "time_Now w = (t, w') \<Longrightarrow> wclock w \<le> t \<and> wclock w' = t"
  by (auto simp: time_Now_def split: list.splits)

lemma deliverOne_2xx:
  assumes "claimed_event (wd_rt D) e w"
    and "exec_stmt (BusinessRepository_GetByID (wd_rt D) (evt_BusinessID e)) w = (Inr b, w)"
    and "biz_WebhookURL b = Some url" and "url \<noteq> []" and "mch_new_request_error (wd_http D) url = None"
    and "time_Now w = (now, w1)"
    and "mch_Do (wd_http D) (delivery_request D b e url now) (wpsp w1) = (Inr code, p)" and "code \<in> {200..<300}"
  shows "\<exists>t w'. run (deliverOne D e) w = (Inr (), w') \<and> wpsp w' = p \<and> event_becomes e (delivered_at t e) (wdb w) (wdb w')
     \<and> wfates w' = [] \<and> wclock w \<le> wclock w' \<and> businesses (wdb w') = businesses (wdb w)"
proof -
  from time_Now_frame [OF assms(6)] assms(1) have w1: "wdb w1 = wdb w" "wfates w1 = []" by (auto simp: claimed_event_def)
  let ?w2 = "w1\<lparr>wpsp := p\<rparr>"
  have md: "merchant_Do D (delivery_request D b e url now) w1 = (Inr code, ?w2)"
    by (simp add: merchant_Do_def assms(7))
  obtain t w3 where t: "time_Now ?w2 = (t, w3)" by (cases "time_Now ?w2")
  from time_Now_frame [OF t] w1 have w3: "wdb w3 = wdb w" "wfates w3 = []" "wpsp w3 = p" by auto
  from time_Now_clock [OF assms(6)] time_Now_clock [OF t] have c: "wclock w \<le> wclock w3" by simp
  obtain d where d: "exec_stmt (OutboundEventRepository_MarkDelivered (wd_rt D) (evt_ID e) t) w3 = (Inr (), w3\<lparr>wdb := d\<rparr>)"
    "event_becomes e (delivered_at t e) (wdb w) d" "businesses d = businesses (wdb w)"
    using exec_mark [OF assms(1) w3(1,2), of "OutboundEventRepository_MarkDelivered (wd_rt D) (evt_ID e) t" "delivered_at t"]
    by (auto simp: OutboundEventRepository_MarkDelivered_def delivered_at_def [abs_def])
  have "run (deliverOne D e) w = (Inr (), w3\<lparr>wdb := d\<rparr>)"
    using assms(8) by (simp add: deliverOne_def assms(2-6) md t d)
  with d w3 c show ?thesis by (intro exI [of _ t] exI [of _ "w3\<lparr>wdb := d\<rparr>"]) simp
qed

text \<open>
  C31. A delivery that the merchant answers with a 2xx status is recorded as delivered, with no
  error; and the one request it makes carries the event's identifier, the time of the
  attempt and a signature that the merchant's own check accepts with the business's secret,
  as long as its clock is within the replay window.
\<close>

theorem delivery_succeeds:
  assumes "claimed_event (wd_rt D) e w"
    and "exec_stmt (BusinessRepository_GetByID (wd_rt D) (evt_BusinessID e)) w = (Inr b, w)"
    and "biz_WebhookURL b = Some url" and "url \<noteq> []" and "mch_new_request_error (wd_http D) url = None"
    and "time_Now w = (now, w1)"
    and "mch_Do (wd_http D) (delivery_request D b e url now) (wpsp w1) = (Inr code, p)" and "code \<in> {200..<300}"
  shows "\<exists>r w'. run (deliverOne D e) w = (Inr (), w') \<and> wpsp w' = p \<and> event_becomes e r (wdb w) (wdb w')
     \<and> evt_ID r = evt_ID e \<and> evt_Status r = OutboundEventStatusDelivered \<and> evt_LastError r = None
     \<and> evt_Payload r = evt_Payload e
     \<and> (\<forall>clock. in_int64 (now div second + unixToInternal) \<and> in_int64 (now div second)
            \<and> \<bar>clock - (now div second) * second\<bar> \<le> ReplayWindow \<longrightarrow>
          (case delivery_request D b e url now of req \<Rightarrow>
            Verify (wd_rt D) (biz_WebhookSecret b) (mr_HeaderID req) (mr_HeaderTimestamp req)
              (mr_HeaderSignature req) (mr_body req) clock = None))"
proof -
  from deliverOne_2xx [OF assms] obtain t w' where w': "run (deliverOne D e) w = (Inr (), w')" "wpsp w' = p"
    "event_becomes e (delivered_at t e) (wdb w) (wdb w')" by blast
  have "Verify (wd_rt D) (biz_WebhookSecret b) (evt_ID e) (show_int (unix_of now))
      (Sign (wd_rt D) (biz_WebhookSecret b) (evt_ID e) now body) body clock = None"
    if "in_int64 (now div second + unixToInternal)" "in_int64 (now div second)"
      "\<bar>clock - (now div second) * second\<bar> \<le> ReplayWindow" for clock body
    using that by (rule Sign_Verify)
  with w' show ?thesis
    by (intro exI [of _ "delivered_at t e"] exI [of _ w']) (auto simp: delivery_request_def delivered_at_def)
qed

theorem delivery_succeeds_witness:
  "\<exists>r w'. run (deliverOne sample_dispatcher sample_claimed) sample_world = (Inr (), w')
     \<and> event_becomes sample_claimed r (wdb sample_world) (wdb w') \<and> evt_Status r = OutboundEventStatusDelivered"
proof -
  have b: "exec_stmt (BusinessRepository_GetByID (wd_rt sample_dispatcher) (evt_BusinessID sample_claimed)) sample_world
      = (Inr sample_business, sample_world)"
    by (simp add: exec_stmt_ok sample_world_def BusinessRepository_GetByID_def sample_dispatcher_def plain_rt_def
        with_uuid_Some sample_claimed_def sample_event_def sample_business_def)
  have t: "time_Now sample_world = (100, sample_world)" by (simp add: time_Now_def sample_world_def)
  have "biz_WebhookURL sample_business = Some ''http://shop''" by (simp add: sample_business_def)
  from delivery_succeeds [OF sample_is_claimed b this _ _ t, of 200 "Suc 0"] show ?thesis
    by (auto simp: sample_dispatcher_def sample_world_def)
qed

end
