(* ===== verification/Outbox_Drains.thy ===== *)
theory Outbox_Drains
  imports Delivery
begin

text \<open>
  The polling loop against merchants that answer: every event that is due is delivered after as many
  ticks as the queue has batches.
\<close>

subsection \<open>Merchants that answer\<close>

definition answering :: "'p merchants \<Rightarrow> bool" where
  "answering M \<longleftrightarrow> (\<forall>req p. case fst (mch_Do M req p) of Inl _ \<Rightarrow> False | Inr code \<Rightarrow> code \<in> {200..<300})"

text \<open>The event belongs to a business that has an endpoint.\<close>

definition deliverable :: "'p WebhookDispatcher \<Rightarrow> Business list \<Rightarrow> OutboundEvent \<Rightarrow> bool" where
  "deliverable D bs r \<longleftrightarrow> (case parse_uuid (wd_rt D) (evt_BusinessID r) of None \<Rightarrow> False | Some c \<Rightarrow>
     (case find (\<lambda>b. biz_ID b = c) bs of None \<Rightarrow> False | Some b \<Rightarrow>
       (case biz_WebhookURL b of None \<Rightarrow> False | Some url \<Rightarrow> url \<noteq> [] \<and> mch_new_request_error (wd_http D) url = None)))"

definition event_pending :: "OutboundEvent \<Rightarrow> bool" where
  "event_pending r \<longleftrightarrow> evt_Status r = OutboundEventStatusPending"

text \<open>What the dispatcher finds in order before a poll, and leaves in order.\<close>

definition queue_ok :: "'p WebhookDispatcher \<Rightarrow> 'p world \<Rightarrow> bool" where
  "queue_ok D w \<longleftrightarrow> wfates w = [] \<and> distinct (map evt_ID (outbound_events (wdb w)))
     \<and> (\<forall>r \<in> set (outbound_events (wdb w)). event_pending r \<longrightarrow>
          parse_uuid (wd_rt D) (evt_ID r) = Some (evt_ID r) \<and> deliverable D (businesses (wdb w)) r)"

definition delivered :: "OutboundEvent \<Rightarrow> OutboundEvent \<Rightarrow> bool" where
  "delivered x y \<longleftrightarrow> (\<exists>t. y = delivered_at t x)"

lemma delivered_fields:
  assumes "delivered x y"
  shows "evt_ID y = evt_ID x" and "evt_Status y = OutboundEventStatusDelivered"
  using assms by (auto simp: delivered_def delivered_at_def)

lemma delivered_claim_one: "delivered (claim_one x) y \<longleftrightarrow> delivered x y"
  by (simp add: delivered_def delivered_at_def claim_one_def)

lemma deliverOne_answered:
  assumes "claimed_event (wd_rt D) e w" and "deliverable D (businesses (wdb w)) e" and "answering (wd_http D)"
  shows "\<exists>y w'. run (deliverOne D e) w = (Inr (), w') \<and> delivered e y \<and> event_becomes e y (wdb w) (wdb w')
     \<and> wfates w' = [] \<and> wclock w \<le> wclock w' \<and> businesses (wdb w') = businesses (wdb w)"
proof -
  from assms(2) obtain c b url where b: "parse_uuid (wd_rt D) (evt_BusinessID e) = Some c"
    "find (\<lambda>b. biz_ID b = c) (businesses (wdb w)) = Some b" "biz_WebhookURL b = Some url" "url \<noteq> []"
    "mch_new_request_error (wd_http D) url = None"
    by (auto simp: deliverable_def split: option.splits)
  have g: "exec_stmt (BusinessRepository_GetByID (wd_rt D) (evt_BusinessID e)) w = (Inr b, w)"
    using assms(1) b(1,2) by (simp add: claimed_event_def exec_stmt_ok BusinessRepository_GetByID_def with_uuid_Some)
  obtain now w1 where t: "time_Now w = (now, w1)" by (cases "time_Now w")
  obtain r p where r: "mch_Do (wd_http D) (delivery_request D b e url now) (wpsp w1) = (r, p)"
    by (cases "mch_Do (wd_http D) (delivery_request D b e url now) (wpsp w1)")
  have a: "case fst (mch_Do (wd_http D) (delivery_request D b e url now) (wpsp w1)) of
      Inl _ \<Rightarrow> False | Inr code \<Rightarrow> code \<in> {200..<300}"
    using assms(3) unfolding answering_def by blast
  then obtain code where "r = Inr code" "code \<in> {200..<300}" unfolding r fst_conv by (cases r) auto
  with deliverOne_2xx [OF assms(1) g b(3-5) t, of code p] r show ?thesis unfolding delivered_def by blast
qed

subsection \<open>A batch and a tick\<close>

text \<open>The rows \<open>es\<close> become delivered and the others stay.\<close>

definition batch_delivered :: "OutboundEvent set \<Rightarrow> OutboundEvent list \<Rightarrow> OutboundEvent list \<Rightarrow> bool" where
  "batch_delivered es = list_all2 (\<lambda>x y. if x \<in> es then delivered x y else y = x)"

lemma batch_delivered_IDs:
  assumes "batch_delivered es xs ys"
  shows "map evt_ID ys = map evt_ID xs"
  using assms unfolding batch_delivered_def
  by (induction rule: list_all2_induct) (auto simp: delivered_fields(1) split: if_splits)

lemma deliverAll_answered:
  assumes "wfates w = []" and "distinct (map evt_ID (outbound_events (wdb w)))" and "distinct es"
    and "set es \<subseteq> set (outbound_events (wdb w))" and "answering (wd_http D)"
    and "\<forall>e \<in> set es. parse_uuid (wd_rt D) (evt_ID e) = Some (evt_ID e) \<and> deliverable D (businesses (wdb w)) e"
  shows "\<exists>w'. run (deliverAll D es) w = (Inr (), w') \<and> wfates w' = [] \<and> wclock w \<le> wclock w'
     \<and> businesses (wdb w') = businesses (wdb w)
     \<and> batch_delivered (set es) (outbound_events (wdb w)) (outbound_events (wdb w'))"
  using assms
proof (induction es arbitrary: w)
  case Nil
  then show ?case by (simp add: batch_delivered_def list_all2_refl)
next
  case (Cons e es)
  let ?xs = "outbound_events (wdb w)"
  have e: "e \<in> set ?xs" "e \<notin> set es" using Cons.prems(3,4) by auto
  from Cons.prems have "claimed_event (wd_rt D) e w" by (simp add: claimed_event_def)
  from deliverOne_answered [OF this _ Cons.prems(5)] Cons.prems(6) obtain y w1 where
    w1: "run (deliverOne D e) w = (Inr (), w1)" "delivered e y" "event_becomes e y (wdb w) (wdb w1)" "wfates w1 = []"
      "wclock w \<le> wclock w1" "businesses (wdb w1) = businesses (wdb w)" by auto
  let ?ys = "map (\<lambda>x. if x = e then y else x) ?xs"
  have ys: "outbound_events (wdb w1) = ?ys" using w1(3) by (simp add: event_becomes_def)
  have ids: "map evt_ID ?ys = map evt_ID ?xs" using delivered_fields(1) [OF w1(2)] by simp
  have y: "y \<notin> set es"
  proof
    assume "y \<in> set es"
    with Cons.prems(4) have "y \<in> set ?xs" by auto
    from distinct_map_unique [OF Cons.prems(2) this e(1) delivered_fields(1) [OF w1(2)]] have "y = e" .
    with \<open>y \<in> set es\<close> e(2) show False by simp
  qed
  have "set es \<subseteq> set ?ys" using Cons.prems(4) e(2) by force
  then have sub: "set es \<subseteq> set (outbound_events (wdb w1))" unfolding ys .
  have d1: "distinct (map evt_ID (outbound_events (wdb w1)))" unfolding ys ids by (rule Cons.prems(2))
  have ok1: "\<forall>e \<in> set es. parse_uuid (wd_rt D) (evt_ID e) = Some (evt_ID e) \<and> deliverable D (businesses (wdb w1)) e"
    and des: "distinct es" using Cons.prems(3,6) w1(6) by simp_all
  from Cons.IH [OF w1(4) d1 des sub Cons.prems(5) ok1, unfolded ys] obtain w2 where
    w2: "run (deliverAll D es) w1 = (Inr (), w2)" "wfates w2 = []" "wclock w1 \<le> wclock w2"
      "businesses (wdb w2) = businesses (wdb w1)" "batch_delivered (set es) ?ys (outbound_events (wdb w2))" by blast
  have "batch_delivered (set (e # es)) ?xs (outbound_events (wdb w2))"
    using w2(5) unfolding batch_delivered_def list_all2_map1
    by (rule list_all2_mono) (use w1(2) y in \<open>auto split: if_splits\<close>)
  with w1 w2 show ?case by (intro exI [of _ w2]) simp
qed

text \<open>The claim in the form the tick needs: what it returns, and what it leaves over.\<close>

lemma due_rows:
  assumes "distinct (map evt_ID rs)"
  shows "\<And>r. r \<in> set rs \<Longrightarrow> evt_ID r \<in> set (due_ids limit t rs) \<Longrightarrow> event_due t r"
    and "(\<forall>r \<in> set rs. event_due t r \<longrightarrow> evt_ID r \<in> set (due_ids limit t rs))
       \<or> length (filter (\<lambda>r. evt_ID r \<in> set (due_ids limit t rs)) rs) = limit"
proof -
  let ?ids = "due_ids limit t rs"
  note props = due_ids_props [OF assms, of limit t]
  show "event_due t r" if "r \<in> set rs" "evt_ID r \<in> set ?ids" for r
  proof -
    from that(2) props(1) obtain x where x: "x \<in> set rs" "event_due t x" "evt_ID x = evt_ID r" by fastforce
    with distinct_map_unique [OF assms x(1) that(1)] show ?thesis by simp
  qed
  have len: "length (filter (\<lambda>r. evt_ID r \<in> set ?ids) rs) = length ?ids"
    by (rule length_filter_ids [OF assms _ props(2)]) (use props(1) in auto)
  show "(\<forall>r \<in> set rs. event_due t r \<longrightarrow> evt_ID r \<in> set ?ids) \<or> length (filter (\<lambda>r. evt_ID r \<in> set ?ids) rs) = limit"
  proof (cases "limit \<le> length (filter (event_due t) rs)")
    case True
    then show ?thesis unfolding len by (simp add: due_ids_def)
  next
    case False
    then have "?ids = map evt_ID (sort_key evt_NextRetryAt (filter (event_due t) rs))" by (simp add: due_ids_def)
    then show ?thesis by simp
  qed
qed

lemma batch_delivered_row:
  assumes "batch_delivered es xs ys" and "y \<in> set ys"
  shows "\<exists>x \<in> set xs. if x \<in> es then delivered x y else y = x"
proof -
  from assms(2) obtain i where i: "i < length ys" "y = ys ! i" by (auto simp: in_set_conv_nth)
  with assms(1) have "i < length xs" "if xs ! i \<in> es then delivered (xs ! i) y else y = xs ! i"
    by (auto simp: batch_delivered_def list_all2_conv_all_nth)
  then show ?thesis by (intro bexI [of _ "xs ! i"]) simp_all
qed

lemma batch_delivered_queue_ok:
  assumes ok: "queue_ok D w" and b: "batch_delivered es (outbound_events (wdb w)) (outbound_events (wdb w'))"
    and "businesses (wdb w') = businesses (wdb w)" and "wfates w' = []"
  shows "queue_ok D w'"
proof -
  have "y \<in> set (outbound_events (wdb w))" if "y \<in> set (outbound_events (wdb w'))" "event_pending y" for y
  proof -
    from batch_delivered_row [OF b that(1)] obtain x where
      x: "x \<in> set (outbound_events (wdb w))" "if x \<in> es then delivered x y else y = x" by blast
    with that(2) show ?thesis by (auto simp: event_pending_def delivered_fields(2) split: if_splits)
  qed
  with ok batch_delivered_IDs [OF b] assms(3,4) show ?thesis by (simp add: queue_ok_def)
qed

lemma claim_one_fields [simp]: "evt_ID (claim_one r) = evt_ID r" "evt_BusinessID (claim_one r) = evt_BusinessID r"
  by (simp_all add: claim_one_def)

lemma deliverable_claim_one [simp]: "deliverable D bs (claim_one r) = deliverable D bs r"
  by (simp add: deliverable_def)

text \<open>The claimed rows are delivered, seen from the table before the claim.\<close>

lemma batch_delivered_claimed:
  assumes "batch_delivered (claim_one ` {r \<in> set xs. es (evt_ID r)}) (map (\<lambda>r. if es (evt_ID r) then claim_one r else r) xs) ys"
  shows "batch_delivered {r \<in> set xs. es (evt_ID r)} xs ys"
  unfolding batch_delivered_def
proof (rule list.rel_mono_strong [OF assms [unfolded batch_delivered_def list_all2_map1]])
  fix x y assume x: "x \<in> set xs" and "y \<in> set ys"
    and r: "if (if es (evt_ID x) then claim_one x else x) \<in> claim_one ` {r \<in> set xs. es (evt_ID r)}
      then delivered (if es (evt_ID x) then claim_one x else x) y else y = (if es (evt_ID x) then claim_one x else x)"
  show "if x \<in> {r \<in> set xs. es (evt_ID r)} then delivered x y else y = x"
  proof (cases "es (evt_ID x)")
    case True
    with x r show ?thesis by (simp add: delivered_claim_one)
  next
    case False
    then have "x \<notin> claim_one ` {r \<in> set xs. es (evt_ID r)}" by auto
    with False r show ?thesis by simp
  qed
qed

text \<open>One tick: \<open>es\<close> are the identifiers of the batch.\<close>

lemma DeliverDue_answered:
  assumes ok: "queue_ok D w" and a: "answering (wd_http D)"
  shows "\<exists>w' es. run (DeliverDue D) w = (Inr (), w') \<and> queue_ok D w' \<and> wclock w \<le> wclock w'
     \<and> batch_delivered {r \<in> set (outbound_events (wdb w)). es (evt_ID r)} (outbound_events (wdb w)) (outbound_events (wdb w'))
     \<and> (\<forall>r \<in> set (outbound_events (wdb w)). es (evt_ID r) \<longrightarrow> event_pending r)
     \<and> ((\<forall>r \<in> set (outbound_events (wdb w)). event_due (wclock w) r \<longrightarrow> es (evt_ID r))
        \<or> length (filter (\<lambda>r. es (evt_ID r)) (outbound_events (wdb w))) = ClaimBatchSize)"
proof -
  let ?xs = "outbound_events (wdb w)"
  obtain t w1 where t: "time_Now w = (t, w1)" by (cases "time_Now w")
  from time_Now_frame [OF t] time_Now_clock [OF t] ok have w1: "wdb w1 = wdb w" "wfates w1 = []" "wclock w \<le> t" "wclock w1 = t"
    by (auto simp: queue_ok_def)
  have d: "distinct (map evt_ID ?xs)" using ok by (simp add: queue_ok_def)
  define es where "es i \<longleftrightarrow> i \<in> set (due_ids ClaimBatchSize t ?xs)" for i
  let ?es = "\<lambda>r. es (evt_ID r)"
  let ?cl = "map claim_one (filter ?es ?xs)" and ?ys = "map (\<lambda>r. if ?es r then claim_one r else r) ?xs"
  let ?w2 = "w1\<lparr>wdb := (wdb w)\<lparr>outbound_events := ?ys\<rparr>\<rparr>"
  have due: "event_due t r" if "r \<in> set ?xs" "?es r" for r
    using due_rows(1) [OF d that(1)] that(2) by (simp add: es_def)
  then have pend: "event_pending r" if "r \<in> set ?xs" "?es r" for r
    using that by (simp add: event_due_def event_pending_def)
  have claim: "exec_stmt (OutboundEventRepository_ClaimDue ClaimBatchSize t) w1 = (Inr ?cl, ?w2)"
    using w1 by (simp add: exec_stmt_ok OutboundEventRepository_ClaimDue_def Let_def update_where_def es_def claim_one_def [abs_def])
  have ids: "map evt_ID ?ys = map evt_ID ?xs" by simp
  have "distinct (map evt_ID (filter ?es ?xs))" using d by (rule distinct_map_filter)
  then have "distinct (map evt_ID ?cl)" by (simp add: comp_def)
  then have dc: "distinct ?cl" by (rule distinct_map [THEN iffD1, THEN conjunct1])
  have "\<exists>w'. run (deliverAll D ?cl) ?w2 = (Inr (), w') \<and> wfates w' = [] \<and> wclock ?w2 \<le> wclock w'
     \<and> businesses (wdb w') = businesses (wdb ?w2)
     \<and> batch_delivered (set ?cl) (outbound_events (wdb ?w2)) (outbound_events (wdb w'))"
  proof (rule deliverAll_answered [OF _ _ dc _ a])
    show "wfates ?w2 = []" using w1(2) by simp
    have "distinct (map evt_ID ?ys)" unfolding ids by (rule d)
    then show "distinct (map evt_ID (outbound_events (wdb ?w2)))" by (simp del: map_map)
    show "set ?cl \<subseteq> set (outbound_events (wdb ?w2))" by auto
    show "\<forall>e \<in> set ?cl. parse_uuid (wd_rt D) (evt_ID e) = Some (evt_ID e) \<and> deliverable D (businesses (wdb ?w2)) e"
      using ok pend by (auto simp: queue_ok_def)
  qed
  then obtain w3 where w3: "run (deliverAll D ?cl) ?w2 = (Inr (), w3)" "wfates w3 = []" "t \<le> wclock w3"
    "businesses (wdb w3) = businesses (wdb w)" "batch_delivered (claim_one ` {r \<in> set ?xs. ?es r}) ?ys (outbound_events (wdb w3))"
    using w1(4) by auto
  have b: "batch_delivered {r \<in> set ?xs. ?es r} ?xs (outbound_events (wdb w3))"
    by (rule batch_delivered_claimed [OF w3(5)])
  have "run (DeliverDue D) w = (Inr (), w3)"
    by (simp add: DeliverDue_def bindr_def t claim w3(1) del: map_map)
  moreover have "queue_ok D w3" by (rule batch_delivered_queue_ok [OF ok b w3(4,2)])
  moreover have "(\<forall>r \<in> set ?xs. event_due (wclock w) r \<longrightarrow> ?es r) \<or> length (filter ?es ?xs) = ClaimBatchSize"
    using due_rows(2) [OF d, of t ClaimBatchSize] w1(3) unfolding es_def by (auto simp: event_due_def)
  ultimately show ?thesis using b pend w1(3) w3(3) by (intro exI [of _ w3] exI [of _ es]) simp
qed

subsection \<open>The loop\<close>

text \<open>What was due at \<open>c\<close> is delivered; else a row is unchanged or was pending and is delivered.\<close>

definition drained :: "time \<Rightarrow> OutboundEvent list \<Rightarrow> OutboundEvent list \<Rightarrow> bool" where
  "drained c = list_all2 (\<lambda>x y. (event_due c x \<longrightarrow> delivered x y) \<and> (y = x \<or> event_pending x \<and> delivered x y))"

lemma event_due_pending: "event_due c r \<Longrightarrow> event_pending r"
  by (simp add: event_due_def event_pending_def)

lemma event_due_later: "event_due c r \<Longrightarrow> c \<le> c' \<Longrightarrow> event_due c' r"
  by (simp add: event_due_def)

lemma delivered_not_pending: "delivered x y \<Longrightarrow> \<not> event_pending y"
  by (simp add: event_pending_def delivered_fields(2))

text \<open>A batch by its predicate, what it takes from the queue, and what follows it.\<close>

lemma batch_steps:
  assumes "batch_delivered {r \<in> set xs. es r} xs ys" and "\<forall>r \<in> set xs. es r \<longrightarrow> event_pending r"
  shows "list_all2 (\<lambda>x y. es x \<and> event_pending x \<and> delivered x y \<or> \<not> es x \<and> y = x) xs ys"
  by (rule list.rel_mono_strong [OF assms(1) [unfolded batch_delivered_def]]) (use assms(2) in \<open>auto split: if_splits\<close>)

lemma batch_pending:
  assumes "list_all2 (\<lambda>x y. es x \<and> event_pending x \<and> delivered x y \<or> \<not> es x \<and> y = x) xs ys"
  shows "length (filter event_pending ys) + length (filter es xs) = length (filter event_pending xs)"
  using assms by (induction rule: list_all2_induct) (auto dest: delivered_not_pending)

lemma batch_drained:
  assumes "list_all2 (\<lambda>x y. es x \<and> event_pending x \<and> delivered x y \<or> \<not> es x \<and> y = x) xs ys" and "drained c ys zs"
  shows "drained c xs zs"
  unfolding drained_def
  by (rule list_all2_trans [OF _ assms(1) assms(2) [unfolded drained_def]]) (auto dest: delivered_not_pending)

lemma DispatcherRun_answered:
  assumes "queue_ok D w" and "answering (wd_http D)" and "c \<le> wclock w"
    and "length (filter event_pending (outbound_events (wdb w))) \<le> k * ClaimBatchSize
      \<or> (\<forall>r \<in> set (outbound_events (wdb w)). \<not> event_due c r)"
  shows "\<exists>w'. run (DispatcherRun D k) w = (Inr (), w') \<and> drained c (outbound_events (wdb w)) (outbound_events (wdb w'))"
  using assms
proof (induction k arbitrary: w)
  case 0
  then have "\<forall>r \<in> set (outbound_events (wdb w)). \<not> event_due c r"
    by (auto simp: filter_empty_conv dest: event_due_pending)
  then show ?case by (auto simp: drained_def intro: list.rel_refl_strong)
next
  case (Suc k)
  let ?xs = "outbound_events (wdb w)"
  from DeliverDue_answered [OF Suc.prems(1,2)] obtain w1 i where
    w1: "run (DeliverDue D) w = (Inr (), w1)" "queue_ok D w1" "wclock w \<le> wclock w1"
    and b: "batch_delivered {r \<in> set ?xs. i (evt_ID r)} ?xs (outbound_events (wdb w1))"
    and p: "\<forall>r \<in> set ?xs. i (evt_ID r) \<longrightarrow> event_pending r"
    and all: "(\<forall>r \<in> set ?xs. event_due (wclock w) r \<longrightarrow> i (evt_ID r))
      \<or> length (filter (\<lambda>r. i (evt_ID r)) ?xs) = ClaimBatchSize" by blast
  note st = batch_steps [OF b p]
  have "length (filter event_pending (outbound_events (wdb w1))) \<le> k * ClaimBatchSize
      \<or> (\<forall>r \<in> set (outbound_events (wdb w1)). \<not> event_due c r)"
  proof (cases "\<exists>y \<in> set (outbound_events (wdb w1)). event_due c y")
    case True
    then obtain y where y: "y \<in> set (outbound_events (wdb w1))" "event_due c y" by blast
    from batch_delivered_row [OF b y(1)] y(2) have "y \<in> set ?xs" "\<not> i (evt_ID y)"
      by (auto dest: delivered_not_pending event_due_pending split: if_splits)
    with y(2) event_due_later [OF _ Suc.prems(3)] all batch_pending [OF st] Suc.prems(4) show ?thesis by auto
  qed blast
  from Suc.IH [OF w1(2) Suc.prems(2) _ this] Suc.prems(3) w1(3) obtain w2 where
    "run (DispatcherRun D k) w1 = (Inr (), w2)" "drained c (outbound_events (wdb w1)) (outbound_events (wdb w2))" by auto
  with w1(1) batch_drained [OF st] show ?case by auto
qed

text \<open>
  C30. The queue drains. When the merchants answer, no statement is lost and every pending event
  belongs to a business with an endpoint, every event that is due now is delivered after a number of ticks that
  is enough for the queue in batches of ten; every other event is as before, or was pending, came due meanwhile and
  is delivered too.
\<close>

theorem outbox_drains:
  assumes "queue_ok D w" and "answering (wd_http D)"
    and "length (filter event_pending (outbound_events (wdb w))) \<le> k * ClaimBatchSize"
  shows "\<exists>w'. run (DispatcherRun D k) w = (Inr (), w')
     \<and> list_all2 (\<lambda>x y. (event_due (wclock w) x \<longrightarrow> delivered x y) \<and> (y = x \<or> event_pending x \<and> delivered x y))
          (outbound_events (wdb w)) (outbound_events (wdb w'))"
  using DispatcherRun_answered [OF assms(1,2) order_refl, of k] assms(3) unfolding drained_def by blast

text \<open>Three due events and one that is being delivered already, of a business whose endpoint answers 200.\<close>

theorem outbox_drains_witness:
  "\<exists>w'. run (DispatcherRun sample_dispatcher 1) sample_world = (Inr (), w')
     \<and> delivered (sample_event ''e1'' OutboundEventStatusPending 0 5) (hd (outbound_events (wdb w')))"
proof -
  have "distinct (map evt_ID (outbound_events (wdb sample_world)))" by code_simp
  then have "queue_ok sample_dispatcher sample_world"
    by (simp add: queue_ok_def)
      (auto simp: sample_world_def sample_db_def sample_event_def deliverable_def sample_dispatcher_def plain_rt_def
        sample_business_def)
  moreover have "answering (wd_http sample_dispatcher)" by (simp add: answering_def sample_dispatcher_def)
  moreover have "length (filter event_pending (outbound_events (wdb sample_world))) \<le> 1 * ClaimBatchSize" by code_simp
  ultimately obtain w' where w': "run (DispatcherRun sample_dispatcher 1) sample_world = (Inr (), w')"
    "list_all2 (\<lambda>x y. (event_due (wclock sample_world) x \<longrightarrow> delivered x y) \<and> (y = x \<or> event_pending x \<and> delivered x y))
          (outbound_events (wdb sample_world)) (outbound_events (wdb w'))"
    using outbox_drains by blast
  from w'(2) have "delivered (sample_event ''e1'' OutboundEventStatusPending 0 5) (hd (outbound_events (wdb w')))"
    by (auto simp: sample_world_def sample_db_def list_all2_Cons1 event_due_def sample_event_def)
  with w'(1) show ?thesis by blast
qed

end
