(* ===== verification/Mock_PSP.thy ===== *)
theory Mock_PSP
  imports PSP Signature
begin

text \<open>
  The provider the repository ships (\<open>cmd/mock-psp/main.go\<close>): charges are answered from a
  cache of entries by idempotency key. Its requests run concurrently, so it is a state
  machine: every request is in a phase, and \<open>advance\<close> makes the request's next atomic step,
  as the code between two accesses to shared data. An entry is a cell of a heap, because
  requests keep their pointer to it after it has left the cache. The pauses the code sleeps
  are left out of the steps, which may be any time apart; \<open>charge_delay\<close> gives them. The
  structs of the requests and responses have the fields of the client's, and their JSON is
  outside the model.
\<close>

subsection \<open>Data\<close>

record cacheEntry =
  ce_ready :: bool   \<comment> \<open>the channel is closed\<close>
  ce_resp :: ChargeResponse
  ce_httpCode :: nat

text \<open>
  The cache, the entries by address, the number of identifiers drawn, and the goroutines that
  notify of a successful charge, in the order they were started.
\<close>

record mockPSP =
  mk_cache :: "string \<Rightarrow> nat option"
  mk_entries :: "cacheEntry list"
  mk_uuids :: nat
  mk_notified :: "(ChargeRequest \<times> ChargeResponse) list"

definition empty_mock :: mockPSP where
  "empty_mock = \<lparr>mk_cache = (\<lambda>_. None), mk_entries = [], mk_uuids = 0, mk_notified = []\<rparr>"

definition zero_response :: ChargeResponse where
  "zero_response = \<lparr>resp_Status = [], resp_PSPRef = [], resp_Code = []\<rparr>"

text \<open>
  Where a request is: about to start, waiting for the entry another one completes, charging,
  in the three steps of \<open>failUncached\<close>, or answered with a code and a body that decodes.
\<close>

datatype phase =
    Received
  | Waiting nat
  | Charging "nat option"
  | Deleting nat nat
  | Closing nat nat
  | Answered nat "ChargeResponse option"

subsection \<open>Steps\<close>

definition getOrStart :: "string \<Rightarrow> mockPSP \<Rightarrow> (nat \<times> bool) \<times> mockPSP" where
  "getOrStart key s =
     (case mk_cache s key of
        Some entry \<Rightarrow> ((entry, False), s)
      | None \<Rightarrow>
          let entry = length (mk_entries s) in
          ((entry, True),
           s\<lparr>mk_cache := (mk_cache s)(key \<mapsto> entry),
             mk_entries := mk_entries s @ [\<lparr>ce_ready = False, ce_resp = zero_response, ce_httpCode = 200\<rparr>]\<rparr>))"

text \<open>The closure \<open>finish\<close>: fill the entry and close its channel, notify, answer.\<close>

definition finish ::
  "nat option \<Rightarrow> ChargeRequest \<Rightarrow> nat \<Rightarrow> ChargeResponse \<Rightarrow> bool \<Rightarrow> mockPSP \<Rightarrow> phase \<times> mockPSP" where
  "finish entry req code resp notify s =
     (let s1 = (case entry of None \<Rightarrow> s
          | Some e \<Rightarrow> s\<lparr>mk_entries := (mk_entries s)[e := \<lparr>ce_ready = True, ce_resp = resp, ce_httpCode = code\<rparr>]\<rparr>);
          s2 = (if notify \<and> resp_Status resp = ''succeeded''
                then s1\<lparr>mk_notified := mk_notified s1 @ [(req, resp)]\<rparr> else s1)
      in (Answered code (if code \<ge> 500 then None else Some resp), s2))"

text \<open>\<open>failUncached\<close> starts by writing the code into the entry; without an entry it does nothing.\<close>

definition failUncached :: "nat option \<Rightarrow> nat \<Rightarrow> mockPSP \<Rightarrow> phase \<times> mockPSP" where
  "failUncached entry code s =
     (case entry of
        None \<Rightarrow> (Answered code None, s)
      | Some e \<Rightarrow> (Deleting e code, s\<lparr>mk_entries := (mk_entries s)[e := (mk_entries s ! e)\<lparr>ce_httpCode := code\<rparr>]\<rparr>))"

definition succeeded_response :: "string \<Rightarrow> ChargeResponse" where
  "succeeded_response ref = \<lparr>resp_Status = ''succeeded'', resp_PSPRef = ref, resp_Code = []\<rparr>"

definition failed_response :: "string \<Rightarrow> ChargeResponse" where
  "failed_response code = \<lparr>resp_Status = ''failed'', resp_PSPRef = [], resp_Code = code\<rparr>"

definition completeCharge :: "runtime \<Rightarrow> ChargeRequest \<Rightarrow> nat option \<Rightarrow> mockPSP \<Rightarrow> phase \<times> mockPSP" where
  "completeCharge rt req entry s =
     (let tok = req_CardToken req in
      if tok = ''tok_success'' \<or> tok = ''tok_timeout''
      then finish entry req 200 (succeeded_response (uuid_New rt (mk_uuids s))) True (s\<lparr>mk_uuids := Suc (mk_uuids s)\<rparr>)
      else if tok = ''tok_insufficient_funds'' then finish entry req 200 (failed_response ''insufficient_funds'') False s
      else if tok = ''tok_card_declined'' then finish entry req 200 (failed_response ''card_declined'') False s
      else if tok = ''tok_network_error'' then failUncached entry 500 s
      else failUncached entry 400 s)"

text \<open>The pause before a charge completes.\<close>

definition charge_delay :: "string \<Rightarrow> int" where
  "charge_delay tok =
     (if tok \<in> {''tok_success'', ''tok_insufficient_funds'', ''tok_card_declined''} then 100000000
      else if tok = ''tok_timeout'' then 30 * second else 0)"

text \<open>
  The next step of a decoded POST request; \<open>None\<close> when it waits for an entry that is not
  ready, or has been answered.
\<close>

fun advance :: "runtime \<Rightarrow> ChargeRequest \<Rightarrow> phase \<Rightarrow> mockPSP \<Rightarrow> (phase \<times> mockPSP) option" where
  "advance rt req Received s =
     (if req_CardToken req = [] then Some (Answered 400 None, s)
      else if req_IdempotencyKey req \<noteq> []
      then (case getOrStart (req_IdempotencyKey req) s of ((entry, created), s') \<Rightarrow>
              Some (if \<not> created then Waiting entry else Charging (Some entry), s'))
      else Some (Charging None, s))"
| "advance rt req (Waiting e) s =
     (let entry = mk_entries s ! e in
      if \<not> ce_ready entry then None
      else Some (Answered (ce_httpCode entry) (if ce_httpCode entry \<ge> 500 then None else Some (ce_resp entry)), s))"
| "advance rt req (Charging entry) s = Some (completeCharge rt req entry s)"
| "advance rt req (Deleting e code) s =
     Some (Closing e code, s\<lparr>mk_cache := (mk_cache s)(req_IdempotencyKey req := None)\<rparr>)"
| "advance rt req (Closing e code) s =
     Some (Answered code None, s\<lparr>mk_entries := (mk_entries s)[e := (mk_entries s ! e)\<lparr>ce_ready := True\<rparr>]\<rparr>)"
| "advance rt req (Answered code body) s = None"

text \<open>
  The checks of \<open>handleCharge\<close> before a request is in the machine: its method, and a body
  that decodes.
\<close>

definition handleCharge :: "bool \<Rightarrow> ChargeRequest option \<Rightarrow> phase \<times> ChargeRequest option" where
  "handleCharge is_post body =
     (if \<not> is_post then (Answered 405 None, None)
      else case body of None \<Rightarrow> (Answered 400 None, None) | Some req \<Rightarrow> (Received, Some req))"

subsection \<open>Concurrent requests\<close>

type_synonym mock_config = "(ChargeRequest \<times> phase) list \<times> mockPSP"

inductive mock_step :: "runtime \<Rightarrow> mock_config \<Rightarrow> mock_config \<Rightarrow> bool" for rt where
  arrive: "mock_step rt (ts, s) (ts @ [(req, Received)], s)"
| step: "i < length ts \<Longrightarrow> ts ! i = (req, ph) \<Longrightarrow> advance rt req ph s = Some (ph', s') \<Longrightarrow>
    mock_step rt (ts, s) (ts[i := (req, ph')], s')"

inductive_cases mock_stepE: "mock_step rt c c'"

inductive mock_reach :: "runtime \<Rightarrow> mock_config \<Rightarrow> bool" for rt where
  mock_init: "mock_reach rt ([], empty_mock)"
| mock_more: "mock_reach rt c \<Longrightarrow> mock_step rt c c' \<Longrightarrow> mock_reach rt c'"

subsection \<open>The webhook of a successful charge\<close>

record WebhookPost =
  wp_url :: string
  wp_HeaderID :: string
  wp_HeaderTimestamp :: string
  wp_HeaderSignature :: string
  wp_body :: string

text \<open>
  The configuration: where the webhook goes and the secret it is signed with, and what lies
  outside: \<open>json.Marshal\<close> of the event, the errors of \<open>http.NewRequest\<close>, and the receiver's
  answers, errors (\<open>None\<close>) or status codes, with the time the call of \<open>client.Do\<close> takes; what a
  pause lasts longer than it should counts there too.
\<close>

record 'g mock_env =
  me_rt :: runtime
  me_webhookURL :: string
  me_webhookSecret :: string
  me_marshal :: "pspWebhookPayload \<Rightarrow> string option"
  me_url_error :: "string \<Rightarrow> bool"
  me_Do :: "WebhookPost \<Rightarrow> 'g \<Rightarrow> (nat option \<times> int) \<times> 'g"

definition webhook_config :: "string \<Rightarrow> string \<Rightarrow> string \<times> string" where
  "webhook_config url secret =
     (if url = [] then ''http://localhost:8080/webhooks/psp'' else url,
      if secret = [] then DefaultPSPSecret else secret)"

definition charge_event :: "string \<Rightarrow> string \<Rightarrow> ChargeRequest \<Rightarrow> ChargeResponse \<Rightarrow> pspWebhookPayload" where
  "charge_event eventID eventType req resp =
     \<lparr>EventID = eventID, EventType = eventType, Data_PSPRef = resp_PSPRef resp,
      Data_IdempotencyKey = req_IdempotencyKey req, Data_Status = resp_Status resp, Data_Code = resp_Code resp\<rparr>"

definition webhook_post :: "'g mock_env \<Rightarrow> string \<Rightarrow> time \<Rightarrow> string \<Rightarrow> WebhookPost" where
  "webhook_post M eventID now body =
     \<lparr>wp_url = me_webhookURL M, wp_HeaderID = eventID, wp_HeaderTimestamp = show_int (unix_of now),
      wp_HeaderSignature = Sign (me_rt M) (me_webhookSecret M) eventID now body, wp_body = body\<rparr>"

definition notify_delays :: "int list" where
  "notify_delays = [0, 200000000, second]"

text \<open>
  The loop over the delays: it ends at the first answer below 500. The clock moves by the pause
  and by the time each attempt takes; the posts made are returned, each with the reading
  \<open>time.Now()\<close> it was signed at.
\<close>

primrec notifyLoop ::
  "'g mock_env \<Rightarrow> string \<Rightarrow> string \<Rightarrow> int list \<Rightarrow> time \<Rightarrow> 'g \<Rightarrow> (time \<times> WebhookPost) list \<times> 'g" where
  "notifyLoop M eventID body [] clock g = ([], g)"
| "notifyLoop M eventID body (delay # delays) clock g =
     (let now = clock + delay in
      if me_url_error M (me_webhookURL M) then ([], g)
      else let post = webhook_post M eventID now body in
        case me_Do M post g of ((answer, took), g') \<Rightarrow>
          if (case answer of Some code \<Rightarrow> code < 500 | None \<Rightarrow> False) then ([(now, post)], g')
          else (case notifyLoop M eventID body delays (now + took) g' of
                  (posts, g'') \<Rightarrow> ((now, post) # posts, g'')))"

definition notifyWebhook ::
  "'g mock_env \<Rightarrow> string \<Rightarrow> ChargeRequest \<Rightarrow> ChargeResponse \<Rightarrow> nat \<Rightarrow> time \<Rightarrow> 'g
     \<Rightarrow> (time \<times> WebhookPost) list \<times> 'g" where
  "notifyWebhook M eventType req resp n now g =
     (let eventID = ''evt_'' @ uuid_New (me_rt M) n in
      case me_marshal M (charge_event eventID eventType req resp) of
        None \<Rightarrow> ([], g)
      | Some body \<Rightarrow> notifyLoop M eventID body notify_delays now g)"

end
