(* ===== verification/Mock_PSP_Facts.thy ===== *)
theory Mock_PSP_Facts
  imports Mock_PSP Signature_Facts
begin

text \<open>
  The shipped provider charges once: under every interleaving of its requests, a key has at
  most one successful charge, all its answers agree, and no request waits for ever.
\<close>

subsection \<open>The invariant\<close>

fun owns :: "phase \<Rightarrow> nat option" where
  "owns (Charging entry) = entry"
| "owns (Deleting e code) = Some e"
| "owns (Closing e code) = Some e"
| "owns _ = None"

fun owns_cached :: "phase \<Rightarrow> nat option" where
  "owns_cached (Charging entry) = entry"
| "owns_cached (Deleting e code) = Some e"
| "owns_cached _ = None"

abbreviation charge_key :: "ChargeRequest \<Rightarrow> string" where
  "charge_key \<equiv> req_IdempotencyKey"

definition charged_keys :: "mockPSP \<Rightarrow> string list" where
  "charged_keys s = filter (\<lambda>k. k \<noteq> []) (map (charge_key \<circ> fst) (mk_notified s))"

text \<open>
  Every entry has a key, the one it was created for. An entry that is not ready has exactly
  one owner, the request that completes it; while the owner charges, the cache still maps
  the key to the entry, so no other request charges for the key.
\<close>

definition owners_ok :: "(nat \<Rightarrow> string) \<Rightarrow> mock_config \<Rightarrow> bool" where
  "owners_ok kf c \<longleftrightarrow> (case c of (ts, s) \<Rightarrow>
     (\<forall>i e. i < length ts \<longrightarrow> owns (snd (ts ! i)) = Some e \<longrightarrow> e < length (mk_entries s)
        \<and> \<not> ce_ready (mk_entries s ! e) \<and> kf e = charge_key (fst (ts ! i)) \<and> charge_key (fst (ts ! i)) \<noteq> [])
   \<and> (\<forall>i j e. i < length ts \<longrightarrow> j < length ts \<longrightarrow> owns (snd (ts ! i)) = Some e \<longrightarrow> owns (snd (ts ! j)) = Some e \<longrightarrow> i = j)
   \<and> (\<forall>i e. i < length ts \<longrightarrow> owns_cached (snd (ts ! i)) = Some e \<longrightarrow> mk_cache s (charge_key (fst (ts ! i))) = Some e)
   \<and> (\<forall>e. e < length (mk_entries s) \<longrightarrow> \<not> ce_ready (mk_entries s ! e) \<longrightarrow>
        ce_resp (mk_entries s ! e) = zero_response \<and> (\<exists>i < length ts. owns (snd (ts ! i)) = Some e)))"

definition cache_ok :: "(nat \<Rightarrow> string) \<Rightarrow> mock_config \<Rightarrow> bool" where
  "cache_ok kf c \<longleftrightarrow> (case c of (ts, s) \<Rightarrow>
     (\<forall>k e. mk_cache s k = Some e \<longrightarrow> e < length (mk_entries s) \<and> kf e = k)
   \<and> (\<forall>i e. i < length ts \<longrightarrow> snd (ts ! i) = Waiting e \<longrightarrow>
        e < length (mk_entries s) \<and> kf e = charge_key (fst (ts ! i)) \<and> charge_key (fst (ts ! i)) \<noteq> [])
   \<and> (\<forall>i. i < length ts \<longrightarrow> snd (ts ! i) = Charging None \<longrightarrow> charge_key (fst (ts ! i)) = []))"

definition charges_ok :: "(nat \<Rightarrow> string) \<Rightarrow> mock_config \<Rightarrow> bool" where
  "charges_ok kf c \<longleftrightarrow> (case c of (ts, s) \<Rightarrow>
     distinct (charged_keys s)
   \<and> (\<forall>r x. (r, x) \<in> set (mk_notified s) \<longrightarrow> charge_key r \<noteq> [] \<longrightarrow> (\<exists>e. mk_cache s (charge_key r) = Some e
        \<and> ce_ready (mk_entries s ! e) \<and> ce_resp (mk_entries s ! e) = x))
   \<and> (\<forall>e. e < length (mk_entries s) \<longrightarrow> resp_Status (ce_resp (mk_entries s ! e)) = ''succeeded'' \<longrightarrow>
        (\<exists>r. (r, ce_resp (mk_entries s ! e)) \<in> set (mk_notified s) \<and> charge_key r = kf e))
   \<and> (\<forall>i code x. i < length ts \<longrightarrow> snd (ts ! i) = Answered code (Some x) \<longrightarrow> charge_key (fst (ts ! i)) \<noteq> [] \<longrightarrow>
        resp_Status x = ''succeeded'' \<longrightarrow>
        (\<exists>r. (r, x) \<in> set (mk_notified s) \<and> charge_key r = charge_key (fst (ts ! i)))))"

definition mock_inv :: "(nat \<Rightarrow> string) \<Rightarrow> mock_config \<Rightarrow> bool" where
  "mock_inv kf c \<longleftrightarrow> owners_ok kf c \<and> cache_ok kf c \<and> charges_ok kf c"

lemmas mock_inv_defs = mock_inv_def owners_ok_def cache_ok_def charges_ok_def

lemma owners_okD:
  assumes "owners_ok kf (ts, s)"
  shows "i < length ts \<Longrightarrow> ts ! i = (req, ph) \<Longrightarrow> owns ph = Some e \<Longrightarrow> e < length (mk_entries s)
        \<and> \<not> ce_ready (mk_entries s ! e) \<and> kf e = charge_key req \<and> charge_key req \<noteq> []"
    and "i < length ts \<Longrightarrow> j < length ts \<Longrightarrow> owns (snd (ts ! i)) = Some e \<Longrightarrow> owns (snd (ts ! j)) = Some e \<Longrightarrow> i = j"
    and "i < length ts \<Longrightarrow> ts ! i = (req, ph) \<Longrightarrow> owns_cached ph = Some e \<Longrightarrow> mk_cache s (charge_key req) = Some e"
    and "e < length (mk_entries s) \<Longrightarrow> \<not> ce_ready (mk_entries s ! e) \<Longrightarrow>
        ce_resp (mk_entries s ! e) = zero_response \<and> (\<exists>i < length ts. owns (snd (ts ! i)) = Some e)"
  using assms unfolding owners_ok_def prod.case by (metis fst_conv snd_conv)+

lemma charged_cached:
  assumes "charges_ok kf (ts, s)" and "(r, x) \<in> set (mk_notified s)" and "charge_key r \<noteq> []"
  shows "\<exists>e. mk_cache s (charge_key r) = Some e \<and> ce_ready (mk_entries s ! e) \<and> ce_resp (mk_entries s ! e) = x"
  using assms unfolding charges_ok_def by simp

lemma charged_answer:
  assumes "charges_ok kf (ts, s)" and "(req, Answered code (Some x)) \<in> set ts" and "charge_key req \<noteq> []"
    and "resp_Status x = ''succeeded''"
  shows "\<exists>r. (r, x) \<in> set (mk_notified s) \<and> charge_key r = charge_key req"
proof -
  from assms(2) obtain i where "i < length ts" "fst (ts ! i) = req" "snd (ts ! i) = Answered code (Some x)"
    by (auto simp: in_set_conv_nth)
  with assms(1,3,4) show ?thesis unfolding charges_ok_def prod.case by blast
qed

lemma charges_of_key:
  "key \<noteq> [] \<Longrightarrow> length (filter (\<lambda>(r, x). charge_key r = key) ns) =
     count_list (filter (\<lambda>k. k \<noteq> []) (map (charge_key \<circ> fst) ns)) key"
  by (induction ns) auto

lemma count_distinct: "distinct xs \<Longrightarrow> count_list xs k \<le> Suc 0"
  by (induction xs) (auto simp: count_list_0_iff)

lemma charges_of_key_le:
  assumes "charges_ok kf (ts, s)" and "key \<noteq> []"
  shows "length (filter (\<lambda>(r, x). charge_key r = key) (mk_notified s)) \<le> 1"
  using assms by (simp add: charges_of_key charges_ok_def charged_keys_def [symmetric] count_distinct)

lemma mock_inv_init: "mock_inv kf ([], empty_mock)"
  by (simp add: mock_inv_defs empty_mock_def charged_keys_def)

lemma mock_inv_arrive: "mock_inv kf (ts, s) \<Longrightarrow> mock_inv kf (ts @ [(req, Received)], s)"
  unfolding mock_inv_defs by (auto simp: nth_append less_Suc_eq split: if_splits)

text \<open>A request that owns nothing ends, or waits for the entry of its key.\<close>

lemma mock_inv_answer:
  assumes "mock_inv kf (ts, s)" and "i < length ts" and "ts ! i = (req, ph)" and "owns ph = None" "owns_cached ph = None"
    and "owns ph' = None" and "owns_cached ph' = None"
    and "\<And>e. ph' = Waiting e \<Longrightarrow> e < length (mk_entries s) \<and> kf e = charge_key req \<and> charge_key req \<noteq> []"
    and "ph' = Charging None \<Longrightarrow> charge_key req = []"
    and "\<And>code x. ph' = Answered code (Some x) \<Longrightarrow> charge_key req \<noteq> [] \<Longrightarrow> resp_Status x = ''succeeded'' \<Longrightarrow>
      \<exists>r. (r, x) \<in> set (mk_notified s) \<and> charge_key r = charge_key req"
  shows "mock_inv kf (ts[i := (req, ph')], s)"
  unfolding mock_inv_def
proof (intro conjI)
  show "owners_ok kf (ts[i := (req, ph')], s)"
    using assms(1-7) unfolding mock_inv_def owners_ok_def
    by (simp add: nth_list_update) (metis option.distinct(1) snd_conv)
  show "cache_ok kf (ts[i := (req, ph')], s)"
    using assms(1,2,8,9) unfolding mock_inv_def cache_ok_def by (simp add: nth_list_update)
  show "charges_ok kf (ts[i := (req, ph')], s)"
    using assms(1,2,10) unfolding mock_inv_def charges_ok_def by (simp add: nth_list_update)
qed

text \<open>A request starts the first charge of its key: a new entry, of which it is the owner.\<close>

lemma mock_inv_start:
  assumes "mock_inv kf (ts, s)" and i: "i < length ts" and "ts ! i = (req, Received)"
    and key: "charge_key req \<noteq> []" and none: "mk_cache s (charge_key req) = None"
    and s': "getOrStart (charge_key req) s = ((e, True), s')"
  shows "mock_inv (kf(e := charge_key req)) (ts[i := (req, Charging (Some e))], s')"
proof -
  let ?kf = "kf(e := charge_key req)"
  let ?new = "\<lparr>ce_ready = False, ce_resp = zero_response, ce_httpCode = 200\<rparr>"
  from none s' have e: "e = length (mk_entries s)" and s1: "mk_cache s' = (mk_cache s)(charge_key req \<mapsto> e)"
      "mk_entries s' = mk_entries s @ [?new]" "mk_notified s' = mk_notified s"
    by (auto simp: getOrStart_def Let_def)
  have z: "resp_Status zero_response \<noteq> ''succeeded''" by (simp add: zero_response_def)
  have "owners_ok kf (ts, s)" and "cache_ok kf (ts, s)" and "charges_ok kf (ts, s)"
    using assms(1) by (auto simp: mock_inv_def)
  note o = this(1) [unfolded owners_ok_def prod.case] and c = this(2) [unfolded cache_ok_def prod.case]
    and h = this(3) [unfolded charges_ok_def prod.case]
  have "owners_ok ?kf (ts[i := (req, Charging (Some e))], s')"
    using o i key none assms(3) unfolding owners_ok_def prod.case s1 e
    by (auto simp: nth_list_update nth_append less_Suc_eq) (metis less_irrefl option.distinct(1) owns.simps snd_conv)+
  moreover have "cache_ok ?kf (ts[i := (req, Charging (Some e))], s')"
    using c i unfolding cache_ok_def prod.case s1 e by (auto simp: nth_list_update nth_append less_Suc_eq)
  moreover have "charges_ok ?kf (ts[i := (req, Charging (Some e))], s')"
  proof -
    have no: "charge_key r \<noteq> charge_key req" if "(r, x) \<in> set (mk_notified s)" for r x
      using h that key none by (metis option.distinct(1))
    have old: "\<exists>e'. mk_cache s (charge_key r) = Some e' \<and> e' < length (mk_entries s) \<and> ce_ready (mk_entries s ! e')
        \<and> ce_resp (mk_entries s ! e') = x" if "(r, x) \<in> set (mk_notified s)" "charge_key r \<noteq> []" for r x
      using h c that by blast
    show ?thesis
      unfolding charges_ok_def charged_keys_def prod.case s1 e
    proof (intro conjI allI impI)
      fix r x assume "(r, x) \<in> set (mk_notified s)" and "charge_key r \<noteq> []"
      with old [of r x] no [of r x]
      show "\<exists>e'. ((mk_cache s)(charge_key req \<mapsto> length (mk_entries s))) (charge_key r) = Some e'
          \<and> ce_ready ((mk_entries s @ [?new]) ! e') \<and> ce_resp ((mk_entries s @ [?new]) ! e') = x"
        by (auto simp: nth_append)
    qed (use h i z in \<open>auto simp: charged_keys_def nth_list_update nth_append less_Suc_eq\<close>)
  qed
  ultimately show ?thesis by (simp add: mock_inv_def)
qed

text \<open>The owner fills its entry and is done: a success is the first for the key.\<close>

lemma mock_inv_finish:
  assumes "mock_inv kf (ts, s)" and i: "i < length ts" and ph: "ts ! i = (req, Charging (Some e))"
    and s': "finish (Some e) req 200 x (resp_Status x = ''succeeded'') s = (ph', s')"
  shows "mock_inv kf (ts[i := (req, ph')], s')"
proof -
  have "owners_ok kf (ts, s)" and "cache_ok kf (ts, s)" and "charges_ok kf (ts, s)"
    using assms(1) by (auto simp: mock_inv_def)
  note o = this(1) [unfolded owners_ok_def prod.case] and c = this(2) [unfolded cache_ok_def prod.case]
    and h = this(3) [unfolded charges_ok_def prod.case]
  let ?done = "\<lparr>ce_ready = True, ce_resp = x, ce_httpCode = 200\<rparr>"
  let ?new = "if resp_Status x = ''succeeded'' then [(req, x)] else []"
  from s' have s1: "mk_cache s' = mk_cache s" "mk_entries s' = (mk_entries s)[e := ?done]"
      "mk_notified s' = mk_notified s @ ?new" and ph': "ph' = Answered 200 (Some x)"
    by (auto simp: finish_def Let_def)
  note own = owners_okD [OF \<open>owners_ok kf (ts, s)\<close>]
  have e: "e < length (mk_entries s)" "\<not> ce_ready (mk_entries s ! e)" "kf e = charge_key req" "charge_key req \<noteq> []"
    and cached: "mk_cache s (charge_key req) = Some e"
    using own(1,3) [OF i ph, of e] by simp_all
  have no: "charge_key r \<noteq> charge_key req" if "(r, y) \<in> set (mk_notified s)" for r y
    using charged_cached [OF \<open>charges_ok kf (ts, s)\<close> that] e cached by auto
  have one: "j = i" if "j < length ts" "owns (snd (ts ! j)) = Some e" for j
    by (rule own(2) [OF that(1) i that(2)]) (simp add: ph)
  have "owners_ok kf (ts[i := (req, ph')], s')"
    unfolding owners_ok_def prod.case s1 ph'
  proof (intro conjI allI impI)
    fix e' assume a: "e' < length ((mk_entries s)[e := ?done])" "\<not> ce_ready ((mk_entries s)[e := ?done] ! e')"
    then have ne: "e' \<noteq> e" by (intro notI) simp
    with a have e': "e' < length (mk_entries s)" "\<not> ce_ready (mk_entries s ! e')" by simp_all
    with own(4) [OF e'] ne show "ce_resp ((mk_entries s)[e := ?done] ! e') = zero_response" by simp
    from own(4) [OF e'] obtain j where "j < length ts" "owns (snd (ts ! j)) = Some e'" by blast
    moreover from this ne ph have "j \<noteq> i" by auto
    ultimately show "\<exists>j < length (ts[i := (req, Answered 200 (Some x))]).
        owns (snd (ts[i := (req, Answered 200 (Some x))] ! j)) = Some e'" by auto
  qed (use o one e in \<open>auto simp: nth_list_update split: if_splits\<close>)
  moreover have "cache_ok kf (ts[i := (req, ph')], s')"
    using c i unfolding cache_ok_def prod.case s1 ph' by (auto simp: nth_list_update)
  moreover have "charges_ok kf (ts[i := (req, ph')], s')"
    unfolding charges_ok_def prod.case s1 ph'
  proof (intro conjI allI impI)
    show "distinct (charged_keys s')" using h no unfolding charged_keys_def s1 by force
  next
    fix r y assume r: "(r, y) \<in> set (mk_notified s @ ?new)" "charge_key r \<noteq> []"
    show "\<exists>e'. mk_cache s (charge_key r) = Some e' \<and> ce_ready ((mk_entries s)[e := ?done] ! e')
        \<and> ce_resp ((mk_entries s)[e := ?done] ! e') = y"
    proof (cases "(r, y) \<in> set (mk_notified s)")
      case True
      from charged_cached [OF \<open>charges_ok kf (ts, s)\<close> True r(2)] e(2) show ?thesis by (metis nth_list_update_neq)
    next
      case False
      with r have "r = req" "y = x" by (auto split: if_splits)
      with cached e(1) show ?thesis by simp
    qed
  next
    fix e' assume "e' < length ((mk_entries s)[e := ?done])"
      and "resp_Status (ce_resp ((mk_entries s)[e := ?done] ! e')) = ''succeeded''"
    with h e show "\<exists>r. (r, ce_resp ((mk_entries s)[e := ?done] ! e')) \<in> set (mk_notified s @ ?new) \<and> charge_key r = kf e'"
      by (cases "e' = e") auto
  next
    fix j code y assume "j < length (ts[i := (req, Answered 200 (Some x))])"
      and "snd (ts[i := (req, Answered 200 (Some x))] ! j) = Answered code (Some y)"
      and "charge_key (fst (ts[i := (req, Answered 200 (Some x))] ! j)) \<noteq> []" and "resp_Status y = ''succeeded''"
    with h i show "\<exists>r. (r, y) \<in> set (mk_notified s @ ?new)
        \<and> charge_key r = charge_key (fst (ts[i := (req, Answered 200 (Some x))] ! j))"
      by (cases "j = i"; fastforce)
  qed
  ultimately show ?thesis by (simp add: mock_inv_def)
qed

text \<open>The owner goes on owning its entry, and may take the key out of the cache.\<close>

lemma mock_inv_keep:
  assumes "mock_inv kf (ts, s)" and i: "i < length ts" and ph: "ts ! i = (req, ph)" and "owns ph = Some e"
    and "owns_cached ph = Some e" and ph': "ph' = Deleting e code \<or> ph' = Closing e code"
    and len: "length (mk_entries s') = length (mk_entries s)"
    and same: "\<And>j. j < length (mk_entries s) \<Longrightarrow> ce_ready (mk_entries s' ! j) = ce_ready (mk_entries s ! j)
        \<and> ce_resp (mk_entries s' ! j) = ce_resp (mk_entries s ! j)"
    and nt: "mk_notified s' = mk_notified s"
    and ca: "mk_cache s' = mk_cache s \<or> (mk_cache s' = (mk_cache s)(charge_key req := None) \<and> owns_cached ph' = None)"
  shows "mock_inv kf (ts[i := (req, ph')], s')"
proof -
  have "owners_ok kf (ts, s)" and "cache_ok kf (ts, s)" and "charges_ok kf (ts, s)"
    using assms(1) by (auto simp: mock_inv_def)
  note own = owners_okD [OF \<open>owners_ok kf (ts, s)\<close>]
  have p: "owns ph' = Some e" "owns_cached ph' = None \<or> owns_cached ph' = Some e" "\<And>x. ph' \<noteq> Waiting x" "ph' \<noteq> Charging None"
      "\<And>c x. ph' \<noteq> Answered c x"
    using ph' by auto
  have e: "e < length (mk_entries s)" "\<not> ce_ready (mk_entries s ! e)" "kf e = charge_key req" "charge_key req \<noteq> []"
    and cached: "mk_cache s (charge_key req) = Some e"
    using own(1,3) [OF i ph, of e] assms(4,5) by simp_all
  have no: "charge_key r \<noteq> charge_key req" if "(r, y) \<in> set (mk_notified s)" for r y
    using charged_cached [OF \<open>charges_ok kf (ts, s)\<close> that] e cached by auto
  have keep: "mk_cache s' k = mk_cache s k" if "k \<noteq> charge_key req" for k using ca that by auto
  have sub: "mk_cache s' k = Some x \<Longrightarrow> mk_cache s k = Some x" for k x using ca by (auto split: if_splits)
  have owns': "owns (snd (ts[i := (req, ph')] ! j)) = owns (snd (ts ! j))" if "j < length ts" for j
    using that i ph p(1) assms(4) by (cases "i = j") auto
  have fst': "fst (ts[i := (req, ph')] ! j) = fst (ts ! j)" if "j < length ts" for j
    using that i ph by (cases "i = j") auto
  have "owners_ok kf (ts[i := (req, ph')], s')"
    unfolding owners_ok_def prod.case length_list_update len
  proof (intro conjI allI impI)
    fix j x assume j: "j < length ts" "owns_cached (snd (ts[i := (req, ph')] ! j)) = Some x"
    show "mk_cache s' (charge_key (fst (ts[i := (req, ph')] ! j))) = Some x"
    proof (cases "j = i")
      case True
      with j i p(2) ca cached show ?thesis by auto
    next
      case False
      with j have c: "owns_cached (snd (ts ! j)) = Some x" by simp
      then have "owns (snd (ts ! j)) = Some x" by (cases "snd (ts ! j)") auto
      moreover from this have "x \<noteq> e" using own(2) [OF j(1) i, of e] ph assms(4) False by auto
      ultimately have "charge_key (fst (ts ! j)) \<noteq> charge_key req"
        using own(3) [OF j(1), of _ _ x] c cached by (metis option.inject prod.collapse)
      with False c keep own(3) [OF j(1), of _ _ x] show ?thesis by (metis nth_list_update_neq prod.collapse)
    qed
  next
    fix x assume "x < length (mk_entries s)" "\<not> ce_ready (mk_entries s' ! x)"
    with own(4) [of x] same show "ce_resp (mk_entries s' ! x) = zero_response"
      and "\<exists>j < length ts. owns (snd (ts[i := (req, ph')] ! j)) = Some x"
      using owns' by (simp, metis)
  qed (use \<open>owners_ok kf (ts, s)\<close> same in \<open>auto simp: owns' fst' owners_ok_def\<close>)
  moreover have "cache_ok kf (ts[i := (req, ph')], s')"
    using \<open>cache_ok kf (ts, s)\<close> i p(3,4) unfolding cache_ok_def prod.case len length_list_update
    by (auto simp: nth_list_update dest!: sub)
  moreover have "charges_ok kf (ts[i := (req, ph')], s')"
    unfolding charges_ok_def prod.case nt
  proof (intro conjI allI impI)
    show "distinct (charged_keys s')" using \<open>charges_ok kf (ts, s)\<close> by (simp add: charges_ok_def charged_keys_def nt)
  next
    fix r x assume r: "(r, x) \<in> set (mk_notified s)" "charge_key r \<noteq> []"
    from charged_cached [OF \<open>charges_ok kf (ts, s)\<close> r] obtain x' where x': "mk_cache s (charge_key r) = Some x'"
      "ce_ready (mk_entries s ! x')" "ce_resp (mk_entries s ! x') = x" by blast
    moreover have "x' < length (mk_entries s)" using \<open>cache_ok kf (ts, s)\<close> x'(1) by (simp add: cache_ok_def)
    ultimately show "\<exists>e. mk_cache s' (charge_key r) = Some e \<and> ce_ready (mk_entries s' ! e) \<and> ce_resp (mk_entries s' ! e) = x"
      using keep [OF no [OF r(1)]] same by simp
  qed (use \<open>charges_ok kf (ts, s)\<close> i p(5) same in \<open>auto simp: charges_ok_def len nth_list_update split: if_splits\<close>)
  ultimately show ?thesis by (simp add: mock_inv_def)
qed

text \<open>The owner closes the channel of an entry that is no longer cached.\<close>

lemma mock_inv_close:
  assumes "mock_inv kf (ts, s)" and i: "i < length ts" and ph: "ts ! i = (req, Closing e code)"
    and s': "s' = s\<lparr>mk_entries := (mk_entries s)[e := (mk_entries s ! e)\<lparr>ce_ready := True\<rparr>]\<rparr>"
  shows "mock_inv kf (ts[i := (req, Answered code None)], s')"
proof -
  have "owners_ok kf (ts, s)" and "cache_ok kf (ts, s)" and "charges_ok kf (ts, s)"
    using assms(1) by (auto simp: mock_inv_def)
  note own = owners_okD [OF \<open>owners_ok kf (ts, s)\<close>]
  let ?es = "(mk_entries s)[e := (mk_entries s ! e)\<lparr>ce_ready := True\<rparr>]"
  have s1: "mk_cache s' = mk_cache s" "mk_entries s' = ?es" "mk_notified s' = mk_notified s" by (simp_all add: s')
  have e: "e < length (mk_entries s)" "\<not> ce_ready (mk_entries s ! e)" using own(1) [OF i ph, of e] by simp_all
  have one: "j = i" if "j < length ts" "owns (snd (ts ! j)) = Some e" for j
    by (rule own(2) [OF that(1) i that(2)]) (simp add: ph)
  have resp: "ce_resp (?es ! x) = ce_resp (mk_entries s ! x)" for x
    using e by (cases "x = e") auto
  have "owners_ok kf (ts[i := (req, Answered code None)], s')"
    unfolding owners_ok_def prod.case s1 length_list_update
  proof (intro conjI allI impI)
    fix x assume x: "x < length (mk_entries s)" "\<not> ce_ready (?es ! x)"
    then have ne: "x \<noteq> e" by (intro notI) simp
    with x have nr: "\<not> ce_ready (mk_entries s ! x)" by simp
    from own(4) [OF x(1) nr] show "ce_resp (?es ! x) = zero_response" by (simp add: resp)
    from own(4) [OF x(1) nr] obtain j where "j < length ts" "owns (snd (ts ! j)) = Some x" by blast
    moreover from this ne ph have "j \<noteq> i" by auto
    ultimately show "\<exists>j < length ts. owns (snd (ts[i := (req, Answered code None)] ! j)) = Some x" by auto
  qed (use \<open>owners_ok kf (ts, s)\<close> one e in \<open>auto simp: owners_ok_def nth_list_update split: if_splits\<close>)
  moreover have "cache_ok kf (ts[i := (req, Answered code None)], s')"
    using \<open>cache_ok kf (ts, s)\<close> i unfolding cache_ok_def prod.case s1 by (auto simp: nth_list_update)
  moreover have "charges_ok kf (ts[i := (req, Answered code None)], s')"
    unfolding charges_ok_def prod.case s1 length_list_update
  proof (intro conjI allI impI)
    show "distinct (charged_keys s')"
      using \<open>charges_ok kf (ts, s)\<close> by (simp add: charges_ok_def charged_keys_def s1)
  next
    fix r x assume r: "(r, x) \<in> set (mk_notified s)" "charge_key r \<noteq> []"
    from charged_cached [OF \<open>charges_ok kf (ts, s)\<close> r] e(2)
    show "\<exists>y. mk_cache s (charge_key r) = Some y \<and> ce_ready (?es ! y) \<and> ce_resp (?es ! y) = x"
      by (metis nth_list_update_neq)
  qed (use \<open>charges_ok kf (ts, s)\<close> i in \<open>auto simp: resp charges_ok_def nth_list_update split: if_splits\<close>)
  ultimately show ?thesis by (simp add: mock_inv_def)
qed

text \<open>A request without a key has no entry.\<close>

lemma mock_inv_unkeyed:
  assumes "mock_inv kf (ts, s)" and i: "i < length ts" and ph: "ts ! i = (req, Charging None)"
    and s': "finish None req 200 x notify s = (ph', s')"
  shows "mock_inv kf (ts[i := (req, ph')], s')"
proof -
  have "owners_ok kf (ts, s)" and "cache_ok kf (ts, s)" and "charges_ok kf (ts, s)"
    using assms(1) by (auto simp: mock_inv_def)
  let ?new = "if notify \<and> resp_Status x = ''succeeded'' then [(req, x)] else []"
  from s' have s1: "s' = s\<lparr>mk_notified := mk_notified s @ ?new\<rparr>" and ph': "ph' = Answered 200 (Some x)"
    by (auto simp: finish_def Let_def)
  have key: "charge_key req = []" using \<open>cache_ok kf (ts, s)\<close> i ph by (auto simp: cache_ok_def)
  have "mock_inv kf (ts[i := (req, ph')], s)"
    by (rule mock_inv_answer [OF assms(1) i ph]) (simp_all add: ph' key)
  then have 1: "owners_ok kf (ts[i := (req, ph')], s)" "cache_ok kf (ts[i := (req, ph')], s)"
    and h: "charges_ok kf (ts[i := (req, ph')], s)" by (auto simp: mock_inv_def)
  have "charged_keys s' = charged_keys s" by (simp add: charged_keys_def s1 key)
  then have "charges_ok kf (ts[i := (req, ph')], s')"
    using h key unfolding charges_ok_def prod.case by (simp add: s1) blast
  with 1 show ?thesis by (simp add: mock_inv_def owners_ok_def cache_ok_def s1)
qed

lemma mock_inv_uuids [simp]: "mock_inv kf (ts, s\<lparr>mk_uuids := n\<rparr>) = mock_inv kf (ts, s)"
  by (simp add: mock_inv_defs charged_keys_def)

subsection \<open>Every step\<close>

lemma completeCharge_cases:
  obtains (finished) x s1 where "completeCharge rt req entry s = finish entry req 200 x (resp_Status x = ''succeeded'') s1"
      and "s1 = s \<or> s1 = s\<lparr>mk_uuids := Suc (mk_uuids s)\<rparr>"
  | (failed) code where "completeCharge rt req entry s = failUncached entry code s"
proof -
  have f: "(resp_Status (failed_response code) = ''succeeded'') = False"
    "(resp_Status (succeeded_response ref) = ''succeeded'') = True" for code ref
    by (simp_all add: failed_response_def succeeded_response_def)
  let ?t = "req_CardToken req"
  consider (ok) "?t = ''tok_success'' \<or> ?t = ''tok_timeout''" | (poor) "?t = ''tok_insufficient_funds''"
    | (declined) "?t = ''tok_card_declined''" | (net) "?t = ''tok_network_error''"
    | (other) "?t \<notin> {''tok_success'', ''tok_timeout'', ''tok_insufficient_funds'', ''tok_card_declined'', ''tok_network_error''}"
    by blast
  then show thesis
  proof cases
    case ok
    then show thesis by (intro finished [of "succeeded_response _"]) (auto simp: completeCharge_def f)
  next
    case poor
    then show thesis by (intro finished [of "failed_response _"]) (auto simp: completeCharge_def f)
  next
    case declined
    then show thesis by (intro finished [of "failed_response _"]) (auto simp: completeCharge_def f)
  next
    case net
    then show thesis by (intro failed) (simp add: completeCharge_def)
  next
    case other
    then show thesis by (intro failed) (simp add: completeCharge_def)
  qed
qed

lemma advance_inv:
  assumes I: "mock_inv kf (ts, s)" and i: "i < length ts" and ph: "ts ! i = (req, ph)"
    and a: "advance rt req ph s = Some (ph', s')"
  shows "\<exists>kf'. mock_inv kf' (ts[i := (req, ph')], s') \<and> (\<forall>e < length (mk_entries s). kf' e = kf e)"
proof (cases ph)
  case Received
  have quiet: "mock_inv kf (ts[i := (req, p)], s)"
    if "owns p = None" "\<And>e. p = Waiting e \<Longrightarrow> mk_cache s (charge_key req) = Some e \<and> charge_key req \<noteq> []"
      "p = Charging None \<Longrightarrow> charge_key req = []" "\<And>c x. p \<noteq> Answered c (Some x)" for p
  proof (rule mock_inv_answer [OF I i ph])
    show "owns_cached p = None" using that(1) by (cases p) auto
    show "e < length (mk_entries s) \<and> kf e = charge_key req \<and> charge_key req \<noteq> []" if "p = Waiting e" for e
      using \<open>p = Waiting e \<Longrightarrow> _\<close> [OF that] I by (auto simp: mock_inv_def cache_ok_def)
  qed (use that Received in auto)
  show ?thesis
  proof (cases "req_CardToken req = [] \<or> charge_key req = []")
    case True
    with a Received have "s' = s" "ph' = Answered 400 None \<or> ph' = Charging None" "ph' = Charging None \<Longrightarrow> charge_key req = []"
      by (auto split: if_splits)
    then show ?thesis using quiet [of ph'] by (intro exI [of _ kf]) auto
  next
    case False
    then have k: "req_CardToken req \<noteq> []" "charge_key req \<noteq> []" by auto
    show ?thesis
    proof (cases "mk_cache s (charge_key req)")
      case None
      then obtain e s1 where g: "getOrStart (charge_key req) s = ((e, True), s1)" by (simp add: getOrStart_def Let_def)
      with a Received k have "ph' = Charging (Some e)" "s' = s1" by auto
      with mock_inv_start [OF I i _ k(2) None g] ph Received
      show ?thesis by (intro exI [of _ "kf(e := charge_key req)"]) (use None g in \<open>auto simp: getOrStart_def Let_def\<close>)
    next
      case (Some e)
      then have "getOrStart (charge_key req) s = ((e, False), s)" by (simp add: getOrStart_def)
      with a Received k have "ph' = Waiting e" "s' = s" by auto
      with quiet [of ph'] Some k show ?thesis by auto
    qed
  qed
next
  case (Waiting e)
  with a have s': "s' = s" and ph': "ph' = Answered (ce_httpCode (mk_entries s ! e))
      (if ce_httpCode (mk_entries s ! e) \<ge> 500 then None else Some (ce_resp (mk_entries s ! e)))"
    by (auto simp: Let_def split: if_splits)
  from I i ph Waiting have e: "e < length (mk_entries s)" "kf e = charge_key req"
    by (auto simp: mock_inv_def cache_ok_def)
  have "mock_inv kf (ts[i := (req, ph')], s)"
  proof (rule mock_inv_answer [OF I i ph])
    fix code x assume "ph' = Answered code (Some x)" "resp_Status x = ''succeeded''"
    with ph' have "x = ce_resp (mk_entries s ! e)" by (auto split: if_splits)
    with I e \<open>resp_Status x = _\<close> show "\<exists>r. (r, x) \<in> set (mk_notified s) \<and> charge_key r = charge_key req"
      unfolding mock_inv_def charges_ok_def by fastforce
  qed (use Waiting ph' in auto)
  with s' show ?thesis by auto
next
  case (Charging entry)
  with a have c: "completeCharge rt req entry s = (ph', s')" by simp
  show ?thesis
  proof (cases rule: completeCharge_cases [of rt req entry s])
    case (finished x s1)
    have I1: "mock_inv kf (ts, s1)" using finished(2) I by auto
    from finished(1) c have f: "finish entry req 200 x (resp_Status x = ''succeeded'') s1 = (ph', s')" by simp
    show ?thesis
    proof (cases entry)
      case None
      with mock_inv_unkeyed [OF I1 i _ f [unfolded None]] ph Charging show ?thesis by auto
    next
      case (Some e)
      with mock_inv_finish [OF I1 i _ f [unfolded Some]] ph Charging show ?thesis by auto
    qed
  next
    case (failed code)
    show ?thesis
    proof (cases entry)
      case None
      with failed c have "ph' = Answered code None" "s' = s" by (auto simp: failUncached_def)
      moreover have "mock_inv kf (ts[i := (req, Answered code None)], s)"
        by (rule mock_inv_answer [OF I i ph]) (use Charging None in auto)
      ultimately show ?thesis by auto
    next
      case (Some e)
      with failed c have p: "ph' = Deleting e code"
        and s1: "s' = s\<lparr>mk_entries := (mk_entries s)[e := (mk_entries s ! e)\<lparr>ce_httpCode := code\<rparr>]\<rparr>"
        by (auto simp: failUncached_def)
      have "ce_ready (mk_entries s' ! j) = ce_ready (mk_entries s ! j) \<and> ce_resp (mk_entries s' ! j) = ce_resp (mk_entries s ! j)"
        if "j < length (mk_entries s)" for j
        using that s1 by (cases "j = e") auto
      then have "mock_inv kf (ts[i := (req, ph')], s')"
        using mock_inv_keep [OF I i ph, of e ph' code s'] Charging Some p s1 by simp
      then show ?thesis by auto
    qed
  qed
next
  case (Deleting e code)
  with a have "ph' = Closing e code" "s' = s\<lparr>mk_cache := (mk_cache s)(charge_key req := None)\<rparr>" by auto
  with mock_inv_keep [OF I i ph, of e ph' code s'] Deleting show ?thesis by auto
next
  case (Closing e code)
  with a mock_inv_close [OF I i] ph show ?thesis by auto
next
  case (Answered code body)
  with a show ?thesis by simp
qed

lemma mock_reach_inv: "mock_reach rt c \<Longrightarrow> \<exists>kf. mock_inv kf c"
proof (induction rule: mock_reach.induct)
  case mock_init
  show ?case using mock_inv_init by blast
next
  case (mock_more c c')
  from mock_more(2,3) show ?case
    by (cases rule: mock_step.cases) (auto intro: mock_inv_arrive dest: advance_inv)
qed

end
