(* ===== verification/Mock_PSP_Cards.thy ===== *)
theory Mock_PSP_Cards
  imports Mock_PSP_Facts
begin

text \<open>
  What the shipped provider's answers say of the cards: under every interleaving of its requests,
  the answer to a request under a key is the one that the card of some request under the key
  deserves. Where a key is used with one card only, a refusal is for a card the provider does
  not accept.
\<close>

text \<open>The cards the provider accepts.\<close>

definition mock_accepts :: "string \<Rightarrow> bool" where
  "mock_accepts tok \<longleftrightarrow> tok = ''tok_success'' \<or> tok = ''tok_timeout''"

text \<open>A code and a body that fit the card: no rejection of an accepted card, and a success for accepted cards only.\<close>

definition fits :: "nat \<Rightarrow> ChargeResponse option \<Rightarrow> ChargeRequest \<Rightarrow> bool" where
  "fits code body req \<longleftrightarrow> (if 400 \<le> code then \<not> mock_accepts (req_CardToken req)
     else \<forall>x. body = Some x \<longrightarrow> (resp_Status x = ''succeeded'' \<longleftrightarrow> mock_accepts (req_CardToken req)))"

text \<open>Some request under the key has a card that the code and the body fit.\<close>

definition deserved :: "(ChargeRequest \<times> phase) list \<Rightarrow> string \<Rightarrow> nat \<Rightarrow> ChargeResponse option \<Rightarrow> bool" where
  "deserved ts key code body \<longleftrightarrow> (\<exists>r \<in> fst ` set ts. charge_key r = key \<and> fits code body r)"

fun phase_ok :: "(ChargeRequest \<times> phase) list \<Rightarrow> mockPSP \<Rightarrow> ChargeRequest \<times> phase \<Rightarrow> bool" where
  "phase_ok ts s (req, Deleting e code) \<longleftrightarrow>
     400 \<le> code \<and> \<not> mock_accepts (req_CardToken req) \<and> ce_httpCode (mk_entries s ! e) = code"
| "phase_ok ts s (req, Closing e code) \<longleftrightarrow>
     400 \<le> code \<and> \<not> mock_accepts (req_CardToken req) \<and> ce_httpCode (mk_entries s ! e) = code"
| "phase_ok ts s (req, Answered code body) \<longleftrightarrow> deserved ts (charge_key req) code body"
| "phase_ok ts s (req, ph) \<longleftrightarrow> True"

definition cards_ok :: "(nat \<Rightarrow> string) \<Rightarrow> mock_config \<Rightarrow> bool" where
  "cards_ok kf c \<longleftrightarrow> (case c of (ts, s) \<Rightarrow>
     (\<forall>e < length (mk_entries s). ce_ready (mk_entries s ! e) \<longrightarrow>
        deserved ts (kf e) (ce_httpCode (mk_entries s ! e)) (Some (ce_resp (mk_entries s ! e))))
   \<and> (\<forall>t \<in> set ts. phase_ok ts s t))"

lemma cards_okD:
  assumes "cards_ok kf (ts, s)"
  shows "e < length (mk_entries s) \<Longrightarrow> ce_ready (mk_entries s ! e) \<Longrightarrow>
      deserved ts (kf e) (ce_httpCode (mk_entries s ! e)) (Some (ce_resp (mk_entries s ! e)))"
    and "t \<in> set ts \<Longrightarrow> phase_ok ts s t"
  using assms by (auto simp: cards_ok_def)

subsection \<open>One step\<close>

lemma deserved_same: "fst ` set ts \<subseteq> fst ` set ts' \<Longrightarrow> deserved ts k code body \<Longrightarrow> deserved ts' k code body"
  unfolding deserved_def by blast

lemma deserved_own: "(req, ph) \<in> set ts \<Longrightarrow> fits code body req \<Longrightarrow> deserved ts (charge_key req) code body"
  by (force simp: deserved_def)

lemma deserved_body: "deserved ts k code (Some x) \<Longrightarrow> deserved ts k code (if 500 \<le> code then None else Some x)"
  by (auto simp: deserved_def fits_def)

lemma update_requests:
  assumes "i < length ts" and "ts ! i = (req, ph)"
  shows "fst ` set (ts[i := (req, ph')]) = fst ` set ts"
proof -
  have "map fst (ts[i := (req, ph')]) = map fst ts"
    by (metis assms fst_conv list_update_id map_update)
  then show ?thesis by (metis set_map)
qed

text \<open>Other requests' phases stay right when their requests and the codes of their entries stay.\<close>

lemma phase_ok_keep:
  assumes "phase_ok ts s (r, p)" and "fst ` set ts \<subseteq> fst ` set ts'"
    and "\<And>e. owns p = Some e \<Longrightarrow> ce_httpCode (mk_entries s' ! e) = ce_httpCode (mk_entries s ! e)"
  shows "phase_ok ts' s' (r, p)"
  using assms by (cases p) (auto intro: deserved_same)

text \<open>The step of a request that leaves the entries which others own, or which are ready, as they are.\<close>

lemma cards_ok_step:
  assumes C: "cards_ok kf (ts, s)" and i: "i < length ts" and ph: "ts ! i = (req, ph)"
    and kf': "\<And>e. e < length (mk_entries s) \<Longrightarrow> kf' e = kf e"
    and own: "\<And>j e. j < length ts \<Longrightarrow> j \<noteq> i \<Longrightarrow> owns (snd (ts ! j)) = Some e \<Longrightarrow>
        ce_httpCode (mk_entries s' ! e) = ce_httpCode (mk_entries s ! e)"
    and new: "phase_ok (ts[i := (req, ph')]) s' (req, ph')"
    and ready: "\<And>e. e < length (mk_entries s') \<Longrightarrow> ce_ready (mk_entries s' ! e) \<Longrightarrow>
        (e < length (mk_entries s) \<and> mk_entries s' ! e = mk_entries s ! e)
        \<or> (kf' e = charge_key req \<and> fits (ce_httpCode (mk_entries s' ! e)) (Some (ce_resp (mk_entries s' ! e))) req)"
  shows "cards_ok kf' (ts[i := (req, ph')], s')"
proof -
  let ?ts = "ts[i := (req, ph')]"
  have same: "fst ` set ts \<subseteq> fst ` set ?ts" using update_requests [OF i ph] by simp
  have me: "(req, ph') \<in> set ?ts" using i by (simp add: set_update_memI)
  have "deserved ?ts (kf' e) (ce_httpCode (mk_entries s' ! e)) (Some (ce_resp (mk_entries s' ! e)))"
    if e: "e < length (mk_entries s')" "ce_ready (mk_entries s' ! e)" for e
    using ready [OF e]
  proof
    assume old: "e < length (mk_entries s) \<and> mk_entries s' ! e = mk_entries s ! e"
    with cards_okD(1) [OF C, of e] e kf' show ?thesis by (auto intro: deserved_same [OF same])
  next
    assume "kf' e = charge_key req \<and> fits (ce_httpCode (mk_entries s' ! e)) (Some (ce_resp (mk_entries s' ! e))) req"
    with deserved_own [OF me] show ?thesis by simp
  qed
  moreover have "phase_ok ?ts s' t" if "t \<in> set ?ts" for t
  proof -
    from that obtain j where j: "j < length ts" "t = ?ts ! j" by (auto simp: in_set_conv_nth)
    show ?thesis
    proof (cases "j = i")
      case True
      with j new show ?thesis by simp
    next
      case False
      obtain r p where t: "ts ! j = (r, p)" by (cases "ts ! j")
      with j(1) have "phase_ok ts s (r, p)" using cards_okD(2) [OF C, of "(r, p)"] by (metis nth_mem)
      from phase_ok_keep [OF this same] own [OF j(1) False] t have "phase_ok ?ts s' (r, p)" by simp
      with j(2) False t show ?thesis by simp
    qed
  qed
  ultimately show ?thesis by (simp add: cards_ok_def)
qed

lemma completeCharge_fits:
  assumes "completeCharge rt req entry s = (ph', s')"
  obtains (finished) x s1 where "mk_entries s1 = mk_entries s" and "fits 200 (Some x) req"
      and "(ph', s') = finish entry req 200 x (resp_Status x = ''succeeded'') s1"
  | (failed) code where "400 \<le> code" and "\<not> mock_accepts (req_CardToken req)" and "(ph', s') = failUncached entry code s"
proof -
  let ?t = "req_CardToken req"
  consider (ok) "?t = ''tok_success'' \<or> ?t = ''tok_timeout''" | (poor) "?t = ''tok_insufficient_funds''"
    | (declined) "?t = ''tok_card_declined''" | (net) "?t = ''tok_network_error''"
    | (other) "?t \<notin> {''tok_success'', ''tok_timeout'', ''tok_insufficient_funds'', ''tok_card_declined'', ''tok_network_error''}"
    by blast
  then show thesis
  proof cases
    case ok
    then show thesis using assms
      by (intro finished [of "s\<lparr>mk_uuids := Suc (mk_uuids s)\<rparr>" "succeeded_response (uuid_New rt (mk_uuids s))"])
        (auto simp: completeCharge_def fits_def succeeded_response_def mock_accepts_def)
  next
    case poor
    then show thesis using assms
      by (intro finished [of s "failed_response ''insufficient_funds''"])
        (auto simp: completeCharge_def fits_def failed_response_def mock_accepts_def)
  next
    case declined
    then show thesis using assms
      by (intro finished [of s "failed_response ''card_declined''"])
        (auto simp: completeCharge_def fits_def failed_response_def mock_accepts_def)
  next
    case net
    then show thesis using assms by (intro failed [of 500]) (auto simp: completeCharge_def mock_accepts_def)
  next
    case other
    then show thesis using assms by (intro failed [of 400]) (auto simp: completeCharge_def mock_accepts_def)
  qed
qed

text \<open>What \<open>cards_ok_step\<close> asks, from the invariant of the owners.\<close>

lemma advance_cards:
  assumes I: "mock_inv kf (ts, s)" and C: "cards_ok kf (ts, s)" and i: "i < length ts" and ph: "ts ! i = (req, ph)"
    and a: "advance rt req ph s = Some (ph', s')" and kf': "\<And>e. e < length (mk_entries s) \<Longrightarrow> kf' e = kf e"
  shows "cards_ok kf' (ts[i := (req, ph')], s')"
proof -
  let ?ts = "ts[i := (req, ph')]"
  have o: "owners_ok kf (ts, s)" using I by (simp add: mock_inv_def)
  have mem: "(req, ph) \<in> set ts" using i ph by (metis nth_mem)
  have me: "(req, ph') \<in> set ?ts" using i by (simp add: set_update_memI)
  have same: "fst ` set ts \<subseteq> fst ` set ?ts" using update_requests [OF i ph] by simp
  have quiet: "cards_ok kf' (?ts, s')" if "mk_entries s' = mk_entries s" "phase_ok ?ts s' (req, ph')"
    by (rule cards_ok_step [OF C i ph kf']) (use that in auto)
  have mine: "e < length (mk_entries s) \<and> \<not> ce_ready (mk_entries s ! e) \<and> kf e = charge_key req"
    if "owns ph = Some e" for e
    using owners_okD(1) [OF o i ph that] by simp
  have apart: "owns (snd (ts ! j)) \<noteq> Some e" if "owns ph = Some e" "j < length ts" "j \<noteq> i" for e j
    using owners_okD(2) [OF o that(2) i, of e] ph that by auto
  show ?thesis
  proof (cases ph)
    case Received
    consider (empty) "ph' = Answered 400 None" "s' = s" "req_CardToken req = []"
      | (other) "ph' = Charging None \<or> (\<exists>e. ph' = Waiting e)" "s' = s"
      | (start) e where "ph' = Charging (Some e)"
          "mk_entries s' = mk_entries s @ [\<lparr>ce_ready = False, ce_resp = zero_response, ce_httpCode = 200\<rparr>]"
      using a Received by (auto simp: getOrStart_def Let_def split: if_splits option.splits)
    then show ?thesis
    proof cases
      case empty
      then show ?thesis using deserved_own [OF me] by (intro quiet) (auto simp: fits_def mock_accepts_def)
    next
      case other
      then show ?thesis by (intro quiet) auto
    next
      case start
      have old: "owns (snd (ts ! j)) = Some e \<Longrightarrow> j < length ts \<Longrightarrow> e < length (mk_entries s)" for j e
        using owners_okD(1) [OF o, of j "fst (ts ! j)" "snd (ts ! j)"] by simp
      show ?thesis
        by (rule cards_ok_step [OF C i ph kf']) (use start old in \<open>auto simp: nth_append less_Suc_eq split: if_splits\<close>)
    qed
  next
    case (Waiting e)
    let ?e = "mk_entries s ! e"
    from a Waiting have r: "ce_ready ?e" "s' = s"
      "ph' = Answered (ce_httpCode ?e) (if 500 \<le> ce_httpCode ?e then None else Some (ce_resp ?e))"
      by (auto simp: Let_def split: if_splits)
    have "e < length (mk_entries s) \<and> kf e = charge_key req"
      using I i ph Waiting by (auto simp: mock_inv_def cache_ok_def)
    with cards_okD(1) [OF C, of e] r(1) have "deserved ts (charge_key req) (ce_httpCode ?e) (Some (ce_resp ?e))" by auto
    from deserved_same [OF same deserved_body [OF this]] r show ?thesis by (intro quiet) auto
  next
    case (Charging entry)
    with a have c: "completeCharge rt req entry s = (ph', s')" by simp
    from c show ?thesis
    proof (cases rule: completeCharge_fits)
      case (finished x s1)
      show ?thesis
      proof (cases entry)
        case None
        with finished have "mk_entries s' = mk_entries s" "ph' = Answered 200 (Some x)"
          by (auto simp: finish_def Let_def split: if_splits)
        with finished(2) deserved_own [OF me] show ?thesis by (intro quiet) auto
      next
        case (Some e)
        with finished have s': "mk_entries s' = (mk_entries s)[e := \<lparr>ce_ready = True, ce_resp = x, ce_httpCode = 200\<rparr>]"
          and p: "ph' = Answered 200 (Some x)" by (auto simp: finish_def Let_def split: if_splits)
        have ow: "owns ph = Some e" using Charging Some by simp
        show ?thesis
        proof (rule cards_ok_step [OF C i ph kf'])
          show "phase_ok ?ts s' (req, ph')" using p finished(2) deserved_own [OF me] by simp
          show "ce_httpCode (mk_entries s' ! f) = ce_httpCode (mk_entries s ! f)"
            if "j < length ts" "j \<noteq> i" "owns (snd (ts ! j)) = Some f" for j f
            using apart [OF ow that(1,2)] that(3) by (auto simp: s')
          show "(f < length (mk_entries s) \<and> mk_entries s' ! f = mk_entries s ! f)
              \<or> (kf' f = charge_key req \<and> fits (ce_httpCode (mk_entries s' ! f)) (Some (ce_resp (mk_entries s' ! f))) req)"
            if "f < length (mk_entries s')" for f
            using that mine [OF ow] kf' [of e] finished(2) by (cases "f = e") (auto simp: s')
        qed
      qed
    next
      case (failed code)
      show ?thesis
      proof (cases entry)
        case None
        with failed have "ph' = Answered code None" "s' = s" by (auto simp: failUncached_def)
        with failed deserved_own [OF me] show ?thesis by (intro quiet) (auto simp: fits_def)
      next
        case (Some e)
        with failed have p: "ph' = Deleting e code"
          and s': "mk_entries s' = (mk_entries s)[e := (mk_entries s ! e)\<lparr>ce_httpCode := code\<rparr>]"
          by (auto simp: failUncached_def)
        have ow: "owns ph = Some e" using Charging Some by simp
        show ?thesis
        proof (rule cards_ok_step [OF C i ph kf'])
          show "phase_ok ?ts s' (req, ph')" using p failed mine [OF ow] by (simp add: s')
          show "ce_httpCode (mk_entries s' ! f) = ce_httpCode (mk_entries s ! f)"
            if "j < length ts" "j \<noteq> i" "owns (snd (ts ! j)) = Some f" for j f
            using apart [OF ow that(1,2)] that(3) by (auto simp: s')
          show "(f < length (mk_entries s) \<and> mk_entries s' ! f = mk_entries s ! f)
              \<or> (kf' f = charge_key req \<and> fits (ce_httpCode (mk_entries s' ! f)) (Some (ce_resp (mk_entries s' ! f))) req)"
            if "f < length (mk_entries s')" "ce_ready (mk_entries s' ! f)" for f
            using that mine [OF ow] by (cases "f = e") (auto simp: s')
        qed
      qed
    qed
  next
    case (Deleting e code)
    with a cards_okD(2) [OF C mem] show ?thesis by (intro quiet) auto
  next
    case (Closing e code)
    with a have p: "ph' = Answered code None"
      and s': "mk_entries s' = (mk_entries s)[e := (mk_entries s ! e)\<lparr>ce_ready := True\<rparr>]" by auto
    have ow: "owns ph = Some e" using Closing by simp
    have k: "400 \<le> code" "\<not> mock_accepts (req_CardToken req)" "ce_httpCode (mk_entries s ! e) = code"
      using cards_okD(2) [OF C mem] Closing by auto
    show ?thesis
    proof (rule cards_ok_step [OF C i ph kf'])
      show "phase_ok ?ts s' (req, ph')" using p k deserved_own [OF me, of code None] by (simp add: fits_def)
      show "ce_httpCode (mk_entries s' ! f) = ce_httpCode (mk_entries s ! f)"
        if "j < length ts" "j \<noteq> i" "owns (snd (ts ! j)) = Some f" for j f
        using apart [OF ow that(1,2)] that(3) by (auto simp: s')
      show "(f < length (mk_entries s) \<and> mk_entries s' ! f = mk_entries s ! f)
          \<or> (kf' f = charge_key req \<and> fits (ce_httpCode (mk_entries s' ! f)) (Some (ce_resp (mk_entries s' ! f))) req)"
        if "f < length (mk_entries s')" for f
        using that mine [OF ow] kf' [of e] k by (cases "f = e") (auto simp: s' fits_def)
    qed
  next
    case (Answered code body)
    with a show ?thesis by simp
  qed
qed

lemma mock_reach_cards: "mock_reach rt c \<Longrightarrow> \<exists>kf. mock_inv kf c \<and> cards_ok kf c"
proof (induction rule: mock_reach.induct)
  case mock_init
  show ?case using mock_inv_init [of undefined] by (intro exI [of _ undefined]) (simp add: cards_ok_def empty_mock_def)
next
  case (mock_more c c')
  from mock_more(3) obtain kf where I: "mock_inv kf c" and C: "cards_ok kf c" by blast
  from mock_more(2) show ?case
  proof (cases rule: mock_step.cases)
    case (arrive ts s req)
    have sub: "fst ` set ts \<subseteq> fst ` set (ts @ [(req, Received)])" by auto
    have "phase_ok (ts @ [(req, Received)]) s t" if "t \<in> set (ts @ [(req, Received)])" for t
    proof (cases "t \<in> set ts")
      case True
      obtain r p where t: "t = (r, p)" by (cases t)
      with True C arrive have "phase_ok ts s (r, p)" using cards_okD(2) by blast
      from phase_ok_keep [OF this sub refl] t show ?thesis by simp
    next
      case False
      with that show ?thesis by simp
    qed
    then have "cards_ok kf (ts @ [(req, Received)], s)"
      using C arrive deserved_same [OF sub] by (auto simp: cards_ok_def)
    with arrive I mock_inv_arrive show ?thesis by blast
  next
    case (step i ts req ph s ph' s')
    from advance_inv [OF _ step(3-5), of kf] I step(1) obtain kf' where
      k: "mock_inv kf' (ts[i := (req, ph')], s')" "\<forall>e < length (mk_entries s). kf' e = kf e" by blast
    have "cards_ok kf' (ts[i := (req, ph')], s')"
      by (rule advance_cards [OF _ _ step(3-5)]) (use I C step(1) k(2) in auto)
    with k(1) step(2) show ?thesis by blast
  qed
qed

text \<open>What a client may conclude from an answer.\<close>

lemma mock_answer_deserved:
  assumes "mock_reach rt (ts, s)" and "(req, Answered code body) \<in> set ts"
  shows "deserved ts (charge_key req) code body"
proof -
  from mock_reach_cards [OF assms(1)] obtain kf where "cards_ok kf (ts, s)" by blast
  from cards_okD(2) [OF this assms(2)] show ?thesis by simp
qed

end
