(* ===== verification/Mock_PSP_Safety.thy ===== *)
theory Mock_PSP_Safety
  imports Mock_PSP_Cards
begin

text \<open>
  What the shipped provider promises its client: one charge per key, one answer per key, and
  an answer to every request; and a webhook the gateway accepts.
\<close>

subsection \<open>One charge per key\<close>

text \<open>The next step of one of the requests, for examples.\<close>

definition step_request :: "runtime \<Rightarrow> nat \<Rightarrow> mock_config \<Rightarrow> mock_config" where
  "step_request rt i c = (case c of (ts, s) \<Rightarrow>
     if i < length ts
     then (case ts ! i of (req, ph) \<Rightarrow> case advance rt req ph s of
             None \<Rightarrow> (ts, s) | Some (ph', s') \<Rightarrow> (ts[i := (req, ph')], s'))
     else (ts, s))"

lemma step_request_reach: "mock_reach rt c \<Longrightarrow> mock_reach rt (step_request rt i c)"
  by (auto simp: step_request_def split: prod.splits option.splits intro: mock_more mock_step.step)

lemma steps_reach: "mock_reach rt c \<Longrightarrow> mock_reach rt (fold (step_request rt) is c)"
  by (induction "is" arbitrary: c) (simp_all add: step_request_reach del: split_paired_All)

definition sample_charge :: ChargeRequest where
  "sample_charge = \<lparr>req_Amount = 500, req_Currency = ''USD'', req_CardToken = ''tok_success'', req_IdempotencyKey = ''a1''\<rparr>"

text \<open>A request and its retry at the same time: the retry arrives while the first one charges, and waits for it.\<close>

definition sample_end :: mock_config where
  "sample_end = fold (step_request plain_rt) [0, 1, 1, 0, 1]
     ([(sample_charge, Received), (sample_charge, Received)], empty_mock)"

lemma two_arrived: "mock_reach rt ([(req, Received), (req', Received)], empty_mock)"
  using mock_more [OF mock_more [OF mock_init arrive, of rt req] arrive, of req'] by simp

lemma sample_end_reach: "mock_reach plain_rt (fst sample_end, snd sample_end)"
  unfolding prod.collapse sample_end_def by (rule steps_reach, rule two_arrived)

lemma sample_end_values:
  "fst sample_end = [(sample_charge, Answered 200 (Some (succeeded_response (uuid_New plain_rt 0)))),
     (sample_charge, Answered 200 (Some (succeeded_response (uuid_New plain_rt 0))))]"
  "map fst (mk_notified (snd sample_end)) = [sample_charge]"
  by code_simp+

text \<open>
  C10. The provider charges once: however its requests interleave, and whatever they ask for,
  at most one charge is ever made under an idempotency key.
\<close>

theorem one_charge_per_key:
  assumes "mock_reach rt (ts, s)" and "key \<noteq> []"
  shows "length (filter (\<lambda>(req, resp). req_IdempotencyKey req = key) (mk_notified s)) \<le> 1"
  using mock_reach_inv [OF assms(1)] charges_of_key_le [OF _ assms(2)] by (auto simp: mock_inv_def)

theorem one_charge_per_key_witness:
  "length (filter (\<lambda>(req, resp). req_IdempotencyKey req = ''a1'') (mk_notified (snd sample_end))) \<le> 1
     \<and> mk_notified (snd sample_end) \<noteq> [] \<and> length (fst sample_end) = 2"
proof -
  have "mk_notified (snd sample_end) \<noteq> []" using sample_end_values(2) by auto
  with one_charge_per_key [OF sample_end_reach, of "''a1''"] show ?thesis by (simp add: sample_end_values(1))
qed

text \<open>
  C12. Retries are answered alike: every answer to a request under a key that reports a
  success carries the response of the one charge made under it, the provider's reference
  included.
\<close>

theorem answers_agree:
  assumes "mock_reach rt (ts, s)" and "(req, Answered code (Some resp)) \<in> set ts"
    and "req_IdempotencyKey req \<noteq> []" and "resp_Status resp = ''succeeded''"
  shows "\<exists>req'. filter (\<lambda>(r, _). req_IdempotencyKey r = req_IdempotencyKey req) (mk_notified s) = [(req', resp)]"
proof -
  let ?f = "filter (\<lambda>(r, _). req_IdempotencyKey r = req_IdempotencyKey req) (mk_notified s)"
  from mock_reach_inv [OF assms(1)] obtain kf where h: "charges_ok kf (ts, s)" by (auto simp: mock_inv_def)
  from charged_answer [OF h assms(2-4)] obtain r where "(r, resp) \<in> set (mk_notified s)" "charge_key r = charge_key req"
    by blast
  then have "(r, resp) \<in> set ?f" by simp
  moreover have "length ?f \<le> 1" using charges_of_key_le [OF h assms(3)] by simp
  ultimately have "?f = [(r, resp)]" by (cases ?f) auto
  then show ?thesis by blast
qed

theorem answers_agree_witness:
  "\<exists>req'. filter (\<lambda>(r, _). req_IdempotencyKey r = ''a1'') (mk_notified (snd sample_end)) =
     [(req', succeeded_response (uuid_New plain_rt 0))]"
proof -
  have "(sample_charge, Answered 200 (Some (succeeded_response (uuid_New plain_rt 0)))) \<in> set (fst sample_end)"
    by (simp add: sample_end_values(1))
  from answers_agree [OF sample_end_reach this] show ?thesis
    by (simp add: sample_charge_def succeeded_response_def)
qed

text \<open>
  C14. An answer tells the truth about the card: where all requests under a key are for one card,
  an error is answered for a card the provider does not accept only, and an answer without
  an error reports a success exactly for the cards it accepts. This holds for requests that wait
  for another one's charge, and for retries after a charge that failed without being kept, too.
\<close>

theorem answers_fit_cards:
  assumes "mock_reach rt (ts, s)" and "(req, Answered code body) \<in> set ts"
    and "\<forall>(r, ph) \<in> set ts. req_IdempotencyKey r = req_IdempotencyKey req \<longrightarrow> req_CardToken r = req_CardToken req"
  shows "(400 \<le> code \<longrightarrow> req_CardToken req \<noteq> ''tok_success'' \<and> req_CardToken req \<noteq> ''tok_timeout'')
    \<and> (\<forall>resp. code < 400 \<and> body = Some resp \<longrightarrow>
         (resp_Status resp = ''succeeded'' \<longleftrightarrow> req_CardToken req = ''tok_success'' \<or> req_CardToken req = ''tok_timeout''))"
proof -
  from mock_answer_deserved [OF assms(1,2)] obtain r ph where r: "(r, ph) \<in> set ts" "charge_key r = charge_key req"
    "fits code body r" by (auto simp: deserved_def)
  with assms(3) have "req_CardToken r = req_CardToken req" by blast
  with r(3) show ?thesis by (auto simp: fits_def mock_accepts_def split: if_splits)
qed

text \<open>
  A network error while a retry waits: the retry is told the error, and the request after it
  starts anew.
\<close>

definition broken_charge :: ChargeRequest where
  "broken_charge = sample_charge\<lparr>req_CardToken := ''tok_network_error''\<rparr>"

definition broken_end :: mock_config where
  "broken_end = fold (step_request plain_rt) [0, 1, 0, 0, 0, 1]
     ([(broken_charge, Received), (broken_charge, Received)], empty_mock)"

theorem answers_fit_cards_witness:
  "fst sample_end = [(sample_charge, Answered 200 (Some (succeeded_response (uuid_New plain_rt 0)))),
     (sample_charge, Answered 200 (Some (succeeded_response (uuid_New plain_rt 0))))]
   \<and> resp_Status (succeeded_response (uuid_New plain_rt 0)) = ''succeeded''
   \<and> fst broken_end = [(broken_charge, Answered 500 None), (broken_charge, Answered 500 None)]
   \<and> req_CardToken broken_charge \<noteq> ''tok_success'' \<and> req_CardToken broken_charge \<noteq> ''tok_timeout''"
proof -
  have b: "fst broken_end = [(broken_charge, Answered 500 None), (broken_charge, Answered 500 None)]" by code_simp
  have "mock_reach plain_rt (fst broken_end, snd broken_end)"
    unfolding prod.collapse broken_end_def by (rule steps_reach, rule two_arrived)
  from answers_fit_cards [OF this, of broken_charge 500 None] b
  have "req_CardToken broken_charge \<noteq> ''tok_success'' \<and> req_CardToken broken_charge \<noteq> ''tok_timeout''" by simp
  moreover have "(sample_charge, Answered 200 (Some (succeeded_response (uuid_New plain_rt 0)))) \<in> set (fst sample_end)"
    by (simp add: sample_end_values(1))
  from answers_fit_cards [OF sample_end_reach this]
  have "resp_Status (succeeded_response (uuid_New plain_rt 0)) = ''succeeded''"
    by (simp add: sample_end_values(1) sample_charge_def)
  ultimately show ?thesis using b sample_end_values(1) by simp
qed

subsection \<open>No request waits for ever\<close>

fun rank :: "phase \<Rightarrow> nat" where
  "rank Received = 4"
| "rank (Charging _) = 3"
| "rank (Deleting _ _) = 2"
| "rank (Closing _ _) = 1"
| "rank (Waiting _) = 1"
| "rank (Answered _ _) = 0"

definition work_left :: "(ChargeRequest \<times> phase) list \<Rightarrow> nat" where
  "work_left ts = (\<Sum>t\<leftarrow>ts. rank (snd t))"

lemma finish_rank: "finish entry req code x n s = (ph, s') \<Longrightarrow> rank ph = 0"
  by (auto simp: finish_def Let_def)

lemma failUncached_rank: "failUncached entry code s = (ph, s') \<Longrightarrow> rank ph \<le> 2"
  by (auto simp: failUncached_def split: option.splits)

lemma advance_rank:
  assumes "advance rt req ph s = Some (ph', s')"
  shows "rank ph' < rank ph"
proof (cases ph)
  case (Charging entry)
  with assms have c: "completeCharge rt req entry s = (ph', s')" by simp
  then have "rank ph' \<le> 2"
    by (cases rule: completeCharge_cases [of rt req entry s]) (auto dest: finish_rank failUncached_rank)
  with Charging show ?thesis by simp
qed (use assms in \<open>auto simp: Let_def split: if_splits prod.splits\<close>)

lemma advance_blocked:
  assumes "advance rt req ph s = None"
  shows "(\<exists>e. ph = Waiting e \<and> \<not> ce_ready (mk_entries s ! e)) \<or> (\<exists>code body. ph = Answered code body)"
  using assms by (cases ph) (auto simp: Let_def split: if_splits prod.splits)

lemma work_left_update:
  assumes "i < length ts" and "rank ph' < rank (snd (ts ! i))"
  shows "work_left (ts[i := (req, ph')]) < work_left ts"
  using assms
proof (induction ts arbitrary: i)
  case (Cons t ts)
  then show ?case by (cases i) (auto simp: work_left_def)
qed simp

text \<open>As long as a request is not answered, one of the requests can make a step.\<close>

lemma mock_not_stuck:
  assumes "mock_reach rt (ts, s)" and "(req, ph) \<in> set ts" and "\<And>code body. ph \<noteq> Answered code body"
  shows "\<exists>i < length ts. advance rt (fst (ts ! i)) (snd (ts ! i)) s \<noteq> None"
proof -
  from assms(2) obtain i where i: "i < length ts" "ts ! i = (req, ph)" by (auto simp: in_set_conv_nth)
  show ?thesis
  proof (cases "advance rt req ph s")
    case None
    with assms(3) advance_blocked [OF None] obtain e where e: "ph = Waiting e" "\<not> ce_ready (mk_entries s ! e)" by blast
    from mock_reach_inv [OF assms(1)] obtain kf where I: "mock_inv kf (ts, s)" by blast
    with i e(1) have "e < length (mk_entries s)" by (auto simp: mock_inv_def cache_ok_def)
    moreover have o: "owners_ok kf (ts, s)" using I by (simp add: mock_inv_def)
    ultimately obtain j where j: "j < length ts" "owns (snd (ts ! j)) = Some e" using owners_okD(4) [OF o] e(2) by blast
    then have "advance rt (fst (ts ! j)) (snd (ts ! j)) s \<noteq> None" by (cases "snd (ts ! j)") auto
    with j(1) show ?thesis by blast
  qed (use i in auto)
qed

text \<open>
  C13. Every request is answered: from any state the provider can be in, within four steps a
  request, without any new one, all are, and the requests are the same. A retry that waits for
  a charge in progress never waits for ever, whether the charge succeeds or fails.
\<close>

theorem all_answered:
  assumes "mock_reach rt (ts, s)"
  shows "\<exists>n ts' s'. n \<le> 4 * length ts \<and> (mock_step rt ^^ n) (ts, s) (ts', s') \<and> map fst ts' = map fst ts
     \<and> (\<forall>(req, ph) \<in> set ts'. \<exists>code body. ph = Answered code body)"
proof -
  have "\<exists>n ts' s'. n \<le> work_left ts \<and> (mock_step rt ^^ n) (ts, s) (ts', s') \<and> map fst ts' = map fst ts
     \<and> (\<forall>(req, ph) \<in> set ts'. \<exists>code body. ph = Answered code body)"
    using assms
  proof (induction "work_left ts" arbitrary: ts s rule: less_induct)
    case less
    show ?case
    proof (cases "\<forall>(req, ph) \<in> set ts. \<exists>code body. ph = Answered code body")
      case True
      then have "(mock_step rt ^^ 0) (ts, s) (ts, s)" by simp
      with True show ?thesis by blast
    next
      case False
      then obtain req ph where "(req, ph) \<in> set ts" "\<And>code body. ph \<noteq> Answered code body" by auto
      from mock_not_stuck [OF less.prems this] obtain i where i: "i < length ts"
        "advance rt (fst (ts ! i)) (snd (ts ! i)) s \<noteq> None" by blast
      obtain r p where t: "ts ! i = (r, p)" by (cases "ts ! i")
      with i(2) obtain p' s1 where a: "advance rt r p s = Some (p', s1)" by auto
      let ?ts = "ts[i := (r, p')]"
      have step: "mock_step rt (ts, s) (?ts, s1)" by (rule mock_step.step [OF i(1) t a])
      have w: "work_left ?ts < work_left ts" using advance_rank [OF a] t i(1) by (intro work_left_update) auto
      from less.hyps [OF w mock_more [OF less.prems step]] obtain n ts' s' where n: "n \<le> work_left ?ts"
        "(mock_step rt ^^ n) (?ts, s1) (ts', s')" "map fst ts' = map fst ?ts"
        "\<forall>(req, ph) \<in> set ts'. \<exists>code body. ph = Answered code body" by blast
      have "(mock_step rt ^^ Suc n) (ts, s) (ts', s')" by (rule relpowp_Suc_I2 [OF step n(2)])
      moreover have "map fst ?ts = map fst ts" by (simp add: map_update t [symmetric]) (metis fst_conv list_update_id map_update t)
      ultimately show ?thesis using n w by (intro exI [of _ "Suc n"] exI [of _ ts'] exI [of _ s']) auto
    qed
  qed
  moreover have "work_left ts \<le> 4 * length ts"
  proof -
    have "rank p \<le> 4" for p by (cases p) auto
    then show ?thesis unfolding work_left_def by (induction ts) (auto intro: add_mono)
  qed
  ultimately show ?thesis using le_trans by blast
qed

theorem all_answered_witness:
  "\<exists>n ts' s'. n \<le> 8 \<and> (mock_step plain_rt ^^ n) ([(sample_charge, Received), (sample_charge, Received)], empty_mock) (ts', s')
     \<and> (\<forall>(req, ph) \<in> set ts'. \<exists>code body. ph = Answered code body)"
  using all_answered [OF two_arrived [of plain_rt sample_charge sample_charge]] by fastforce

end
