(* ===== verification/Quiet_Steps.thy ===== *)
theory Quiet_Steps
  imports Gateway
begin

text \<open>
  Steps that leave the ledger of the provider and the idempotency keys alone, and bring no attempt
  into one of the statuses that are watched, up to given identifiers. Watching failures, every step of the server is of this
  kind but the charge, the creation of an attempt and the record of a failure; watching successes,
  all but the charge, the creation and the record of a success.
\<close>

text \<open>
  What is seen of the provider: \<open>None\<close> when its state is not in order, otherwise the requests
  sent to it, numbered as its calls, and the charges it has made.
\<close>

type_synonym 'p ledger_view = "'p \<Rightarrow> (ChargeRequest list \<times> ChargeRequest list) option"

text \<open>The ledger only grows: what was sent stays sent, what was charged stays charged.\<close>

definition grows :: "'p ledger_view \<Rightarrow> 'p world \<Rightarrow> 'p world \<Rightarrow> bool" where
  "grows ledger u v \<longleftrightarrow> (\<forall>rs cs. ledger (wpsp u) = Some (rs, cs) \<longrightarrow>
     (\<exists>rs' cs'. ledger (wpsp v) = Some (rs @ rs', cs @ cs')))"

lemma grows_same [simp]: "ledger (wpsp v) = ledger (wpsp u) \<Longrightarrow> grows ledger u v"
  by (simp add: grows_def)

lemma grows_trans: "grows ledger u v \<Longrightarrow> grows ledger v w \<Longrightarrow> grows ledger u w"
  unfolding grows_def by (metis append.assoc)

text \<open>
  No attempt of \<open>d'\<close> has one of the statuses \<open>st\<close> without having it in \<open>d\<close>, but those with
  identifiers in \<open>C\<close>.
\<close>

definition no_new :: "PaymentAttemptStatus set \<Rightarrow> string set \<Rightarrow> db \<Rightarrow> db \<Rightarrow> bool" where
  "no_new st C d d' \<longleftrightarrow> (\<forall>a' \<in> set (payment_attempts d'). att_Status a' \<in> st \<longrightarrow> att_ID a' \<in> C \<or>
      (\<exists>a \<in> set (payment_attempts d). att_Status a = att_Status a' \<and> att_ID a = att_ID a'))"

definition quiet_db :: "PaymentAttemptStatus set \<Rightarrow> string set \<Rightarrow> db \<Rightarrow> db \<Rightarrow> bool" where
  "quiet_db st C d d' \<longleftrightarrow> idempotency_keys d' = idempotency_keys d \<and> no_new st C d d'"

definition quiet :: "PaymentAttemptStatus set \<Rightarrow> string set \<Rightarrow> 'p ledger_view \<Rightarrow> 'p world \<Rightarrow> 'p world \<Rightarrow> bool" where
  "quiet st C ledger w w' \<longleftrightarrow> ledger (wpsp w') = ledger (wpsp w) \<and> quiet_db st C (wdb w) (wdb w')"

lemma no_new_same [simp]: "payment_attempts d' = payment_attempts d \<Longrightarrow> no_new st C d d'"
  by (auto simp: no_new_def)

lemma no_new_trans: "no_new st C a b \<Longrightarrow> no_new st C b c \<Longrightarrow> no_new st C a c"
  unfolding no_new_def by metis

lemma quiet_db_trans: "quiet_db st C a b \<Longrightarrow> quiet_db st C b c \<Longrightarrow> quiet_db st C a c"
  unfolding quiet_db_def using no_new_trans by auto

lemma quietI: "wpsp w' = wpsp w \<Longrightarrow> quiet_db st C (wdb w) (wdb w') \<Longrightarrow> quiet st C ledger w w'"
  by (simp add: quiet_def)

lemma quiet_refl [simp]: "quiet st C ledger w w" and quiet_db_refl [simp]: "quiet_db st C d d"
  by (auto simp: quiet_def quiet_db_def)

lemma quiet_trans: "quiet st C ledger u v \<Longrightarrow> quiet st C ledger v w \<Longrightarrow> quiet st C ledger u w"
  unfolding quiet_def using quiet_db_trans by auto

lemma quiet_db_same:
  "payment_attempts d' = payment_attempts d \<Longrightarrow> idempotency_keys d' = idempotency_keys d \<Longrightarrow> quiet_db st C d d'"
  by (auto simp: quiet_db_def)

abbreviation quiet_prog :: "PaymentAttemptStatus set \<Rightarrow> string set \<Rightarrow> 'p ledger_view \<Rightarrow> ('p world, 'a) prog \<Rightarrow> bool" where
  "quiet_prog st C ledger \<equiv> stepwise (quiet st C ledger)"

definition quiet_act :: "PaymentAttemptStatus set \<Rightarrow> string set \<Rightarrow> 'p ledger_view \<Rightarrow> ('p, 'a) act \<Rightarrow> bool" where
  "quiet_act st C ledger m \<longleftrightarrow> (\<forall>w. quiet st C ledger w (snd (m w)))"

definition quiet_stmt :: "PaymentAttemptStatus set \<Rightarrow> string set \<Rightarrow> 'a stmt \<Rightarrow> bool" where
  "quiet_stmt st C q \<longleftrightarrow> (\<forall>t d a d'. q t d = Inr (a, d') \<longrightarrow> quiet_db st C d d')"

named_theorems quieting

lemma quiet_Done [quieting]: "quiet_prog st C ledger (Done a)"
  by (rule stepwise_Done)

lemma quiet_bind [quieting]: "quiet_prog st C ledger m \<Longrightarrow> (\<And>a. quiet_prog st C ledger (k a)) \<Longrightarrow> quiet_prog st C ledger (bindp m k)"
  by (rule stepwise_bind)

lemma quiet_bindr [quieting]: "quiet_prog st C ledger m \<Longrightarrow> (\<And>a. quiet_prog st C ledger (k a)) \<Longrightarrow> quiet_prog st C ledger (bindr m k)"
  unfolding bindr_def by (rule stepwise_bind) (auto split: sum.splits intro: quiet_Done)

lemma quiet_atom [quieting]: "quiet_act st C ledger m \<Longrightarrow> quiet_prog st C ledger (atom m)"
  by (rule stepwise_atom) (simp add: quiet_act_def)

subsection \<open>Actions\<close>

lemma quiet_act_try [quieting]: "quiet_act st C ledger m \<Longrightarrow> (\<And>a. quiet_act st C ledger (k a)) \<Longrightarrow> quiet_act st C ledger (act_try m k)"
  unfolding quiet_act_def act_try_def by (auto simp: case_prod_beta intro: quiet_trans)

lemma quiet_act_bind [quieting]: "quiet_act st C ledger m \<Longrightarrow> (\<And>a. quiet_act st C ledger (k a)) \<Longrightarrow> quiet_act st C ledger (act_bind m k)"
  unfolding quiet_act_def act_bind_def by (auto split: prod.split sum.split intro: quiet_trans)

lemma quiet_act_ret [quieting]: "quiet_act st C ledger (act_ret a)" "quiet_act st C ledger (act_fail e)"
  by (simp_all add: quiet_act_def act_ret_def act_fail_def)

lemma quiet_clock [quieting]: "quiet_act st C ledger time_Now" "quiet_act st C ledger (uuid_Next rt)" "quiet_act st C ledger (rand_Next rt)"
  by (auto simp: quiet_act_def time_Now_def uuid_Next_def rand_Next_def quiet_def split: list.splits)

lemma quiet_exec [quieting]: "quiet_stmt st C q \<Longrightarrow> quiet_act st C ledger (exec_stmt q)"
  unfolding quiet_act_def
proof
  fix w :: "'b world" assume q: "quiet_stmt st C q"
  obtain r w' where x: "exec_stmt q w = (r, w')" by (cases "exec_stmt q w")
  from exec_stmt_db [OF x] q have "quiet_db st C (wdb w) (wdb w')" by (auto simp: quiet_stmt_def)
  with exec_stmt_frame(1) [OF x] x show "quiet st C ledger w (snd (exec_stmt q w))" by (auto intro: quietI)
qed

lemma quiet_transaction [quieting]:
  fixes body :: "('p, 'a result) act"
  assumes "quiet_act st C ledger body"
  shows "quiet_act st C ledger (transaction body)"
proof -
  have f: "quiet st C ledger w (snd (next_fate w))" for w :: "'p world"
    by (rule quietI) (auto simp: next_fate_def split: list.splits)
  have undo: "quiet st C ledger w (w1\<lparr>wdb := wdb w\<rparr>)" if "quiet st C ledger w w1" for w w1 :: "'p world"
    using that by (auto simp: quiet_def)
  have b: "quiet st C ledger w (snd (body w))" for w using assms by (simp add: quiet_act_def)
  show ?thesis
    unfolding quiet_act_def transaction_def
  proof
    fix w :: "'p world"
    obtain fate w0 where 0: "next_fate w = (fate, w0)" by (cases "next_fate w")
    obtain r w1 where 1: "body w0 = (r, w1)" by (cases "body w0")
    obtain fate1 w2 where 2: "next_fate w1 = (fate1, w2)" by (cases "next_fate w1")
    have q0: "quiet st C ledger w w0" using f [of w] 0 by simp
    have q1: "quiet st C ledger w w1" using quiet_trans [OF q0] b [of w0] 1 by simp
    have q2: "quiet st C ledger w w2" using quiet_trans [OF q1] f [of w1] 2 by simp
    show "quiet st C ledger w (snd (case next_fate w of (fate, w0) \<Rightarrow>
        if fate \<noteq> Delivered then (Inl (DBError ConnLost), w0)
        else (case body w0 of
                (Inl e, w1) \<Rightarrow> (Inl e, w1\<lparr>wdb := wdb w\<rparr>)
              | (Inr a, w1) \<Rightarrow>
                  (case next_fate w1 of (fate1, w2) \<Rightarrow>
                     (case fate1 of
                        Delivered \<Rightarrow> (Inr a, w2)
                      | LostRequest \<Rightarrow> (Inl (DBError ConnLost), w2\<lparr>wdb := wdb w\<rparr>)
                      | LostReply \<Rightarrow> (Inl (DBError ConnLost), w2))))))"
      using q0 q1 q2 undo [OF q1] undo [OF q2] by (auto simp: 0 1 2 split: sum.split fate.split)
  qed
qed

subsection \<open>Statements\<close>

lemma quiet_neutral: "stmt_neutral q \<Longrightarrow> quiet_stmt st C q"
  unfolding quiet_stmt_def stmt_neutral_def by (auto intro!: quiet_db_same)

lemma quiet_read: "read_only q \<Longrightarrow> quiet_stmt st C q"
  by (rule quiet_neutral) (rule read_only_neutral)

lemmas quiet_stmts [quieting] =
  account_writes_neutral [THEN quiet_neutral] neutral_webhook_stmts [THEN quiet_neutral]
  account_read_only [THEN quiet_read] payment_read_only [THEN quiet_read]
  outbox_read_only [THEN quiet_read] list_read_only [THEN quiet_read]

lemma quiet_outbox [quieting]:
  "quiet_stmt st C (OutboundEventRepository_MarkDelivered rt i t)" "quiet_stmt st C (OutboundEventRepository_MarkRetry rt i n t e)"
  "quiet_stmt st C (OutboundEventRepository_MarkFailed rt i n e)" "quiet_stmt st C (OutboundEventRepository_ResetForRedelivery rt i t)"
  "quiet_stmt st C (OutboundEventRepository_ClaimDue limit t)" "quiet_stmt st C (OutboundEventRepository_Create rt ev)"
  by (auto simp: quiet_stmt_def outbox_marks exec OutboundEventRepository_ClaimDue_def OutboundEventRepository_Create_def
      Let_def split: if_splits intro!: quiet_db_same)

lemma quiet_invoice [quieting]:
  "quiet_stmt st C (InvoiceRepository_Create rt v)" "quiet_stmt st C (InvoiceRepository_MarkPaidIfOpen rt i)"
  by (auto simp: quiet_stmt_def InvoiceRepository_Create_def payment_writes exec split: if_splits intro!: quiet_db_same)

text \<open>Recording an outcome is quiet when it is not watched, or is allowed for this attempt.\<close>

lemma quiet_outcome:
  assumes "\<And>c. status \<in> st \<Longrightarrow> parse_uuid rt i = Some c \<Longrightarrow> c \<in> C"
  shows "quiet_stmt st C (PaymentAttemptRepository_UpdateStatusIfPending rt i status ref code)"
  using assms
  by (auto simp: quiet_stmt_def payment_writes exec quiet_db_def no_new_def update_where_def set_attempt_status_def
      split: if_splits)

subsection \<open>Programs\<close>

lemma quiet_enqueue [quieting]: "quiet_act st C ledger (enqueueOutboundEvent rt a ty)"
  unfolding enqueueOutboundEvent_def by (intro quieting)

lemma quiet_persistSuccess:
  assumes "\<And>c. PaymentAttemptStatusSucceeded \<in> st \<Longrightarrow> parse_uuid (svc_rt S) (att_ID a) = Some c \<Longrightarrow> c \<in> C"
  shows "quiet_prog st C ledger (persistSuccess S a ref)"
  using assms
  by (auto simp: persistSuccess_def persistSuccess_body_def settleSuccess_def intro!: quieting quiet_outcome)

lemma quiet_persistFailure:
  assumes "\<And>c. PaymentAttemptStatusFailed \<in> st \<Longrightarrow> parse_uuid (svc_rt S) (att_ID a) = Some c \<Longrightarrow> c \<in> C"
  shows "quiet_prog st C ledger (persistFailure S a code)"
  using assms by (auto simp: persistFailure_def intro!: quieting quiet_outcome)

lemma quiet_NewSecret [quieting]: "quiet_act st C ledger (NewSecret rt)"
  by (auto simp: NewSecret_def quiet_act_def act_try_def rand_Next_def quiet_def)

lemma quiet_accounts [quieting]:
  "quiet_prog st C ledger (CreateBusiness rt name)" "quiet_prog st C ledger (CreateCustomer rt b name email)"
  "quiet_prog st C ledger (issueKey rt b nm)" "quiet_prog st C ledger (ListAPIKeys rt b)" "quiet_prog st C ledger (ownedKey rt b i)"
  "quiet_prog st C ledger (GetInvoice rt b i)" "quiet_prog st C ledger (CreateInvoice rt b c cur n)"
  by (auto simp: CreateBusiness_def CreateCustomer_def issueKey_def Let_def ListAPIKeys_def ownedKey_def GetInvoice_def
      CreateInvoice_def split: sum.splits intro!: quieting)

lemma quiet_keys [quieting]:
  "quiet_prog st C ledger (CreateAPIKey rt b nm au)" "quiet_prog st C ledger (RevokeAPIKey rt b i)"
  "quiet_prog st C ledger (RotateAPIKey rt b i)"
  by (auto simp: CreateAPIKey_def RevokeAPIKey_def RotateAPIKey_def split: sum.splits intro!: quieting)

lemma quiet_events [quieting]:
  "quiet_prog st C ledger (SetEndpoint rt b url)" "quiet_prog st C ledger (GetEvent rt b i)"
  "quiet_prog st C ledger (ListEvents rt b i n)" "quiet_prog st C ledger (GetPaymentAttempt S b i)"
  by (auto simp: SetEndpoint_def Let_def GetEvent_def ListEvents_def GetPaymentAttempt_def split: sum.splits intro!: quieting)

lemma quiet_Redeliver [quieting]: "quiet_prog st C ledger (Redeliver rt b i)"
  by (auto simp: Redeliver_def intro!: quieting)

lemma quiet_auth [quieting]:
  "quiet_prog st C ledger (APIKeyAuth rt h)" "quiet_prog st C ledger (OptionalAPIKeyAuth rt h)" "quiet_prog st C ledger (touchLastUsed rt k)"
  by (auto simp: APIKeyAuth_def OptionalAPIKeyAuth_def authenticateAPIKey_def touchLastUsed_def
      split: sum.splits option.splits intro!: quieting)

lemma quiet_respond [quieting]: "quiet_prog st C ledger p \<Longrightarrow> quiet_prog st C ledger (respond p e k)"
  by (auto simp: respond_def split: sum.splits intro!: quieting)

lemma quiet_with_business [quieting]: "(\<And>b. quiet_prog st C ledger (k b)) \<Longrightarrow> quiet_prog st C ledger (with_business ctx k)"
  by (auto simp: with_business_def split: option.splits intro!: quieting)

lemma quiet_guarded [quieting]:
  "quiet_prog st C ledger a \<Longrightarrow> (\<And>ctx. quiet_prog st C ledger (h ctx)) \<Longrightarrow> quiet_prog st C ledger (guarded a h)"
  by (auto simp: guarded_def split: sum.splits intro!: quieting)

lemma quiet_handlers [quieting]:
  "quiet_prog st C ledger (handle_CreateBusiness rt nm)" "quiet_prog st C ledger (handle_CreateCustomer rt ok body ctx)"
  "quiet_prog st C ledger (handle_CreateAPIKey rt b nm ctx)" "quiet_prog st C ledger (handle_ListAPIKeys rt ctx)"
  "quiet_prog st C ledger (handle_RevokeAPIKey rt i ctx)" "quiet_prog st C ledger (handle_RotateAPIKey rt i ctx)"
  "quiet_prog st C ledger (handle_GetInvoice rt i ctx)" "quiet_prog st C ledger (handle_SetEndpoint rt nm ctx)"
  "quiet_prog st C ledger (handle_GetEvent rt i ctx)" "quiet_prog st C ledger (handle_ListEvents rt i ctx)"
  "quiet_prog st C ledger (RedeliverEvent rt i ctx)" "quiet_prog st C ledger (handle_CreateInvoice rt fs ctx)"
  "quiet_prog st C ledger (handle_GetPaymentAttempt S i ctx)"
  by (auto simp: handle_CreateBusiness_def handle_CreateCustomer_def handle_CreateAPIKey_def handle_ListAPIKeys_def
      handle_RevokeAPIKey_def handle_RotateAPIKey_def handle_GetInvoice_def handle_SetEndpoint_def handle_GetEvent_def
      handle_ListEvents_def RedeliverEvent_def handle_CreateInvoice_def handle_GetPaymentAttempt_def Let_def
      split: option.splits intro!: quieting)

text \<open>The dispatcher, when what it posts to is not the provider.\<close>

definition merchants_apart :: "'p ledger_view \<Rightarrow> 'p merchants \<Rightarrow> bool" where
  "merchants_apart ledger M \<longleftrightarrow> (\<forall>req p. ledger (snd (mch_Do M req p)) = ledger p)"

lemma quiet_merchant: "merchants_apart ledger (wd_http D) \<Longrightarrow> quiet_act st C ledger (merchant_Do D req)"
  by (auto simp: merchants_apart_def quiet_act_def merchant_Do_def quiet_def case_prod_beta)

lemma quiet_recordFailure [quieting]: "quiet_prog st C ledger (recordFailure D e reason)"
  by (auto simp: recordFailure_def Let_def split: prod.splits intro!: quieting)

lemma quiet_DispatcherRun:
  assumes "merchants_apart ledger (wd_http D)"
  shows "quiet_prog st C ledger (DispatcherRun D n)"
proof -
  have one: "quiet_prog st C ledger (deliverOne D e)" for e
    by (auto simp: deliverOne_def split: sum.splits option.splits intro!: quieting quiet_merchant assms)
  have "quiet_prog st C ledger (deliverAll D es)" for es
    by (induction es) (auto intro!: quieting one)
  then show ?thesis by (induction n) (auto simp: DeliverDue_def intro!: quieting)
qed

end
