(* ===== verification/Payment_Walk.thy ===== *)
theory Payment_Walk
  imports Payment_Guarantee
begin

text \<open>
  The way of \<open>PayInvoice\<close> through its statements, once for every invariant and rely: whoever shows
  what the creation, the two lookups, the charge and the two ways to persist an outcome keep has
  shown it of the whole handler.
\<close>

definition when_ok :: "('a \<Rightarrow> 'w \<Rightarrow> bool) \<Rightarrow> 'a result \<Rightarrow> 'w \<Rightarrow> bool" where
  "when_ok Q r w \<longleftrightarrow> (case r of Inl _ \<Rightarrow> True | Inr a \<Rightarrow> Q a w)"

lemma when_ok_simps [simp]: "when_ok Q (Inl e) w" "when_ok Q (Inr a) w = Q a w"
  by (simp_all add: when_ok_def)

lemma when_ok_db: "when_ok (\<lambda>a w. Q a (wdb w)) = (\<lambda>r w. on_success Q r (wdb w))"
  by (auto simp: when_ok_def on_success_def fun_eq_iff split: sum.splits)

text \<open>
  A definite answer that is not a success: what the service fails an attempt for. And a success.
\<close>

definition refusal :: "ChargeResponse result \<Rightarrow> bool" where
  "refusal r = (case r of Inl e \<Rightarrow> \<not> IsUnknownOutcome e | Inr resp \<Rightarrow> resp_Status resp \<noteq> ''succeeded'')"

definition success :: "ChargeResponse result \<Rightarrow> bool" where
  "success r = (case r of Inl e \<Rightarrow> False | Inr resp \<Rightarrow> resp_Status resp = ''succeeded'')"

locale payment_walk = rely_guarantee I R
  for I :: "'p world \<Rightarrow> bool" and R :: "'p world \<Rightarrow> 'p world \<Rightarrow> bool"
begin

lemma walk_Done: "guar I R (\<lambda>_ _. True) (Done a) w"
  by (rule guar_Done) simp

lemma walk_any: "guar I R Q p w \<Longrightarrow> guar I R (\<lambda>_ _. True) p w"
  by (erule guar_mono) simp

lemma walk_bindr:
  assumes "guar I R (when_ok Q) m w" and "I w"
    and "\<And>a w'. R w w' \<Longrightarrow> I w' \<Longrightarrow> Q a w' \<Longrightarrow> guar I R (\<lambda>_ _. True) (k a) w'"
  shows "guar I R (\<lambda>_ _. True) (bindr m k) w"
  unfolding bindr_def
  by (rule guar_bind [OF assms(1,2)]) (auto split: sum.split intro: walk_Done assms(3))

text \<open>\<open>A\<close> is what the provider's answer says, \<open>B\<close> what is known of a call under way.\<close>

lemma walk_Charge:
  assumes "I w" and "guar I R (\<lambda>sent w. case sent of Inl r \<Rightarrow> A r w | Inr call \<Rightarrow> B call w) (atom (psp_Send S req)) w"
    and stable: "\<And>r u v. A r u \<Longrightarrow> R u v \<Longrightarrow> A r v"
    and wait: "\<And>call w'. R w w' \<Longrightarrow> I w' \<Longrightarrow> B call w' \<Longrightarrow> guar I R A (atom (psp_Wait S call)) w'"
  shows "guar I R A (psp_Charge S req) w"
  unfolding psp_Charge_def
proof (rule guar_bind [OF assms(2,1)])
  fix sent w' assume w': "R w w'" "I w'" "case sent of Inl r \<Rightarrow> A r w' | Inr call \<Rightarrow> B call w'"
  then show "guar I R A (case sent of Inl r \<Rightarrow> Done r | Inr call \<Rightarrow> atom (psp_Wait S call)) w'"
    by (cases sent) (auto intro: guar_Done stable wait)
qed

lemma walk_chargeAndSettle:
  assumes "I w" and "guar I R A (psp_Charge S (charge_request a tok)) w"
    and refused: "\<And>r code w'. R w w' \<Longrightarrow> I w' \<Longrightarrow> A r w' \<Longrightarrow> refusal r \<Longrightarrow> guar I R (\<lambda>_ _. True) (persistFailure S a code) w'"
    and paid: "\<And>r ref w'. R w w' \<Longrightarrow> I w' \<Longrightarrow> A r w' \<Longrightarrow> success r \<Longrightarrow> guar I R (\<lambda>_ _. True) (persistSuccess S a ref) w'"
  shows "guar I R (\<lambda>_ _. True) (chargeAndSettle S a tok) w"
  unfolding chargeAndSettle_def charge_request_def [symmetric]
proof (rule guar_bind [OF assms(2,1)])
  fix r w' assume w': "R w w'" "I w'" "A r w'"
  show "guar I R (\<lambda>_ _. True)
      (case r of Inl err \<Rightarrow> if IsUnknownOutcome err then Done (Inr a) else persistFailure S a (err_text (svc_rt S) err)
       | Inr resp \<Rightarrow> if resp_Status resp \<noteq> ''succeeded'' then persistFailure S a (decline_code (resp_Code resp))
           else persistSuccess S a (resp_PSPRef resp)) w'"
    using refused [OF w'] paid [OF w'] by (auto simp: refusal_def success_def split: sum.split intro: walk_Done)
qed

text \<open>\<open>K\<close> is what is known of a key that was found, \<open>H\<close> of an attempt in the handler's hands.\<close>

lemma walk_replay:
  assumes I: "I w" and k: "K k w"
    and found: "\<And>k x w. I w \<Longrightarrow> K k w \<Longrightarrow> ik_RequestHash k = h \<Longrightarrow> ik_InvoiceID k = i \<Longrightarrow> ik_PaymentAttemptID k = Some x \<Longrightarrow>
      guar I R (when_ok H) (atom (exec_stmt (PaymentAttemptRepository_GetByID (svc_rt S) x))) w"
    and charge: "\<And>a w. I w \<Longrightarrow> H a w \<Longrightarrow> guar I R (\<lambda>_ _. True) (chargeAndSettle S a tok) w"
  shows "guar I R (\<lambda>_ _. True) (replayIdempotentPay S k i tok h) w"
  unfolding replayIdempotentPay_def
  by (auto split: option.split intro!: walk_Done walk_bindr [OF found [OF I k] I] charge)

lemma walk_PayInvoice:
  assumes I: "I w"
    and get: "\<And>w. I w \<Longrightarrow> guar I R (when_ok K) (atom (exec_stmt (IdempotencyRepository_GetByKey (svc_rt S) b key))) w"
    and create: "\<And>w. I w \<Longrightarrow> guar I R (when_ok H) (createPendingAttempt S b i key (hashPayRequest (svc_rt S) i tok)) w"
    and found: "\<And>k x w. I w \<Longrightarrow> K k w \<Longrightarrow> ik_RequestHash k = hashPayRequest (svc_rt S) i tok \<Longrightarrow> ik_InvoiceID k = i \<Longrightarrow>
      ik_PaymentAttemptID k = Some x \<Longrightarrow>
      guar I R (when_ok H) (atom (exec_stmt (PaymentAttemptRepository_GetByID (svc_rt S) x))) w"
    and charge: "\<And>a w. I w \<Longrightarrow> H a w \<Longrightarrow> guar I R (\<lambda>_ _. True) (chargeAndSettle S a tok) w"
  shows "guar I R (\<lambda>_ _. True) (PayInvoice S b i key tok) w"
proof -
  let ?get = "atom (exec_stmt (IdempotencyRepository_GetByKey (svc_rt S) b key))"
  let ?h = "hashPayRequest (svc_rt S) i tok"
  note replay = walk_replay [where K = K and H = H and h = ?h, OF _ _ found charge]
  have again: "guar I R (\<lambda>_ _. True) (bindr ?get (\<lambda>k. replayIdempotentPay S k i tok ?h)) w'" if "I w'" for w'
    by (rule walk_bindr [OF get [OF that] that]) (rule replay)
  have new: "guar I R (\<lambda>_ _. True)
      (bindp (createPendingAttempt S b i key ?h) (\<lambda>created. case created of
         Inl e \<Rightarrow> if e \<in> set pay_errors then Done (Inl e)
           else if isUniqueViolation e then bindr ?get (\<lambda>k. replayIdempotentPay S k i tok ?h)
           else Done (Inl e)
       | Inr attempt \<Rightarrow> chargeAndSettle S attempt tok)) w'" if "I w'" for w'
    by (rule guar_bind [OF create [OF that] that]) (auto split: sum.split intro: walk_Done again charge)
  show ?thesis
    unfolding PayInvoice_def Let_def
    by (rule guar_bind [OF get [OF I] I]) (auto split: sum.split intro: walk_Done replay new)
qed

end

end
