(* ===== verification/Charge_Contract.thy ===== *)
theory Charge_Contract
  imports Quiet_Steps Payment_Walk
begin

text \<open>
  What the gateway needs of a payment provider so that no invoice is charged twice, as a
  locale, and the proof that it is enough: under every interleaving of the server's
  handlers, with statements and answers lost, every charge is for an attempt, under its
  identifier and over its amount, and an attempt that failed was never charged.
\<close>

subsection \<open>What the handlers know about tokens\<close>

text \<open>
  Request hashes tell tokens apart: the hash does not collide, and an identifier the
  database reads has no line break and is not empty.
\<close>

definition hash_ok :: "runtime \<Rightarrow> bool" where
  "hash_ok rt \<longleftrightarrow> inj (sha256_hex rt) \<and> (\<forall>s c. parse_uuid rt s = Some c \<longrightarrow> CHR 0x0A \<notin> set s \<and> s \<noteq> [])"

text \<open>The key of the attempt is bound to the token.\<close>

definition bound :: "runtime \<Rightarrow> PaymentAttempt \<Rightarrow> string \<Rightarrow> db \<Rightarrow> bool" where
  "bound rt a tok d \<longleftrightarrow> (\<exists>k \<in> set (idempotency_keys d). ik_PaymentAttemptID k = Some (att_ID a)
     \<and> (\<exists>i. parse_uuid rt i \<noteq> None \<and> ik_RequestHash k = hashPayRequest rt i tok))"

lemma bound_evolves: "bound rt a tok d \<Longrightarrow> evolves d d' \<Longrightarrow> bound rt a tok d'"
  by (auto simp: bound_def evolves_def rows_evolve_def)

lemma bound_ID: "att_ID a' = att_ID a \<Longrightarrow> bound rt a' tok d = bound rt a tok d"
  by (simp add: bound_def)

lemma hashPayRequest_token:
  assumes "hash_ok rt" and "parse_uuid rt i \<noteq> None" and "parse_uuid rt j \<noteq> None"
    and "hashPayRequest rt i tok = hashPayRequest rt j tok'"
  shows "tok = tok'"
proof -
  from assms have "i @ CHR 0x0A # tok = j @ CHR 0x0A # tok'"
    by (auto simp: hash_ok_def hashPayRequest_def pay_request_text_def dest: injD)
  from append_sep_inject [OF this] assms(1-3) show ?thesis by (auto simp: hash_ok_def)
qed

lemma bound_unique:
  assumes "hash_ok rt" and "keys_ok d" and "bound rt a tok d" and "bound rt a tok' d"
  shows "tok = tok'"
proof -
  from assms(3,4) obtain k k' i j where k: "k \<in> set (idempotency_keys d)" "k' \<in> set (idempotency_keys d)"
    "ik_PaymentAttemptID k = Some (att_ID a)" "ik_PaymentAttemptID k' = Some (att_ID a)"
    and h: "parse_uuid rt i \<noteq> None" "parse_uuid rt j \<noteq> None"
      "ik_RequestHash k = hashPayRequest rt i tok" "ik_RequestHash k' = hashPayRequest rt j tok'"
    unfolding bound_def by blast
  from assms(2) have "distinct (map ik_PaymentAttemptID (idempotency_keys d))" by (simp add: keys_ok_def)
  from distinct_map_unique [OF this k(1,2)] k(3,4) have "k = k'" by simp
  with h hashPayRequest_token [OF assms(1) h(1,2)] show ?thesis by simp
qed

subsection \<open>The invariant\<close>

definition charge_of :: "ChargeRequest \<Rightarrow> PaymentAttempt \<Rightarrow> bool" where
  "charge_of req a \<longleftrightarrow> req_IdempotencyKey req = att_ID a \<and> req_Amount req = att_Amount a
     \<and> req_Currency req = att_Currency a"

text \<open>
  Every request sent to the provider is for an attempt, with the token its key is bound to;
  every charge it made is on a card it accepts, no two under one identifier; the card of an
  attempt that failed is one it does not accept.
\<close>

definition request_ok :: "runtime \<Rightarrow> ChargeRequest \<Rightarrow> db \<Rightarrow> bool" where
  "request_ok rt req d \<longleftrightarrow> (\<exists>a \<in> set (payment_attempts d). charge_of req a \<and> bound rt a (req_CardToken req) d)"

definition ledger_ok ::
  "runtime \<Rightarrow> 'p ledger_view \<Rightarrow> (string \<Rightarrow> bool) \<Rightarrow> 'p world \<Rightarrow> bool" where
  "ledger_ok rt ledger accepts w \<longleftrightarrow> (case ledger (wpsp w) of None \<Rightarrow> False | Some (requests, charges) \<Rightarrow>
     distinct (map req_IdempotencyKey charges)
   \<and> (\<forall>req \<in> set requests. request_ok rt req (wdb w))
   \<and> (\<forall>req \<in> set charges. accepts (req_CardToken req) \<and> request_ok rt req (wdb w))
   \<and> (\<forall>a \<in> set (payment_attempts (wdb w)). attempt_failed a \<longrightarrow>
        (\<forall>tok. bound rt a tok (wdb w) \<longrightarrow> \<not> accepts tok)))"

lemma ledger_okE:
  assumes "ledger_ok rt ledger accepts w"
  obtains rs cs where "ledger (wpsp w) = Some (rs, cs)" and "distinct (map req_IdempotencyKey cs)"
    and "\<And>req. req \<in> set rs \<Longrightarrow> request_ok rt req (wdb w)"
    and "\<And>req. req \<in> set cs \<Longrightarrow> accepts (req_CardToken req) \<and> request_ok rt req (wdb w)"
    and "\<And>a tok. a \<in> set (payment_attempts (wdb w)) \<Longrightarrow> attempt_failed a \<Longrightarrow> bound rt a tok (wdb w) \<Longrightarrow> \<not> accepts tok"
  using assms unfolding ledger_ok_def by (cases "ledger (wpsp w)") auto

lemma ledger_okI:
  assumes "ledger (wpsp w) = Some (rs, cs)" and "distinct (map req_IdempotencyKey cs)"
    and "\<And>req. req \<in> set rs \<Longrightarrow> request_ok rt req (wdb w)"
    and "\<And>req. req \<in> set cs \<Longrightarrow> accepts (req_CardToken req) \<and> request_ok rt req (wdb w)"
    and "\<And>a tok. a \<in> set (payment_attempts (wdb w)) \<Longrightarrow> attempt_failed a \<Longrightarrow> bound rt a tok (wdb w) \<Longrightarrow> \<not> accepts tok"
  shows "ledger_ok rt ledger accepts w"
  using assms unfolding ledger_ok_def by auto

lemma ledger_ok_frame: "wdb w' = wdb w \<Longrightarrow> ledger (wpsp w') = ledger (wpsp w) \<Longrightarrow>
    ledger_ok rt ledger accepts w' = ledger_ok rt ledger accepts w"
  unfolding ledger_ok_def by (simp only:)

lemma charge_of_evolves: "charge_of req a \<Longrightarrow> attempt_evolves a a' \<Longrightarrow> charge_of req a'"
  by (simp add: charge_of_def attempt_evolves_def same_attempt_def)

text \<open>Requests stay requests for attempts while the tables evolve.\<close>

lemma request_ok_evolves:
  assumes "request_ok rt req d" and "evolves d d'"
  shows "request_ok rt req d'"
proof -
  from assms(1) obtain a where a: "a \<in> set (payment_attempts d)" "charge_of req a" "bound rt a (req_CardToken req) d"
    unfolding request_ok_def by blast
  from evolves_attempt [OF assms(2) a(1)] obtain a' where a': "a' \<in> set (payment_attempts d')" "attempt_evolves a a'" .
  have "bound rt a' (req_CardToken req) d'"
    using bound_evolves [OF a(3) assms(2)] a'(2) bound_ID [of a' a] by (simp add: attempt_evolves_def same_attempt_def)
  with a' charge_of_evolves [OF a(2)] show ?thesis unfolding request_ok_def by blast
qed

text \<open>What the database does to the ledger's order, when the provider does nothing.\<close>

lemma ledger_ok_db:
  assumes ok: "ledger_ok rt ledger accepts w" and ev: "evolves (wdb w) (wdb w')"
    and same: "ledger (wpsp w') = ledger (wpsp w)"
    and failed: "\<And>a tok. a \<in> set (payment_attempts (wdb w')) \<Longrightarrow> attempt_failed a \<Longrightarrow> bound rt a tok (wdb w') \<Longrightarrow>
      \<not> accepts tok \<or> (\<exists>x \<in> set (payment_attempts (wdb w)). attempt_failed x \<and> bound rt x tok (wdb w))"
  shows "ledger_ok rt ledger accepts w'"
  using ok
proof (cases rule: ledger_okE)
  case (1 rs cs)
  show ?thesis
  proof (rule ledger_okI [of _ _ rs cs])
    show "ledger (wpsp w') = Some (rs, cs)" using 1(1) same by simp
    show "\<not> accepts tok" if "a \<in> set (payment_attempts (wdb w'))" "attempt_failed a" "bound rt a tok (wdb w')" for a tok
      using failed [OF that] 1(5) by blast
  qed (use 1 request_ok_evolves [OF _ ev] in auto)
qed

lemma ledger_ok_quiet:
  assumes ok: "ledger_ok rt ledger accepts w" and ev: "evolves (wdb w) (wdb w')" and q: "quiet {PaymentAttemptStatusFailed} {} ledger w w'"
  shows "ledger_ok rt ledger accepts w'"
proof (rule ledger_ok_db [OF ok ev])
  fix a' tok assume a': "a' \<in> set (payment_attempts (wdb w'))" "attempt_failed a'" "bound rt a' tok (wdb w')"
  with q obtain a where a: "a \<in> set (payment_attempts (wdb w))" "attempt_failed a" "att_ID a = att_ID a'"
    by (auto simp: quiet_def quiet_db_def no_new_def attempt_failed_def)
  from a'(3) a(3) q have "bound rt a tok (wdb w)" by (simp add: bound_def quiet_def quiet_db_def)
  with a show "\<not> accepts tok \<or> (\<exists>x \<in> set (payment_attempts (wdb w)). attempt_failed x \<and> bound rt x tok (wdb w))" by blast
qed (use q in \<open>simp add: quiet_def\<close>)

text \<open>The new attempt is not a failed one, and its key is not one of the others'.\<close>

lemma ledger_ok_creates:
  assumes ok: "ledger_ok rt ledger accepts w" and c: "creates rt b i key h now a (wdb w) (wdb w')"
    and ev: "evolves (wdb w) (wdb w')" and p: "wpsp w' = wpsp w"
  shows "ledger_ok rt ledger accepts w'"
proof (rule ledger_ok_db [OF ok ev])
  from c obtain v k where new: "attempt_pending a" "att_ID a \<notin> att_ID ` set (payment_attempts (wdb w))" "key_of k a"
    and d': "wdb w' = (wdb w)\<lparr>invoices := open_invoice v now (wdb w),
        idempotency_keys := idempotency_keys (wdb w) @ [k], payment_attempts := payment_attempts (wdb w) @ [a]\<rparr>"
    unfolding creates_def by blast
  fix x tok assume x: "x \<in> set (payment_attempts (wdb w'))" "attempt_failed x" "bound rt x tok (wdb w')"
  from x(1,2) new(1) d' have old: "x \<in> set (payment_attempts (wdb w))" by (auto simp: attempt_status_defs)
  with new(2,3) have "ik_PaymentAttemptID k \<noteq> Some (att_ID x)" by (auto simp: key_of_def)
  with x(3) have "bound rt x tok (wdb w)" by (auto simp: bound_def d')
  with old x(2) show "\<not> accepts tok \<or> (\<exists>x \<in> set (payment_attempts (wdb w)). attempt_failed x \<and> bound rt x tok (wdb w))" by blast
qed (simp add: p)

text \<open>A failure of the attempt that holds the token is allowed when its card is not accepted.\<close>

lemma ledger_ok_failure:
  assumes ok: "ledger_ok rt ledger accepts w" and inv: "pay_inv rt (wdb w)" and hash: "hash_ok rt"
    and b: "bound rt a tok (wdb w)" and no: "\<not> accepts tok"
    and d': "wdb w' = mark_failure a code now (wdb w)" and p: "wpsp w' = wpsp w"
  shows "ledger_ok rt ledger accepts w'"
proof (rule ledger_ok_db [OF ok])
  show "evolves (wdb w) (wdb w')" unfolding d' by (rule mark_failure_evolves)
  have keys: "idempotency_keys (wdb w') = idempotency_keys (wdb w)" by (simp add: d' mark_failure_def)
  fix x tok' assume x: "x \<in> set (payment_attempts (wdb w'))" "attempt_failed x" "bound rt x tok' (wdb w')"
  from x(3) have bx: "bound rt x tok' (wdb w)" by (simp add: bound_def keys)
  from x(1) d' obtain r where r: "r \<in> set (payment_attempts (wdb w))"
    "x = mark_attempt (att_ID a) PaymentAttemptStatusFailed None (Some code) now r" by (auto simp: mark_failure_def)
  show "\<not> accepts tok' \<or> (\<exists>x \<in> set (payment_attempts (wdb w)). attempt_failed x \<and> bound rt x tok' (wdb w))"
  proof (cases "att_ID r = att_ID a")
    case True
    with r(2) have "att_ID x = att_ID a" by simp
    with bx have "bound rt a tok' (wdb w)" using bound_ID by blast
    with bound_unique [OF hash _ this b] no pay_invD(5) [OF inv] show ?thesis by simp
  next
    case False
    with r(2) have "x = r" by (simp add: mark_attempt_def)
    with r(1) x(2) bx have "r \<in> set (payment_attempts (wdb w)) \<and> attempt_failed r \<and> bound rt r tok' (wdb w)" by simp
    then show ?thesis by blast
  qed
qed (simp add: p)

text \<open>A request for an attempt in memory, and the charge it may make.\<close>

lemma held_request_ok:
  assumes "held a d" and "bound rt a (req_CardToken req) d" and "charge_of req a"
  shows "request_ok rt req d"
proof -
  from assms(1) obtain r where r: "r \<in> set (payment_attempts d)" "same_attempt a r" by (auto simp: held_def copy_of_def)
  have "charge_of req r" using assms(3) r(2) by (simp add: charge_of_def same_attempt_def)
  moreover have "bound rt r (req_CardToken req) d" using assms(2) r(2) bound_ID [of r a] by (simp add: same_attempt_def)
  ultimately show ?thesis using r(1) unfolding request_ok_def by blast
qed

text \<open>
  The provider's own work: it adds charges for requests that were sent, on cards it accepts,
  and never two under one key.
\<close>

definition charges_more ::
  "(string \<Rightarrow> bool) \<Rightarrow> ChargeRequest list \<Rightarrow> ChargeRequest list \<Rightarrow> ChargeRequest list \<Rightarrow> bool" where
  "charges_more accepts rs cs cs' \<longleftrightarrow>
     (\<exists>new. cs' = cs @ new \<and> (\<forall>req \<in> set new. req \<in> set rs \<and> accepts (req_CardToken req)))
   \<and> distinct (filter (\<lambda>k. k \<noteq> []) (map req_IdempotencyKey cs'))"

lemma request_ok_key:
  assumes "request_ok rt req d" and "pay_inv rt d" and "hash_ok rt"
  shows "req_IdempotencyKey req \<noteq> []"
proof -
  from assms(1) obtain a where a: "a \<in> set (payment_attempts d)" "req_IdempotencyKey req = att_ID a"
    unfolding request_ok_def charge_of_def by blast
  from held_canonical(1) [OF assms(2) held_row [OF assms(2) a(1)]] assms(3) a(2) show ?thesis
    by (auto simp: hash_ok_def)
qed

text \<open>Requests are sent and charges are made.\<close>

lemma ledger_ok_more:
  assumes ok: "ledger_ok rt ledger accepts w" and inv: "pay_inv rt (wdb w)" and hash: "hash_ok rt"
    and l: "ledger (wpsp w) = Some (rs, cs)" "ledger (wpsp w') = Some (rs @ sent, cs')"
    and sent: "\<forall>req \<in> set sent. request_ok rt req (wdb w)"
    and c: "charges_more accepts (rs @ sent) cs cs'" and d': "wdb w' = wdb w"
  shows "ledger_ok rt ledger accepts w'"
  using ok
proof (cases rule: ledger_okE)
  case (1 rs0 cs0)
  with l(1) have rs: "\<And>req. req \<in> set (rs @ sent) \<Longrightarrow> request_ok rt req (wdb w)"
    and cs: "\<And>req. req \<in> set cs \<Longrightarrow> accepts (req_CardToken req) \<and> request_ok rt req (wdb w)" using sent by auto
  from c obtain new where new: "cs' = cs @ new" "\<And>req. req \<in> set new \<Longrightarrow> req \<in> set (rs @ sent) \<and> accepts (req_CardToken req)"
    unfolding charges_more_def by blast
  have cs': "accepts (req_CardToken req) \<and> request_ok rt req (wdb w)" if "req \<in> set cs'" for req
    using that new rs cs by auto
  have "filter (\<lambda>k. k \<noteq> []) (map req_IdempotencyKey cs') = map req_IdempotencyKey cs'"
    using cs' request_ok_key [OF _ inv hash] by (intro filter_True) auto
  with c have "distinct (map req_IdempotencyKey cs')" by (simp add: charges_more_def)
  with rs cs' 1(5) show ?thesis by (intro ledger_okI [of _ _ "rs @ sent" cs']) (use l d' in auto)
qed

lemma charges_more_refl:
  assumes "ledger_ok rt ledger accepts w" and "ledger (wpsp w) = Some (rs, cs)"
  shows "charges_more accepts rs' cs cs"
  using assms by (auto simp: charges_more_def intro: distinct_filter elim!: ledger_okE)

text \<open>Requests under one identifier carry one token.\<close>

lemma same_key_same_token:
  assumes ok: "ledger_ok rt ledger accepts w" and inv: "pay_inv rt (wdb w)" and hash: "hash_ok rt"
    and req: "request_ok rt req (wdb w)" and l: "ledger (wpsp w) = Some (rs, cs)" and q: "q \<in> set rs"
    and k: "req_IdempotencyKey q = req_IdempotencyKey req"
  shows "req_CardToken q = req_CardToken req"
proof -
  from ok l q have "request_ok rt q (wdb w)" by (auto elim: ledger_okE)
  with req obtain a x where "charge_of q x" "bound rt x (req_CardToken q) (wdb w)"
    and "charge_of req a" "bound rt a (req_CardToken req) (wdb w)" unfolding request_ok_def by blast
  moreover from this k have "bound rt a (req_CardToken q) (wdb w)" using bound_ID [of x a] by (simp add: charge_of_def)
  ultimately show ?thesis using bound_unique [OF hash pay_invD(5) [OF inv]] by blast
qed

subsection \<open>A call under way\<close>

definition called :: "'p ledger_view \<Rightarrow> nat \<Rightarrow> ChargeRequest \<Rightarrow> 'p world \<Rightarrow> bool" where
  "called ledger call req w \<longleftrightarrow>
     (\<exists>rs cs. ledger (wpsp w) = Some (rs, cs) \<and> call < length rs \<and> rs ! call = req)"

lemma called_grows: "called ledger call req u \<Longrightarrow> grows ledger u v \<Longrightarrow> called ledger call req v"
  by (fastforce simp: called_def grows_def nth_append)

end
