(* ===== verification/Charge_Once.thy ===== *)
theory Charge_Once
  imports Charge_Contract
begin

text \<open>
  The handlers keep the ledger in order, when the provider keeps its contract: the locale
  \<open>charge_contract\<close> and its client, the payment service.
\<close>

subsection \<open>Keeping the payment invariant and the ledger\<close>

abbreviation ledger_R :: "'p ledger_view \<Rightarrow> 'p world \<Rightarrow> 'p world \<Rightarrow> bool" where
  "ledger_R ledger \<equiv> \<lambda>u v. pay_R u v \<and> grows ledger u v"

interpretation ledgered: payment_walk "\<lambda>w. pay_I rt w \<and> ledger_ok rt ledger accepts w" "ledger_R ledger" for rt ledger accepts
  by unfold_locales (auto simp: pay_R_def intro: evolves_trans grows_trans)

definition keeps_ledger ::
  "runtime \<Rightarrow> 'p ledger_view \<Rightarrow> (string \<Rightarrow> bool) \<Rightarrow> ('a \<Rightarrow> db \<Rightarrow> bool) \<Rightarrow> ('p world, 'a) prog \<Rightarrow> 'p world \<Rightarrow> bool" where
  "keeps_ledger rt ledger accepts Q p w \<longleftrightarrow>
     guar (\<lambda>w. pay_I rt w \<and> ledger_ok rt ledger accepts w) (ledger_R ledger) (\<lambda>a w. Q a (wdb w)) p w"

lemma ledger_Done: "lasting Q \<Longrightarrow> Q a (wdb w) \<Longrightarrow> keeps_ledger rt l acc Q (Done a) w"
  unfolding keeps_ledger_def by (rule guar_Done) (auto simp: lasting_def pay_R_def)

lemma ledger_bind:
  assumes "keeps_ledger rt l acc Q m w" and "pay_I rt w" and "ledger_ok rt l acc w"
    and "\<And>a w'. ledger_R l w w' \<Longrightarrow> pay_I rt w' \<Longrightarrow> ledger_ok rt l acc w' \<Longrightarrow> Q a (wdb w') \<Longrightarrow> keeps_ledger rt l acc Q' (k a) w'"
  shows "keeps_ledger rt l acc Q' (bindp m k) w"
  using assms unfolding keeps_ledger_def by (auto intro: ledgered.guar_bind)

lemma ledger_conseq:
  "keeps_ledger rt l acc Q p w \<Longrightarrow> (\<And>a d. Q a d \<Longrightarrow> Q' a d) \<Longrightarrow> keeps_ledger rt l acc Q' p w"
  unfolding keeps_ledger_def by (erule ledgered.guar_mono) auto

text \<open>What is known of a program already, with the steps it makes.\<close>

lemma ledger_steps:
  assumes "keeps rt Q p w" and "stepwise P p"
    and "\<And>u v. pay_R w u \<Longrightarrow> pay_inv rt (wdb u) \<Longrightarrow> ledger_ok rt l acc u \<Longrightarrow> pay_inv rt (wdb v) \<Longrightarrow>
        evolves (wdb u) (wdb v) \<Longrightarrow> P u v \<Longrightarrow> ledger_ok rt l acc v \<and> l (wpsp v) = l (wpsp u)"
  shows "keeps_ledger rt l acc Q p w"
  unfolding keeps_ledger_def
  by (rule payment.guar_strengthen [OF assms(1) [unfolded keeps_def] assms(2)])
    (use assms(3) grows_trans grows_same in \<open>auto simp: pay_I_def pay_R_def\<close>)

lemma ledger_quiet: "keeps rt Q p w \<Longrightarrow> quiet_prog {PaymentAttemptStatusFailed} {} l p \<Longrightarrow> keeps_ledger rt l acc Q p w"
  by (erule ledger_steps, assumption) (auto simp: quiet_def intro: ledger_ok_quiet [unfolded quiet_def])

subsection \<open>What is known of the key and the token\<close>

abbreviation held_for :: "runtime \<Rightarrow> string \<Rightarrow> PaymentAttempt \<Rightarrow> db \<Rightarrow> bool" where
  "held_for rt tok a d \<equiv> held a d \<and> bound rt a tok d"

lemma lasting_held_for: "lasting (held_for rt tok)"
  by (auto simp: lasting_def intro: held_evolves bound_evolves)

lemma creates_bound:
  assumes "creates rt b i key (hashPayRequest rt i tok) now a d d'"
  shows "bound rt a tok d'"
proof -
  from assms obtain v k where i: "parse_uuid rt i = Some (inv_ID v)" and k: "key_of k a"
    "ik_RequestHash k = hashPayRequest rt i tok"
    and d': "d' = d\<lparr>invoices := open_invoice v now d, idempotency_keys := idempotency_keys d @ [k],
        payment_attempts := payment_attempts d @ [a]\<rparr>"
    unfolding creates_def by blast
  have "k \<in> set (idempotency_keys d')" by (simp add: d')
  moreover have "\<exists>j. parse_uuid rt j \<noteq> None \<and> ik_RequestHash k = hashPayRequest rt j tok"
    using i k(2) by (intro exI [of _ i]) simp
  ultimately show ?thesis using k(1) unfolding bound_def key_of_def by blast
qed

lemma keeps_create_for:
  assumes "uuid_ok (svc_rt S)"
  shows "keeps (svc_rt S) (on_success (held_for (svc_rt S) tok))
    (createPendingAttempt S b i key (hashPayRequest (svc_rt S) i tok)) w"
  unfolding createPendingAttempt_def
proof (rule keeps_atom [OF lasting_on_success [OF lasting_held_for]])
  fix w' r w''
  assume i: "pay_inv (svc_rt S) (wdb w')"
    and x: "transaction (createPendingAttempt_body (svc_rt S) b i key (hashPayRequest (svc_rt S) i tok)) w' = (r, w'')"
  from x show "pay_inv (svc_rt S) (wdb w'') \<and> evolves (wdb w') (wdb w'')
      \<and> on_success (held_for (svc_rt S) tok) r (wdb w'')"
  proof (cases rule: transaction_db)
    case (unchanged e)
    with i show ?thesis by simp
  next
    case (committed w0 a w1)
    then have "creates (svc_rt S) b i key (hashPayRequest (svc_rt S) i tok) (wclock w') a (wdb w') (wdb w'')"
      using createPendingAttempt_creates [of "svc_rt S" w0 b i key _ a w1] i assms by simp
    with i committed(6) show ?thesis
      by (auto intro: creates_pay_inv creates_evolves creates_held creates_bound)
  qed
qed

text \<open>A transaction does not touch the provider when its body does not.\<close>

lemma transaction_wpsp:
  assumes "\<And>w. wpsp (snd (body w)) = wpsp w"
  shows "wpsp (snd (transaction body w)) = wpsp w"
proof -
  have n: "wpsp (snd (next_fate w)) = wpsp w" for w :: "'a world" by (simp add: next_fate_def split: list.splits)
  obtain fate w0 where 0: "next_fate w = (fate, w0)" by (cases "next_fate w")
  obtain r w1 where 1: "body w0 = (r, w1)" by (cases "body w0")
  obtain fate1 w2 where 2: "next_fate w1 = (fate1, w2)" by (cases "next_fate w1")
  from n [of w] assms [of w0] n [of w1] show ?thesis
    by (auto simp: transaction_def 0 1 2 split: sum.split fate.split)
qed

lemma createPendingAttempt_wpsp: "wpsp (snd (createPendingAttempt_body rt b i key h w)) = wpsp w"
  by (auto simp: createPendingAttempt_body_def act_try_def act_bind_def act_fail_def act_ret_def uuid_Next_def
      split: prod.splits sum.splits option.splits if_splits dest!: exec_stmt_frame(1))

text \<open>The creation is one step, which leaves the tables or adds the attempt, and not the provider.\<close>

definition creation :: "runtime \<Rightarrow> string \<Rightarrow> string \<Rightarrow> string \<Rightarrow> string \<Rightarrow> 'p world \<Rightarrow> 'p world \<Rightarrow> bool" where
  "creation rt b i key h u v \<longleftrightarrow> wpsp v = wpsp u \<and> (pay_inv rt (wdb u) \<longrightarrow> wdb v = wdb u
      \<or> (\<exists>a. creates rt b i key h (wclock u) a (wdb u) (wdb v)))"

lemma createPendingAttempt_creation:
  assumes "uuid_ok (svc_rt S)"
  shows "stepwise (creation (svc_rt S) b i key h) (createPendingAttempt S b i key h)"
  unfolding createPendingAttempt_def
proof (rule stepwise_atom, unfold creation_def, rule conjI, rule transaction_wpsp, rule createPendingAttempt_wpsp, rule impI)
  fix u :: "'a world" assume i: "pay_inv (svc_rt S) (wdb u)"
  obtain r v where x: "transaction (createPendingAttempt_body (svc_rt S) b i key h) u = (r, v)"
    by (cases "transaction (createPendingAttempt_body (svc_rt S) b i key h) u")
  from x show "wdb (snd (transaction (createPendingAttempt_body (svc_rt S) b i key h) u)) = wdb u
      \<or> (\<exists>a. creates (svc_rt S) b i key h (wclock u) a (wdb u)
            (wdb (snd (transaction (createPendingAttempt_body (svc_rt S) b i key h) u))))"
  proof (cases rule: transaction_db)
    case (unchanged e)
    with x show ?thesis by simp
  next
    case (committed w0 a w1)
    with createPendingAttempt_creates [of "svc_rt S" w0 b i key h a w1] i assms x show ?thesis by auto
  qed
qed

lemma ledger_create:
  assumes "uuid_ok (svc_rt S)"
  shows "keeps_ledger (svc_rt S) l acc (on_success (held_for (svc_rt S) tok))
    (createPendingAttempt S b i key (hashPayRequest (svc_rt S) i tok)) w"
proof (rule ledger_steps [OF keeps_create_for [OF assms] createPendingAttempt_creation [OF assms]])
  fix u v :: "'a world"
  assume "pay_inv (svc_rt S) (wdb u)" "ledger_ok (svc_rt S) l acc u" "pay_inv (svc_rt S) (wdb v)"
    "evolves (wdb u) (wdb v)" "creation (svc_rt S) b i key (hashPayRequest (svc_rt S) i tok) u v"
  then show "ledger_ok (svc_rt S) l acc v \<and> l (wpsp v) = l (wpsp u)"
    using ledger_ok_frame [of v u l] ledger_ok_creates [of "svc_rt S" l acc u _ _ _ _ _ _ v]
    by (auto simp: creation_def)
qed

text \<open>Failing the attempt whose card the provider refuses.\<close>

lemma ledger_persistFailure:
  assumes h: "held_for (svc_rt S) tok a (wdb w)" and I: "pay_I (svc_rt S) w"
    and hash: "hash_ok (svc_rt S)" and no: "\<not> acc tok"
  shows "keeps_ledger (svc_rt S) l acc (on_success known) (persistFailure S a code) w"
proof (rule ledger_steps [OF keeps_persistFailure [OF conjunct1 [OF h] I]])
  let ?P = "\<lambda>u v. quiet {PaymentAttemptStatusFailed} {} l u v \<or> (wpsp v = wpsp u \<and> (\<exists>now. wdb v = mark_failure a code now (wdb u)))"
  have can: "parse_uuid (svc_rt S) (att_ID a) = Some (att_ID a)"
    using held_canonical(1) I h by (auto simp: pay_I_def)
  have q: "stepwise ?P p" if "quiet_prog {PaymentAttemptStatusFailed} {} l p" for p :: "('a world, 'b) prog"
    using that by (induction rule: stepwise.induct) (auto intro!: stepwise.intros)
  show "stepwise ?P (persistFailure S a code)"
    unfolding persistFailure_def bindr_def
  proof (rule stepwise_bind)
    show "stepwise ?P (atom (exec_stmt (PaymentAttemptRepository_UpdateStatusIfPending (svc_rt S) (att_ID a)
        PaymentAttemptStatusFailed None (Some code))))"
    proof (rule stepwise_atom)
      fix u :: "'a world"
      let ?q = "PaymentAttemptRepository_UpdateStatusIfPending (svc_rt S) (att_ID a) PaymentAttemptStatusFailed None (Some code)"
      obtain r v where x: "exec_stmt ?q u = (r, v)" by (cases "exec_stmt ?q u")
      have "wdb v = wdb u \<or> wdb v = mark_failure a code (wclock u) (wdb u)"
        using exec_stmt_db [OF x] by (auto simp: UpdateStatusIfPending_stmt [OF can] mark_failure_def)
      with exec_stmt_frame(1) [OF x] x show "?P u (snd (exec_stmt ?q u))" by (auto intro: quietI)
    qed
    show "stepwise ?P (case r of Inl e \<Rightarrow> Done (Inl e) | Inr updated \<Rightarrow>
       if \<not> updated then atom (exec_stmt (PaymentAttemptRepository_GetByID (svc_rt S) (att_ID a)))
       else bindp (atom (enqueueOutboundEvent (svc_rt S) (failed_attempt a code) EventTypePaymentFailed))
              (\<lambda>r. case r of Inl e \<Rightarrow> Done (Inl e) | Inr _ \<Rightarrow> Done (Inr (failed_attempt a code))))" for r
      by (rule q) (auto split: sum.splits intro!: quieting)
  qed
  fix u v :: "'a world"
  assume "pay_R w u" and *: "pay_inv (svc_rt S) (wdb u)" "ledger_ok (svc_rt S) l acc u" "pay_inv (svc_rt S) (wdb v)"
    "evolves (wdb u) (wdb v)" "?P u v"
  with h have "bound (svc_rt S) a tok (wdb u)" by (auto simp: pay_R_def intro: bound_evolves)
  note b = this
  from *(5) show "ledger_ok (svc_rt S) l acc v \<and> l (wpsp v) = l (wpsp u)"
  proof
    assume q: "quiet {PaymentAttemptStatusFailed} {} l u v"
    with * show ?thesis by (auto simp: quiet_def intro: ledger_ok_quiet [OF _ _ q])
  next
    assume "wpsp v = wpsp u \<and> (\<exists>now. wdb v = mark_failure a code now (wdb u))"
    then obtain now where v: "wdb v = mark_failure a code now (wdb u)" "wpsp v = wpsp u" by blast
    show ?thesis using ledger_ok_failure [OF *(2,1) hash b no v] v(2) by simp
  qed
qed

subsection \<open>The contract\<close>

text \<open>
  A provider whose requests and charges can be read off its state. A call is numbered and its
  request is in the ledger from the moment it is sent; the provider, at any time and also while a
  client waits, adds charges for requests that were sent, on cards it accepts, under an idempotency
  key at most once. As long as a key is used with one token, the end of a call is a refusal only
  for cards the provider does not accept. A call may fail, or lose its answer, at any time,
  and its charge may be made later.
\<close>

locale charge_contract =
  fixes psp :: "'p charger" and moves :: "'p \<Rightarrow> 'p \<Rightarrow> bool" and ledger :: "'p ledger_view" and accepts :: "string \<Rightarrow> bool"
  assumes sent: "ledger p = Some (rs, cs) \<Longrightarrow> psp_send psp req p = (Inr call, p') \<Longrightarrow>
      call = length rs \<and> ledger p' = Some (rs @ [req], cs)"
    and not_sent: "ledger p = Some (rs, cs) \<Longrightarrow> psp_send psp req p = (Inl r, p') \<Longrightarrow>
      ledger p' = Some (rs, cs) \<and> \<not> success r \<and> (refusal r \<longrightarrow> \<not> accepts (req_CardToken req))"
    and waited: "ledger p = Some (rs, cs) \<Longrightarrow> psp_wait psp call p = (r, p') \<Longrightarrow>
      \<exists>cs'. ledger p' = Some (rs, cs') \<and> charges_more accepts rs cs cs'"
    and refused: "ledger p = Some (rs, cs) \<Longrightarrow> psp_wait psp call p = (r, p') \<Longrightarrow> call < length rs \<Longrightarrow> rs ! call = req \<Longrightarrow>
      refusal r \<Longrightarrow> \<forall>q \<in> set rs. req_IdempotencyKey q = req_IdempotencyKey req \<longrightarrow> req_CardToken q = req_CardToken req \<Longrightarrow>
      \<not> accepts (req_CardToken req)"
    and moved: "ledger p = Some (rs, cs) \<Longrightarrow> moves p p' \<Longrightarrow> \<exists>cs'. ledger p' = Some (rs, cs') \<and> charges_more accepts rs cs cs'"
begin

text \<open>The provider's own step.\<close>

lemma move_step:
  assumes ok: "ledger_ok rt ledger accepts w" and inv: "pay_inv rt (wdb w)" and hash: "hash_ok rt"
    and m: "moves (wpsp w) (wpsp w')" and d': "wdb w' = wdb w"
  shows "ledger_ok rt ledger accepts w' \<and> grows ledger w w'"
proof -
  from ok obtain rs cs where l: "ledger (wpsp w) = Some (rs, cs)" by (auto elim: ledger_okE)
  from moved [OF l m] obtain cs' where c: "ledger (wpsp w') = Some (rs, cs')" "charges_more accepts rs cs cs'" by blast
  with ledger_ok_more [OF ok inv hash l, of w' "[]" cs'] l d' show ?thesis
    by (auto simp: grows_def charges_more_def)
qed

text \<open>The request of a call for an attempt in the handler's hands.\<close>

lemma send_step:
  fixes w u :: "'p world"
  assumes S: "svc_psp S = psp" and hash: "hash_ok (svc_rt S)" and h: "held_for (svc_rt S) tok a (wdb w)"
    and R: "pay_R w u" and u: "pay_inv (svc_rt S) (wdb u)" "ledger_ok (svc_rt S) ledger accepts u"
    and c: "psp_Send S (charge_request a tok) u = (s, v)"
  shows "wdb v = wdb u" and "ledger_ok (svc_rt S) ledger accepts v" and "grows ledger u v"
    and "s = Inr call \<Longrightarrow> called ledger call (charge_request a tok) v"
    and "s = Inl r \<Longrightarrow> \<not> success r \<and> (refusal r \<longrightarrow> \<not> accepts tok)"
proof -
  let ?req = "charge_request a tok"
  from c show d: "wdb v = wdb u" by (auto simp: psp_Send_def split: prod.splits)
  from c have p: "psp_send psp ?req (wpsp u) = (s, wpsp v)" by (auto simp: psp_Send_def S split: prod.splits)
  have hu: "held a (wdb u)" "bound (svc_rt S) a tok (wdb u)"
    using h R by (auto simp: pay_R_def intro: held_evolves bound_evolves)
  have req: "request_ok (svc_rt S) ?req (wdb u)" by (rule held_request_ok) (use hu in \<open>simp_all add: charge_of_def\<close>)
  from u(2) obtain rs cs where l: "ledger (wpsp u) = Some (rs, cs)" by (auto elim: ledger_okE)
  note more = charges_more_refl [OF u(2) l]
  have "ledger_ok (svc_rt S) ledger accepts v \<and> grows ledger u v
      \<and> (\<forall>call. s = Inr call \<longrightarrow> called ledger call ?req v) \<and> (\<forall>r. s = Inl r \<longrightarrow> \<not> success r \<and> (refusal r \<longrightarrow> \<not> accepts tok))"
  proof (cases s)
    case (Inl r)
    with p have p: "psp_send psp ?req (wpsp u) = (Inl r, wpsp v)" by simp
    from not_sent [OF l p] Inl l d ledger_ok_frame [of v u ledger] u(2) show ?thesis by (simp add: grows_def)
  next
    case (Inr call)
    with p have p: "psp_send psp ?req (wpsp u) = (Inr call, wpsp v)" by simp
    from sent [OF l p] have s': "call = length rs" "ledger (wpsp v) = Some (rs @ [?req], cs)" by simp_all
    with Inr l ledger_ok_more [OF u(2,1) hash l s'(2) _ more d] req show ?thesis
      by (auto simp: grows_def called_def nth_append)
  qed
  then show "ledger_ok (svc_rt S) ledger accepts v" and "grows ledger u v"
    and "s = Inr call \<Longrightarrow> called ledger call ?req v"
    and "s = Inl r \<Longrightarrow> \<not> success r \<and> (refusal r \<longrightarrow> \<not> accepts tok)" by simp_all
qed

text \<open>The end of the call.\<close>

lemma wait_step:
  fixes u :: "'p world"
  assumes S: "svc_psp S = psp" and hash: "hash_ok (svc_rt S)" and call: "called ledger call (charge_request a tok) u"
    and u: "pay_inv (svc_rt S) (wdb u)" "ledger_ok (svc_rt S) ledger accepts u"
    and c: "psp_Wait S call u = (r, v)"
  shows "wdb v = wdb u" and "ledger_ok (svc_rt S) ledger accepts v" and "grows ledger u v"
    and "refusal r \<Longrightarrow> \<not> accepts tok" and "psp_wait psp call (wpsp u) = (r, wpsp v)"
proof -
  let ?req = "charge_request a tok"
  from c show d: "wdb v = wdb u" by (auto simp: psp_Wait_def split: prod.splits)
  from c show p: "psp_wait psp call (wpsp u) = (r, wpsp v)" by (auto simp: psp_Wait_def S split: prod.splits)
  from call obtain rs cs where l: "ledger (wpsp u) = Some (rs, cs)" and n: "call < length rs" "rs ! call = ?req"
    by (auto simp: called_def)
  from waited [OF l p] obtain cs' where cs': "ledger (wpsp v) = Some (rs, cs')" "charges_more accepts rs cs cs'" by blast
  from ledger_ok_more [OF u(2,1) hash l, of v "[]" cs'] cs' d show "ledger_ok (svc_rt S) ledger accepts v" by simp
  show "grows ledger u v" using l cs' by (auto simp: grows_def charges_more_def)
  have "?req \<in> set rs" using n by (metis nth_mem)
  with u(2) l have req: "request_ok (svc_rt S) ?req (wdb u)" by (auto elim: ledger_okE)
  have "\<forall>q \<in> set rs. req_IdempotencyKey q = req_IdempotencyKey ?req \<longrightarrow> req_CardToken q = req_CardToken ?req"
    using same_key_same_token [OF u(2,1) hash req l] by blast
  with refused [OF l p n] show "\<not> accepts tok" if "refusal r" using that by simp
qed

lemma ledger_charge:
  fixes w :: "'p world"
  assumes S: "svc_psp S = psp" and hash: "hash_ok (svc_rt S)" and h: "held_for (svc_rt S) tok a (wdb w)"
    and I: "pay_I (svc_rt S) w" "ledger_ok (svc_rt S) ledger accepts w"
  shows "guar (\<lambda>w. pay_I (svc_rt S) w \<and> ledger_ok (svc_rt S) ledger accepts w) (ledger_R ledger)
    (\<lambda>r _. refusal r \<longrightarrow> \<not> accepts tok) (psp_Charge S (charge_request a tok)) w"
proof (rule ledgered.walk_Charge [where B = "\<lambda>call. called ledger call (charge_request a tok)"])
  show "guar (\<lambda>w. pay_I (svc_rt S) w \<and> ledger_ok (svc_rt S) ledger accepts w) (ledger_R ledger)
      (\<lambda>s w. case s of Inl r \<Rightarrow> refusal r \<longrightarrow> \<not> accepts tok | Inr call \<Rightarrow> called ledger call (charge_request a tok) w)
      (atom (psp_Send S (charge_request a tok))) w"
  proof (rule ledgered.guar_atom)
    fix u :: "'p world" assume u: "ledger_R ledger w u" "pay_I (svc_rt S) u \<and> ledger_ok (svc_rt S) ledger accepts u"
    let ?s = "psp_Send S (charge_request a tok) u"
    have c: "?s = (fst ?s, snd ?s)" by simp
    note st = send_step [OF S hash h conjunct1 [OF u(1)] _ _ c]
    from u(2) have i: "pay_inv (svc_rt S) (wdb u)" "ledger_ok (svc_rt S) ledger accepts u" by (simp_all add: pay_I_def)
    have "\<forall>x. ledger_R ledger (snd ?s) x \<longrightarrow> (case fst ?s of Inl r \<Rightarrow> refusal r \<longrightarrow> \<not> accepts tok
        | Inr call \<Rightarrow> called ledger call (charge_request a tok) x)"
      using st(4,5) [OF i] called_grows [of ledger _ _ "snd ?s"] by (auto split: sum.split)
    with st(1-3) [OF i] i show "(pay_I (svc_rt S) (snd ?s) \<and> ledger_ok (svc_rt S) ledger accepts (snd ?s)) \<and> ledger_R ledger u (snd ?s)
        \<and> (\<forall>x. ledger_R ledger (snd ?s) x \<longrightarrow> pay_I (svc_rt S) x \<and> ledger_ok (svc_rt S) ledger accepts x \<longrightarrow>
            (case fst ?s of Inl r \<Rightarrow> refusal r \<longrightarrow> \<not> accepts tok | Inr call \<Rightarrow> called ledger call (charge_request a tok) x))"
      by (simp add: pay_I_def pay_R_def)
  qed
  fix call and w' :: "'p world" assume b: "called ledger call (charge_request a tok) w'"
  show "guar (\<lambda>w. pay_I (svc_rt S) w \<and> ledger_ok (svc_rt S) ledger accepts w) (ledger_R ledger)
      (\<lambda>r _. refusal r \<longrightarrow> \<not> accepts tok) (atom (psp_Wait S call)) w'"
  proof (rule ledgered.guar_atom)
    fix u assume u: "ledger_R ledger w' u" "pay_I (svc_rt S) u \<and> ledger_ok (svc_rt S) ledger accepts u"
    let ?s = "psp_Wait S call u"
    have c: "?s = (fst ?s, snd ?s)" by simp
    from u(2) have i: "pay_inv (svc_rt S) (wdb u)" "ledger_ok (svc_rt S) ledger accepts u" by (simp_all add: pay_I_def)
    note st = wait_step [OF S hash called_grows [OF b conjunct2 [OF u(1)]] i c]
    from st(1-4) i show "(pay_I (svc_rt S) (snd ?s) \<and> ledger_ok (svc_rt S) ledger accepts (snd ?s)) \<and> ledger_R ledger u (snd ?s)
        \<and> (\<forall>x. ledger_R ledger (snd ?s) x \<longrightarrow> pay_I (svc_rt S) x \<and> ledger_ok (svc_rt S) ledger accepts x \<longrightarrow>
            refusal (fst ?s) \<longrightarrow> \<not> accepts tok)"
      by (simp add: pay_I_def pay_R_def)
  qed
qed (use I in auto)

lemma ledger_chargeAndSettle:
  assumes S: "svc_psp S = psp" and hash: "hash_ok (svc_rt S)" and I: "pay_I (svc_rt S) w"
    and L: "ledger_ok (svc_rt S) ledger accepts w" and h: "held_for (svc_rt S) tok a (wdb w)"
  shows "keeps_ledger (svc_rt S) ledger accepts (\<lambda>_ _. True) (chargeAndSettle S a tok) w"
  unfolding keeps_ledger_def
proof (rule ledgered.walk_chargeAndSettle)
  show "pay_I (svc_rt S) w \<and> ledger_ok (svc_rt S) ledger accepts w" using I L by simp
  show "guar (\<lambda>w. pay_I (svc_rt S) w \<and> ledger_ok (svc_rt S) ledger accepts w) (ledger_R ledger)
      (\<lambda>r _. refusal r \<longrightarrow> \<not> accepts tok) (psp_Charge S (charge_request a tok)) w"
    by (rule ledger_charge [OF S hash h I L])
  fix r code ref w' assume w': "ledger_R ledger w w'" "pay_I (svc_rt S) w' \<and> ledger_ok (svc_rt S) ledger accepts w'"
  have h': "held_for (svc_rt S) tok a (wdb w')"
    using h w'(1) by (auto simp: pay_R_def intro: held_evolves bound_evolves)
  have any: "guar (\<lambda>w. pay_I (svc_rt S) w \<and> ledger_ok (svc_rt S) ledger accepts w) (ledger_R ledger) (\<lambda>_ _. True) p w'"
    if "keeps_ledger (svc_rt S) ledger accepts (on_success known) p w'" for p
    using that unfolding keeps_ledger_def by (rule ledgered.walk_any)
  show "guar (\<lambda>w. pay_I (svc_rt S) w \<and> ledger_ok (svc_rt S) ledger accepts w) (ledger_R ledger) (\<lambda>_ _. True) (persistFailure S a code) w'"
    if "refusal r \<longrightarrow> \<not> accepts tok" "refusal r"
    by (rule any [OF ledger_persistFailure [OF h' _ hash]]) (use that w' in auto)
  show "guar (\<lambda>w. pay_I (svc_rt S) w \<and> ledger_ok (svc_rt S) ledger accepts w) (ledger_R ledger) (\<lambda>_ _. True) (persistSuccess S a ref) w'"
    by (rule any [OF ledger_quiet [OF keeps_persistSuccess]]) (use h' in \<open>auto intro: quiet_persistSuccess\<close>)
qed

text \<open>The lookup of the attempt that a key of the same request names.\<close>

lemma keeps_found:
  assumes I: "pay_I (svc_rt S) w" and k: "k \<in> set (idempotency_keys (wdb w))"
    and kh: "ik_RequestHash k = hashPayRequest (svc_rt S) i tok" and ki: "ik_InvoiceID k = i"
    and x: "ik_PaymentAttemptID k = Some x"
  shows "keeps (svc_rt S) (on_success (held_for (svc_rt S) tok))
      (atom (exec_stmt (PaymentAttemptRepository_GetByID (svc_rt S) x))) w"
proof (rule keeps_atom [OF lasting_on_success [OF lasting_held_for]])
  from I have inv: "pay_inv (svc_rt S) (wdb w)" by (simp add: pay_I_def)
  from pay_invD(5) [OF inv] k obtain a where a: "a \<in> set (payment_attempts (wdb w))" "Payment_Invariant.key_of k a"
    by (auto simp: keys_ok_def)
  note can = held_canonical [OF inv held_row [OF inv a(1)]]
  have xa: "x = att_ID a" and i: "i = att_InvoiceID a" using a(2) x ki by (simp_all add: key_of_def)
  have b: "bound (svc_rt S) a' tok (wdb w)" if "att_ID a' = x" for a'
    unfolding bound_def using k kh x that can(2) i by (intro bexI [of _ k] conjI exI [of _ i]) auto
  fix w' r w'' assume R: "pay_R w w'" and i': "pay_inv (svc_rt S) (wdb w')"
    and e: "exec_stmt (PaymentAttemptRepository_GetByID (svc_rt S) x) w' = (r, w'')"
  have d: "wdb w'' = wdb w'" by (rule exec_db_read [OF e payment_read_only(4)])
  have "on_success (held_for (svc_rt S) tok) r (wdb w')"
  proof (cases r)
    case (Inr a')
    with e have "exec_stmt (PaymentAttemptRepository_GetByID (svc_rt S) x) w' = (Inr a', w'')" by simp
    note g = attempt_GetByID_Inr [OF this]
    from g(2) can(1) xa have "att_ID a' = x" by simp
    with b R have "bound (svc_rt S) a' tok (wdb w')" by (auto simp: pay_R_def intro: bound_evolves)
    with held_row [OF i' g(1)] Inr show ?thesis by simp
  qed simp
  with d i' show "pay_inv (svc_rt S) (wdb w'') \<and> evolves (wdb w') (wdb w'')
      \<and> on_success (held_for (svc_rt S) tok) r (wdb w'')" by simp
qed

lemma ledger_found:
  assumes "pay_I (svc_rt S) w" and "k \<in> set (idempotency_keys (wdb w))"
    and "ik_RequestHash k = hashPayRequest (svc_rt S) i tok" and "ik_InvoiceID k = i" and "ik_PaymentAttemptID k = Some x"
  shows "keeps_ledger (svc_rt S) ledger accepts (on_success (held_for (svc_rt S) tok))
      (atom (exec_stmt (PaymentAttemptRepository_GetByID (svc_rt S) x))) w"
  by (rule ledger_quiet [OF keeps_found [OF assms]]) (intro quieting)

lemma ledger_GetByKey:
  "keeps_ledger (svc_rt S) ledger accepts (on_success (\<lambda>k d. k \<in> set (idempotency_keys d)))
    (atom (exec_stmt (IdempotencyRepository_GetByKey (svc_rt S) b key))) w"
proof (rule ledger_quiet)
  show "keeps (svc_rt S) (on_success (\<lambda>k d. k \<in> set (idempotency_keys d)))
      (atom (exec_stmt (IdempotencyRepository_GetByKey (svc_rt S) b key))) w"
    by (rule keeps_read [OF payment_read_only(5)])
      (auto simp: lasting_def evolves_def rows_evolve_def dest: GetByKey_Inr)
qed (intro quieting)

lemma ledger_PayInvoice:
  assumes S: "svc_psp S = psp" and hash: "hash_ok (svc_rt S)" and rt: "uuid_ok (svc_rt S)"
    and I: "pay_I (svc_rt S) w" and L: "ledger_ok (svc_rt S) ledger accepts w"
  shows "keeps_ledger (svc_rt S) ledger accepts (\<lambda>_ _. True) (PayInvoice S b i key tok) w"
  unfolding keeps_ledger_def
proof (rule ledgered.walk_PayInvoice)
  show "pay_I (svc_rt S) w \<and> ledger_ok (svc_rt S) ledger accepts w" using I L by simp
  fix w :: "'p world" assume w: "pay_I (svc_rt S) w \<and> ledger_ok (svc_rt S) ledger accepts w"
  let ?guar = "\<lambda>Q p. guar (\<lambda>w. pay_I (svc_rt S) w \<and> ledger_ok (svc_rt S) ledger accepts w) (ledger_R ledger) Q p w"
  let ?H = "\<lambda>a w. held_for (svc_rt S) tok a (wdb w)" and ?K = "\<lambda>k w. k \<in> set (idempotency_keys (wdb w))"
  show "?guar (when_ok ?K) (atom (exec_stmt (IdempotencyRepository_GetByKey (svc_rt S) b key)))"
    unfolding when_ok_db [of "\<lambda>k d. k \<in> set (idempotency_keys d)"] using ledger_GetByKey by (simp add: keeps_ledger_def)
  show "?guar (when_ok ?H) (createPendingAttempt S b i key (hashPayRequest (svc_rt S) i tok))"
    unfolding when_ok_db [of "held_for (svc_rt S) tok"] using ledger_create [OF rt] by (simp add: keeps_ledger_def)
  show "?guar (when_ok ?H) (atom (exec_stmt (PaymentAttemptRepository_GetByID (svc_rt S) x)))"
    if "k \<in> set (idempotency_keys (wdb w))" "ik_RequestHash k = hashPayRequest (svc_rt S) i tok"
      "ik_InvoiceID k = i" "ik_PaymentAttemptID k = Some x" for k x
    unfolding when_ok_db [of "held_for (svc_rt S) tok"] using ledger_found [OF _ that] w by (simp add: keeps_ledger_def)
  show "?guar (\<lambda>_ _. True) (chargeAndSettle S a tok)" if "held_for (svc_rt S) tok a (wdb w)" for a
    using ledger_chargeAndSettle [OF S hash _ _ that] w by (simp add: keeps_ledger_def)
qed

end

end
