(* ===== verification/Ledger_Pool.thy ===== *)
theory Ledger_Pool
  imports Charge_Once
begin

text \<open>
  The server over a provider that keeps its contract, as a pool of handlers: its reachable
  states have the ledger in order. Two things are asked of the surroundings: that only
  the gateway charges under the identifiers of its attempts, and that nobody signs a
  report of a failure, which the provider never sends.
\<close>

subsection \<open>Genuine webhooks\<close>

text \<open>What \<open>applyWebhook\<close> takes for the report of a success, and of a failure.\<close>

definition reports_success :: "pspWebhookPayload \<Rightarrow> bool" where
  "reports_success body \<longleftrightarrow> EventType body = ''charge.succeeded'' \<or> Data_Status body = ''succeeded''"

definition reports_failure :: "pspWebhookPayload \<Rightarrow> bool" where
  "reports_failure body \<longleftrightarrow> \<not> reports_success body \<and> (EventType body = ''charge.failed'' \<or> Data_Status body = ''failed'')"

text \<open>The report that a post carries, when its signature is one that the secret makes.\<close>

definition signed_report ::
  "'p PaymentService \<Rightarrow> string \<Rightarrow> string \<Rightarrow> string \<Rightarrow> string \<Rightarrow> pspWebhookPayload \<Rightarrow> bool" where
  "signed_report S payload eventID ts sig body \<longleftrightarrow> json_webhook (svc_rt S) payload = Some body
     \<and> (\<exists>t. ParseInt64 ts = Some t \<and> sig = Sign (svc_rt S) (svc_pspWebhookSecret S) eventID (time_Unix t) payload)"

text \<open>A post is genuine unless it is a signed failure report.\<close>

definition genuine :: "'p PaymentService \<Rightarrow> string \<Rightarrow> string \<Rightarrow> string \<Rightarrow> string \<Rightarrow> bool" where
  "genuine S payload eventID ts sig \<longleftrightarrow> (\<forall>body. signed_report S payload eventID ts sig body \<longrightarrow> \<not> reports_failure body)"

text \<open>
  The outcome that a report records may be a watched one for the attempt it names. The
  identifiers are compared as the database reads them.
\<close>

definition named :: "runtime \<Rightarrow> pspWebhookPayload \<Rightarrow> string set" where
  "named rt body = {c. parse_uuid rt (Data_IdempotencyKey body) = Some c}"

lemma quiet_applyWebhook:
  assumes rt: "uuid_ok (svc_rt S)"
    and s: "reports_success body \<Longrightarrow> PaymentAttemptStatusSucceeded \<in> st \<Longrightarrow> named (svc_rt S) body \<subseteq> C"
    and f: "reports_failure body \<Longrightarrow> PaymentAttemptStatusFailed \<in> st \<Longrightarrow> named (svc_rt S) body \<subseteq> C"
  shows "quiet_prog st C ledger (applyWebhook S body)"
proof -
  let ?get = "atom (exec_stmt (PaymentAttemptRepository_GetByID (svc_rt S) (Data_IdempotencyKey body)))"
  have g: "gives (\<lambda>a. parse_uuid (svc_rt S) (Data_IdempotencyKey body) = Some (att_ID a)) ?get"
    by (rule gives_exec) (rule attempt_GetByID_value)
  have c: "c \<in> named (svc_rt S) body"
    if "parse_uuid (svc_rt S) (Data_IdempotencyKey body) = Some (att_ID a)" "parse_uuid (svc_rt S) (att_ID a) = Some c" for a c
    using that uuid_okD(1) [OF rt that(1)] by (simp add: named_def)
  show ?thesis
    unfolding applyWebhook_def
    by (auto split: sum.split intro!: quieting quiet_persistSuccess quiet_persistFailure stepwise_bind_yields [OF _ g])
      (use c s f in \<open>auto simp: reports_success_def reports_failure_def\<close>)
qed

lemma quiet_processEvent:
  assumes "quiet_prog st C ledger (applyWebhook S body)"
  shows "quiet_prog st C ledger (processEvent S body e)"
  by (auto simp: processEvent_def split: sum.split intro!: quieting assms)

lemma quiet_ProcessPSPWebhook:
  assumes rt: "uuid_ok (svc_rt S)"
    and s: "\<And>body. signed_report S payload eventID ts sig body \<Longrightarrow> reports_success body \<Longrightarrow>
      PaymentAttemptStatusSucceeded \<in> st \<Longrightarrow> named (svc_rt S) body \<subseteq> C"
    and f: "\<And>body. signed_report S payload eventID ts sig body \<Longrightarrow> reports_failure body \<Longrightarrow>
      PaymentAttemptStatusFailed \<in> st \<Longrightarrow> named (svc_rt S) body \<subseteq> C"
  shows "quiet_prog st C ledger (ProcessPSPWebhook S payload eventID ts sig)"
proof -
  have pe: "quiet_prog st C ledger (processEvent S body e)"
    if "Verify (svc_rt S) (svc_pspWebhookSecret S) eventID ts sig payload now = None"
      "json_webhook (svc_rt S) payload = Some body" for now body e
  proof -
    from that have "signed_report S payload eventID ts sig body"
      by (auto simp: signed_report_def Verify_def split: option.splits if_splits)
    then show ?thesis by (intro quiet_processEvent quiet_applyWebhook rt s f)
  qed
  show ?thesis
    unfolding ProcessPSPWebhook_def
  proof (rule quiet_bind, goal_cases)
    case 1
    show ?case by (intro quieting)
  next
    case (2 now)
    let ?v = "Verify (svc_rt S) (svc_pspWebhookSecret S) eventID ts sig payload now"
    show ?case
    proof (cases "?v = None \<and> json_webhook (svc_rt S) payload \<noteq> None")
      case True
      then obtain body where b: "?v = None" "json_webhook (svc_rt S) payload = Some body" by auto
      from pe [OF b] show ?thesis by (auto simp: b split: sum.split intro!: quieting)
    next
      case False
      then show ?thesis by (auto split: option.split intro!: quieting)
    qed
  qed
qed

definition genuine_request :: "'p Server \<Rightarrow> Request \<Rightarrow> bool" where
  "genuine_request V req = (case req of
     PostWebhooksPSP (Some payload) eventID ts sig \<Rightarrow> genuine (paymentService V) payload eventID ts sig
   | _ \<Rightarrow> True)"

subsection \<open>The routes\<close>

lemma quiet_route:
  assumes "\<And>h i body key. req \<noteq> PostPay h i body key"
    and "\<And>payload eventID ts sig. req = PostWebhooksPSP (Some payload) eventID ts sig \<Longrightarrow>
      quiet_prog st C ledger (ProcessPSPWebhook (paymentService V) payload eventID ts sig)"
  shows "quiet_prog st C ledger (route V req)"
  using assms
  by (auto simp: route_def Let_def HandlePSPWebhook_def split: Request.split option.split intro!: quieting)

lemma quiet_genuine:
  assumes "uuid_ok (srv_rt V)" and "genuine_request V req" and "\<And>h i body key. req \<noteq> PostPay h i body key"
  shows "quiet_prog {PaymentAttemptStatusFailed} {} ledger (route V req)"
  using assms
  by (intro quiet_route quiet_ProcessPSPWebhook) (auto simp: genuine_request_def genuine_def)

context charge_contract begin

lemma ledger_route:
  assumes S: "svc_psp (paymentService V) = psp" and hash: "hash_ok (srv_rt V)" and rt: "uuid_ok (srv_rt V)"
    and I: "pay_I (srv_rt V) w" and L: "ledger_ok (srv_rt V) ledger accepts w" and g: "genuine_request V req"
  shows "keeps_ledger (srv_rt V) ledger accepts (\<lambda>_ _. True) (route V req) w"
proof (cases "\<exists>h i body key. req = PostPay h i body key")
  case False
  with g show ?thesis by (intro ledger_quiet keeps_route I rt quiet_genuine) auto
next
  case True
  then obtain h i body key where req: "req = PostPay h i body key" by blast
  have D: "keeps_ledger (srv_rt V) ledger accepts (\<lambda>_ _. True) (Done r) w'" for r :: response and w' :: "'p world"
    by (intro ledger_Done lasting_True) simp
  have pay: "keeps_ledger (srv_rt V) ledger accepts (\<lambda>_ _. True) (handle_PayInvoice (paymentService V) i body key ctx) w'"
    if w': "pay_I (srv_rt V) w'" "ledger_ok (srv_rt V) ledger accepts w'" for ctx w'
  proof -
    have p: "keeps_ledger (srv_rt V) ledger accepts (\<lambda>_ _. True) (PayInvoice (paymentService V) b i key tok) w'" for b tok
      using ledger_PayInvoice [OF S] hash rt w' by simp
    show ?thesis
      by (auto simp: handle_PayInvoice_def with_business_def respond_def split: option.split sum.split
          intro!: D ledger_bind [OF p w'])
  qed
  have "keeps_ledger (srv_rt V) ledger accepts (\<lambda>_ _. True)
      (guarded (APIKeyAuth (srv_rt V) h) (handle_PayInvoice (paymentService V) i body key)) w"
    unfolding guarded_def
    by (rule ledger_bind [OF ledger_quiet [OF keeps_auth(1) [OF I] quiet_auth(1)] I L])
      (auto split: sum.split intro!: D pay)
  then show ?thesis by (simp add: req route_def Let_def)
qed

end

subsection \<open>The pool\<close>

text \<open>
  What may start, and how the surroundings move: as in \<open>Arrives\<close> and \<open>Environment\<close>, with
  genuine webhooks only. The provider makes its own moves at any time, between any two steps of the
  handlers; nothing else touches its ledger.
\<close>

inductive Genuine :: "'p Server \<Rightarrow> 'p world \<Rightarrow> ('p world, unit) prog \<Rightarrow> bool" for V where
  genuine_request: "genuine_request V req \<Longrightarrow> Genuine V w (handler (route V req))"
| genuine_touch: "Genuine V w (handler (touchLastUsed (srv_rt V) keyID))"
| genuine_poll: "Genuine V w (handler (DispatcherRun (webhookDispatcher V) n))"

inductive Surroundings :: "('p \<Rightarrow> 'p \<Rightarrow> bool) \<Rightarrow> 'p ledger_view \<Rightarrow> 'p world \<Rightarrow> 'p world \<Rightarrow> bool" for moves ledger where
  time_passes: "Surroundings moves ledger w (w\<lparr>wclock := wclock w + int n\<rparr>)"
| faults_come: "Surroundings moves ledger w (w\<lparr>wfates := fs\<rparr>)"
| provider_moves: "moves (wpsp w) p \<Longrightarrow> Surroundings moves ledger w (w\<lparr>wpsp := p\<rparr>)"
| others_move: "ledger p = ledger (wpsp w) \<Longrightarrow> Surroundings moves ledger w (w\<lparr>wpsp := p\<rparr>)"

inductive_cases GenuineE: "Genuine V w p"
inductive_cases SurroundingsE: "Surroundings moves ledger w w'"

definition ledger_I ::
  "'p Server \<Rightarrow> ('p \<Rightarrow> 'p \<Rightarrow> bool) \<Rightarrow> 'p ledger_view \<Rightarrow> (string \<Rightarrow> bool) \<Rightarrow> 'p world \<Rightarrow> bool" where
  "ledger_I V moves ledger accepts w \<longleftrightarrow> charge_contract (svc_psp (paymentService V)) moves ledger accepts
     \<and> hash_ok (srv_rt V) \<and> uuid_ok (srv_rt V) \<and> merchants_apart ledger (srv_merchants V)
     \<and> pay_I (srv_rt V) w \<and> ledger_ok (srv_rt V) ledger accepts w"

lemma surroundings_keep:
  assumes c: "charge_contract psp moves ledger accepts" and hash: "hash_ok rt" and inv: "pay_inv rt (wdb w)"
    and ok: "ledger_ok rt ledger accepts w" and s: "Surroundings moves ledger w w'"
  shows "wdb w' = wdb w \<and> ledger_ok rt ledger accepts w' \<and> grows ledger w w'"
  using s
proof (cases rule: Surroundings.cases)
  case (provider_moves p)
  then show ?thesis using charge_contract.move_step [OF c ok inv hash, of w'] by simp
next
  case (time_passes n)
  then show ?thesis using ok ledger_ok_frame [of w' w ledger rt accepts] by simp
next
  case (faults_come fs)
  then show ?thesis using ok ledger_ok_frame [of w' w ledger rt accepts] by simp
next
  case (others_move p)
  then show ?thesis using ok ledger_ok_frame [of w' w ledger rt accepts] by simp
qed

lemma genuine_keeps:
  assumes "Genuine V w p" and i: "ledger_I V moves ledger accepts w"
  shows "guar (\<lambda>w. pay_I (srv_rt V) w \<and> ledger_ok (srv_rt V) ledger accepts w) (ledger_R ledger) (\<lambda>_ _. True) p w"
proof -
  from i have c: "charge_contract (svc_psp (paymentService V)) moves ledger accepts" and rt: "hash_ok (srv_rt V)" "uuid_ok (srv_rt V)"
    and m: "merchants_apart ledger (wd_http (webhookDispatcher V))" and I: "pay_I (srv_rt V) w"
    and L: "ledger_ok (srv_rt V) ledger accepts w"
    by (auto simp: ledger_I_def webhookDispatcher_def)
  have h: "guar (\<lambda>w. pay_I (srv_rt V) w \<and> ledger_ok (srv_rt V) ledger accepts w) (ledger_R ledger) (\<lambda>_ _. True) (handler q) w"
    if "keeps_ledger (srv_rt V) ledger accepts (\<lambda>_ _. True) q w" for q :: "('a world, 'b) prog"
    using that unfolding keeps_ledger_def by (rule ledgered.guar_handler) (use I L in blast)
  from assms(1) show ?thesis
  proof (cases rule: Genuine.cases)
    case (genuine_request req)
    then show ?thesis using charge_contract.ledger_route [OF c refl rt I L] by (auto intro: h)
  qed (auto intro!: h ledger_quiet keeps_auth(3) keeps_DispatcherRun quiet_auth(3) quiet_DispatcherRun m I)
qed

interpretation ledger_pool: handler_pool "ledger_I V moves ledger accepts" "ledger_R ledger" "Genuine V" "Surroundings moves ledger"
  for V moves ledger accepts
proof unfold_locales
  fix w p assume a: "Genuine V w p" and i: "ledger_I V moves ledger accepts w"
  then have "ledger_I V moves ledger accepts = (\<lambda>w. pay_I (srv_rt V) w \<and> ledger_ok (srv_rt V) ledger accepts w)"
    by (auto simp: ledger_I_def fun_eq_iff)
  with genuine_keeps [OF a i] show "guar (ledger_I V moves ledger accepts) (ledger_R ledger) (\<lambda>_ _. True) p w" by simp
next
  fix w w' :: "'a world" assume s: "Surroundings moves ledger w w'" and i: "ledger_I V moves ledger accepts w"
  then have c: "charge_contract (svc_psp (paymentService V)) moves ledger accepts" and rt: "hash_ok (srv_rt V)"
    and inv: "pay_inv (srv_rt V) (wdb w)" and L: "ledger_ok (srv_rt V) ledger accepts w"
    by (simp_all add: ledger_I_def pay_I_def)
  have "wdb w' = wdb w \<and> ledger_ok (srv_rt V) ledger accepts w' \<and> grows ledger w w'"
    using surroundings_keep [OF c rt inv L s] .
  with i show "ledger_I V moves ledger accepts w' \<and> ledger_R ledger w w'"
    by (auto simp: ledger_I_def pay_I_def pay_R_def)
qed

subsection \<open>One charge per invoice\<close>

text \<open>The charges of an invoice: those under the identifiers of its attempts.\<close>

definition invoice_charges :: "string \<Rightarrow> ChargeRequest list \<Rightarrow> db \<Rightarrow> ChargeRequest list" where
  "invoice_charges i charges d =
     filter (\<lambda>req. list_ex (\<lambda>a. att_ID a = req_IdempotencyKey req \<and> att_InvoiceID a = i) (payment_attempts d)) charges"

lemma ledger_ok_once:
  assumes ok: "ledger_ok rt ledger accepts w" and inv: "pay_inv rt (wdb w)" and l: "ledger (wpsp w) = Some (rs, cs)"
  shows "length (invoice_charges i cs (wdb w)) \<le> 1"
proof -
  let ?c = "invoice_charges i cs (wdb w)"
  have d: "distinct (map req_IdempotencyKey cs)"
    and req: "\<And>req. req \<in> set cs \<Longrightarrow> accepts (req_CardToken req) \<and> request_ok rt req (wdb w)"
    and failed: "\<And>a tok. a \<in> set (payment_attempts (wdb w)) \<Longrightarrow> attempt_failed a \<Longrightarrow> bound rt a tok (wdb w) \<Longrightarrow> \<not> accepts tok"
    using ok l by (auto elim: ledger_okE)
  have active: "\<exists>a \<in> set (payment_attempts (wdb w)). att_ID a = req_IdempotencyKey req \<and> att_InvoiceID a = i
      \<and> \<not> attempt_failed a" if "req \<in> set ?c" for req
  proof -
    from that obtain a where a: "a \<in> set (payment_attempts (wdb w))" "att_ID a = req_IdempotencyKey req" "att_InvoiceID a = i"
      and "req \<in> set cs" by (auto simp: invoice_charges_def list_ex_iff)
    with req obtain x where x: "x \<in> set (payment_attempts (wdb w))" "charge_of req x"
      "bound rt x (req_CardToken req) (wdb w)" and acc: "accepts (req_CardToken req)" unfolding request_ok_def by blast
    have "x = a" using attempt_unique [OF pay_invD(1) [OF inv] x(1) a(1)] x(2) a(2) by (simp add: charge_of_def)
    with x acc failed have "\<not> attempt_failed a" by blast
    with a show ?thesis by blast
  qed
  have same: "x = y" if x: "x \<in> set ?c" and y: "y \<in> set ?c" for x y
  proof -
    from active [OF x] active [OF y] pay_invD(3) [OF inv] have "req_IdempotencyKey x = req_IdempotencyKey y"
      unfolding single_active_def by metis
    moreover have "x \<in> set cs" "y \<in> set cs" using x y by (auto simp: invoice_charges_def)
    ultimately show ?thesis using d distinct_map_unique by metis
  qed
  have "distinct ?c" using d by (auto simp: invoice_charges_def distinct_map intro: distinct_filter)
  then have "length ?c = card (set ?c)" by (simp add: distinct_card)
  also have "\<dots> \<le> 1" using same card_le_Suc0_iff_eq [of "set ?c"] by auto
  finally show ?thesis .
qed

text \<open>Every charge is over the amount of an attempt's invoice, and of its currency.\<close>

lemma ledger_ok_amounts:
  assumes ok: "ledger_ok rt ledger accepts w" and inv: "pay_inv rt (wdb w)" and l: "ledger (wpsp w) = Some (rs, cs)"
    and "req \<in> set cs"
  shows "\<exists>a \<in> set (payment_attempts (wdb w)). \<exists>v \<in> set (invoices (wdb w)). req_IdempotencyKey req = att_ID a
      \<and> att_InvoiceID a = inv_ID v \<and> req_Amount req = inv_Amount v \<and> req_Currency req = inv_Currency v"
proof -
  from ok l assms(4) have "request_ok rt req (wdb w)" by (auto elim: ledger_okE)
  then obtain a where a: "a \<in> set (payment_attempts (wdb w))" "charge_of req a" unfolding request_ok_def by blast
  from pay_invD(2) [OF inv] a(1) obtain v where "v \<in> set (invoices (wdb w))" "attempt_of a v"
    unfolding refs_ok_def by blast
  with a show ?thesis unfolding charge_of_def attempt_of_def by metis
qed

text \<open>An attempt that failed was not charged.\<close>

lemma ledger_ok_failed:
  assumes ok: "ledger_ok rt ledger accepts w" and inv: "pay_inv rt (wdb w)" and l: "ledger (wpsp w) = Some (rs, cs)"
    and a: "a \<in> set (payment_attempts (wdb w))" "attempt_failed a"
  shows "att_ID a \<notin> req_IdempotencyKey ` set cs"
proof
  assume "att_ID a \<in> req_IdempotencyKey ` set cs"
  then obtain req where req: "req \<in> set cs" "req_IdempotencyKey req = att_ID a" by auto
  from ok l req(1) have acc: "accepts (req_CardToken req)" and "request_ok rt req (wdb w)" by (auto elim: ledger_okE)
  then obtain x where x: "x \<in> set (payment_attempts (wdb w))" "charge_of req x"
    "bound rt x (req_CardToken req) (wdb w)" unfolding request_ok_def by blast
  have "x = a" using attempt_unique [OF pay_invD(1) [OF inv] x(1) a(1)] x(2) req(2) by (simp add: charge_of_def)
  have "\<not> accepts (req_CardToken req)"
    using ok l a x(3) \<open>x = a\<close> by (auto elim: ledger_okE)
  with acc show False by blast
qed

text \<open>The sequential use of the API is one of the executions, when its webhooks are genuine.\<close>

lemma genuine_serve_reach:
  assumes "\<forall>req \<in> set reqs. genuine_request V req"
  shows "\<exists>ps'. pool_reach (Genuine V) (Surroundings moves ledger) (ps, w) (ps', snd (serve V reqs w))"
  using assms
proof (induction reqs arbitrary: ps w)
  case Nil
  show ?case by (auto intro: pool_refl)
next
  case (Cons req reqs)
  let ?h = "handler (route V req)"
  have "pool_reach (Genuine V) (Surroundings moves ledger) (ps, w) (ps @ [?h], w)"
    by (rule pool_more [OF pool_refl]) (rule arrival, rule Genuine.genuine_request, use Cons.prems in simp)
  moreover have "pool_reach (Genuine V) (Surroundings moves ledger) (ps @ [?h], w)
      ((ps @ [?h])[length ps := Done (fst (run ?h w))], snd (run ?h w))"
    by (rule pool_reach_run) simp_all
  moreover obtain ps2 where "pool_reach (Genuine V) (Surroundings moves ledger)
      ((ps @ [?h])[length ps := Done (fst (run ?h w))], snd (run ?h w)) (ps2, snd (serve V reqs (snd (run ?h w))))"
    using Cons by fastforce
  ultimately have "pool_reach (Genuine V) (Surroundings moves ledger) (ps, w) (ps2, snd (serve V reqs (snd (run ?h w))))"
    by (blast intro: pool_reach_trans)
  then show ?case by (auto simp: case_prod_beta run_handler)
qed

end
