(* ===== verification/Charge_Confirmed.thy ===== *)
theory Charge_Confirmed
  imports Ledger_Pool
begin

text \<open>
  The other direction of the ledger: what the gateway records as paid has been charged. The
  contract is extended by what a success means, and the handlers are shown to record a success
  only of an attempt that the provider has charged.
\<close>

subsection \<open>Charged attempts\<close>

definition charged_under :: "'p ledger_view \<Rightarrow> 'p \<Rightarrow> string set" where
  "charged_under ledger p = (case ledger p of None \<Rightarrow> {} | Some (requests, charges) \<Rightarrow> req_IdempotencyKey ` set charges)"

definition paid_ok :: "'p ledger_view \<Rightarrow> 'p world \<Rightarrow> bool" where
  "paid_ok ledger w \<longleftrightarrow>
     (\<forall>a \<in> set (payment_attempts (wdb w)). attempt_succeeded a \<longrightarrow> att_ID a \<in> charged_under ledger (wpsp w))"

text \<open>Charges are never taken back.\<close>

lemma grows_charged: "grows ledger u v \<Longrightarrow> charged_under ledger (wpsp u) \<subseteq> charged_under ledger (wpsp v)"
  by (auto simp: grows_def charged_under_def split: option.splits prod.splits)

text \<open>Steps that add no success but of charged attempts keep \<open>paid_ok\<close>.\<close>

lemma paid_ok_no_new:
  assumes "paid_ok ledger u" and "no_new {PaymentAttemptStatusSucceeded} C (wdb u) (wdb v)"
    and "grows ledger u v" and "C \<subseteq> charged_under ledger (wpsp v)"
  shows "paid_ok ledger v"
  unfolding paid_ok_def
proof (intro ballI impI)
  fix a assume a: "a \<in> set (payment_attempts (wdb v))" "attempt_succeeded a"
  with assms(2) consider "att_ID a \<in> C"
    | b where "b \<in> set (payment_attempts (wdb u))" "attempt_succeeded b" "att_ID b = att_ID a"
    unfolding no_new_def attempt_succeeded_def by auto
  then show "att_ID a \<in> charged_under ledger (wpsp v)"
    using assms(1,4) grows_charged [OF assms(3)] by cases (auto simp: paid_ok_def)
qed

lemma no_new_creates:
  assumes "creates rt b i key h now a d d'"
  shows "no_new {PaymentAttemptStatusSucceeded} {} d d'"
proof -
  from assms have "payment_attempts d' = payment_attempts d @ [a]" "attempt_pending a"
    unfolding creates_def by auto
  then show ?thesis by (auto simp: no_new_def attempt_pending_def)
qed

subsection \<open>Keeping it\<close>

abbreviation confirmed_I :: "runtime \<Rightarrow> 'p ledger_view \<Rightarrow> (string \<Rightarrow> bool) \<Rightarrow> 'p world \<Rightarrow> bool" where
  "confirmed_I rt ledger accepts \<equiv> \<lambda>w. (pay_I rt w \<and> ledger_ok rt ledger accepts w) \<and> paid_ok ledger w"

interpretation confirmed: payment_walk "confirmed_I rt ledger accepts" "ledger_R ledger" for rt ledger accepts
  by unfold_locales (auto simp: pay_R_def intro: evolves_trans grows_trans)

abbreviation keeps_paid ::
  "runtime \<Rightarrow> 'p ledger_view \<Rightarrow> (string \<Rightarrow> bool) \<Rightarrow> ('a \<Rightarrow> 'p world \<Rightarrow> bool) \<Rightarrow> ('p world, 'a) prog \<Rightarrow> 'p world \<Rightarrow> bool" where
  "keeps_paid rt ledger accepts Q p w \<equiv> guar (confirmed_I rt ledger accepts) (ledger_R ledger) Q p w"

text \<open>What is known of a program already, when its steps record no success but of charged attempts.\<close>

lemma paid_quiet:
  assumes "keeps_ledger rt ledger accepts Q p w" and "quiet_prog {PaymentAttemptStatusSucceeded} C ledger p"
    and C: "C \<subseteq> charged_under ledger (wpsp w)"
  shows "keeps_paid rt ledger accepts (\<lambda>a w. Q a (wdb w)) p w"
proof (rule ledgered.guar_stepwise_from [OF assms(1) [unfolded keeps_ledger_def] assms(2)])
  fix u v assume R: "ledger_R ledger w u" "ledger_R ledger u v" and p: "paid_ok ledger u"
    and q: "quiet {PaymentAttemptStatusSucceeded} C ledger u v"
  have "C \<subseteq> charged_under ledger (wpsp v)" using C R grows_charged by blast
  then show "paid_ok ledger v"
    using p q R by (auto simp: quiet_def quiet_db_def intro: paid_ok_no_new)
qed

lemma paid_create:
  assumes "uuid_ok (svc_rt S)"
  shows "keeps_paid (svc_rt S) ledger accepts (\<lambda>r w. on_success (held_for (svc_rt S) tok) r (wdb w))
    (createPendingAttempt S b i key (hashPayRequest (svc_rt S) i tok)) w"
proof (rule ledgered.guar_stepwise_from [OF ledger_create [OF assms, unfolded keeps_ledger_def]
        createPendingAttempt_creation [OF assms]])
  fix u v :: "'a world"
  assume i: "pay_I (svc_rt S) u \<and> ledger_ok (svc_rt S) ledger accepts u" and p: "paid_ok ledger u"
    and c: "creation (svc_rt S) b i key (hashPayRequest (svc_rt S) i tok) u v" and g: "ledger_R ledger u v"
  have "no_new {PaymentAttemptStatusSucceeded} {} (wdb u) (wdb v)"
    using c i by (auto simp: creation_def pay_I_def intro: no_new_creates)
  from paid_ok_no_new [OF p this] g show "paid_ok ledger v" by simp
qed

subsection \<open>The contract and its client\<close>

text \<open>A provider that answers with a success only when it has charged under the key of the request.\<close>

locale confirmed_contract = charge_contract psp moves ledger accepts
  for psp :: "'p charger" and moves :: "'p \<Rightarrow> 'p \<Rightarrow> bool" and ledger :: "'p ledger_view" and accepts :: "string \<Rightarrow> bool" +
  assumes confirmed: "ledger p = Some (rs, cs) \<Longrightarrow> psp_wait psp call p = (r, p') \<Longrightarrow> call < length rs \<Longrightarrow> rs ! call = req \<Longrightarrow>
      success r \<Longrightarrow> req_IdempotencyKey req \<noteq> [] \<Longrightarrow> req_IdempotencyKey req \<in> charged_under ledger p'"
begin

text \<open>What the answer says, for good.\<close>

definition told :: "string \<Rightarrow> PaymentAttempt \<Rightarrow> ChargeResponse result \<Rightarrow> 'p world \<Rightarrow> bool" where
  "told tok a r w \<longleftrightarrow> (refusal r \<longrightarrow> \<not> accepts tok) \<and> (success r \<longrightarrow> att_ID a \<in> charged_under ledger (wpsp w))"

lemma told_later: "told tok a r u \<Longrightarrow> grows ledger u v \<Longrightarrow> told tok a r v"
  using grows_charged [of ledger u v] by (auto simp: told_def)

lemma paid_ok_grows: "paid_ok ledger u \<Longrightarrow> wdb v = wdb u \<Longrightarrow> grows ledger u v \<Longrightarrow> paid_ok ledger v"
  by (rule paid_ok_no_new [where C = "{}"]) simp_all

lemma paid_charge:
  fixes w :: "'p world"
  assumes S: "svc_psp S = psp" and hash: "hash_ok (svc_rt S)" and h: "held_for (svc_rt S) tok a (wdb w)"
    and I: "confirmed_I (svc_rt S) ledger accepts w"
  shows "keeps_paid (svc_rt S) ledger accepts (told tok a) (psp_Charge S (charge_request a tok)) w"
proof (rule confirmed.walk_Charge [where B = "\<lambda>call. called ledger call (charge_request a tok)", OF I])
  show "keeps_paid (svc_rt S) ledger accepts
      (\<lambda>s w. case s of Inl r \<Rightarrow> told tok a r w | Inr call \<Rightarrow> called ledger call (charge_request a tok) w)
      (atom (psp_Send S (charge_request a tok))) w"
  proof (rule confirmed.guar_atom)
    fix u :: "'p world" assume u: "ledger_R ledger w u" "confirmed_I (svc_rt S) ledger accepts u"
    let ?s = "psp_Send S (charge_request a tok) u"
    have c: "?s = (fst ?s, snd ?s)" by simp
    from u(2) have i: "pay_inv (svc_rt S) (wdb u)" "ledger_ok (svc_rt S) ledger accepts u" by (simp_all add: pay_I_def)
    note st = send_step [OF S hash h conjunct1 [OF u(1)] i c]
    have "paid_ok ledger (snd ?s)" using u(2) st(1,3) by (blast intro: paid_ok_grows)
    moreover have "\<forall>x. ledger_R ledger (snd ?s) x \<longrightarrow> (case fst ?s of Inl r \<Rightarrow> told tok a r x
        | Inr call \<Rightarrow> called ledger call (charge_request a tok) x)"
      using st(4,5) called_grows [of ledger _ _ "snd ?s"] by (auto simp: told_def split: sum.split)
    ultimately show "confirmed_I (svc_rt S) ledger accepts (snd ?s) \<and> ledger_R ledger u (snd ?s)
        \<and> (\<forall>x. ledger_R ledger (snd ?s) x \<longrightarrow> confirmed_I (svc_rt S) ledger accepts x \<longrightarrow>
            (case fst ?s of Inl r \<Rightarrow> told tok a r x | Inr call \<Rightarrow> called ledger call (charge_request a tok) x))"
      using st(1-3) i by (simp add: pay_I_def pay_R_def)
  qed
  fix call and w' :: "'p world"
  assume w': "ledger_R ledger w w'" and b: "called ledger call (charge_request a tok) w'"
  show "keeps_paid (svc_rt S) ledger accepts (told tok a) (atom (psp_Wait S call)) w'"
  proof (rule confirmed.guar_atom)
    fix u :: "'p world" assume u: "ledger_R ledger w' u" "confirmed_I (svc_rt S) ledger accepts u"
    let ?s = "psp_Wait S call u"
    have c: "?s = (fst ?s, snd ?s)" by simp
    from u(2) have i: "pay_inv (svc_rt S) (wdb u)" "ledger_ok (svc_rt S) ledger accepts u" by (simp_all add: pay_I_def)
    have b: "called ledger call (charge_request a tok) u" using called_grows [OF b] u(1) by blast
    note st = wait_step [OF S hash b i c]
    from b obtain rs cs where l: "ledger (wpsp u) = Some (rs, cs)" "call < length rs" "rs ! call = charge_request a tok"
      by (auto simp: called_def)
    have "held a (wdb u)" using h w' u(1) by (auto simp: pay_R_def intro: held_evolves)
    then have "att_ID a \<noteq> []" using held_canonical(1) [OF i(1)] hash by (auto simp: hash_ok_def)
    with confirmed [OF l(1) st(5) l(2,3)] st(4) have t: "told tok a (fst ?s) (snd ?s)" by (simp add: told_def)
    have "paid_ok ledger (snd ?s)" using u(2) st(1,3) by (blast intro: paid_ok_grows)
    then show "confirmed_I (svc_rt S) ledger accepts (snd ?s) \<and> ledger_R ledger u (snd ?s)
        \<and> (\<forall>x. ledger_R ledger (snd ?s) x \<longrightarrow> confirmed_I (svc_rt S) ledger accepts x \<longrightarrow> told tok a (fst ?s) x)"
      using st(1-3) i told_later [OF t] by (simp add: pay_I_def pay_R_def)
  qed
qed (use told_later in blast)

lemma paid_chargeAndSettle:
  assumes S: "svc_psp S = psp" and hash: "hash_ok (svc_rt S)" and I: "confirmed_I (svc_rt S) ledger accepts w"
    and h: "held_for (svc_rt S) tok a (wdb w)"
  shows "keeps_paid (svc_rt S) ledger accepts (\<lambda>_ _. True) (chargeAndSettle S a tok) w"
proof (rule confirmed.walk_chargeAndSettle [OF I paid_charge [OF S hash h I]])
  fix r code ref w' assume w': "ledger_R ledger w w'" "confirmed_I (svc_rt S) ledger accepts w'"
    and A: "told tok a r w'"
  have h': "held_for (svc_rt S) tok a (wdb w')"
    using h w'(1) by (auto simp: pay_R_def intro: held_evolves bound_evolves)
  have can: "parse_uuid (svc_rt S) (att_ID a) = Some (att_ID a)"
    using held_canonical(1) h' w'(2) by (auto simp: pay_I_def)
  show "keeps_paid (svc_rt S) ledger accepts (\<lambda>_ _. True) (persistFailure S a code) w'" if "refusal r"
    by (rule confirmed.walk_any [OF paid_quiet [where C = "{}", OF ledger_persistFailure [OF h' _ hash] quiet_persistFailure]])
      (use A that w' in \<open>auto simp: told_def\<close>)
  show "keeps_paid (svc_rt S) ledger accepts (\<lambda>_ _. True) (persistSuccess S a ref) w'" if "success r"
    by (rule confirmed.walk_any [OF paid_quiet [where C = "{att_ID a}",
            OF ledger_quiet [OF keeps_persistSuccess quiet_persistSuccess] quiet_persistSuccess]]) (use A that h' can in \<open>auto simp: told_def\<close>)
qed

lemma paid_PayInvoice:
  assumes S: "svc_psp S = psp" and hash: "hash_ok (svc_rt S)" and rt: "uuid_ok (svc_rt S)"
    and I: "confirmed_I (svc_rt S) ledger accepts w"
  shows "keeps_paid (svc_rt S) ledger accepts (\<lambda>_ _. True) (PayInvoice S b i key tok) w"
proof (rule confirmed.walk_PayInvoice [OF I])
  fix w :: "'p world" assume w: "confirmed_I (svc_rt S) ledger accepts w"
  let ?H = "\<lambda>a w. held_for (svc_rt S) tok a (wdb w)" and ?K = "\<lambda>k w. k \<in> set (idempotency_keys (wdb w))"
  show "keeps_paid (svc_rt S) ledger accepts (when_ok ?K) (atom (exec_stmt (IdempotencyRepository_GetByKey (svc_rt S) b key))) w"
    unfolding when_ok_db [of "\<lambda>k d. k \<in> set (idempotency_keys d)"]
    by (rule paid_quiet [where C = "{}", OF ledger_GetByKey]) (auto intro: quieting)
  show "keeps_paid (svc_rt S) ledger accepts (when_ok ?H) (createPendingAttempt S b i key (hashPayRequest (svc_rt S) i tok)) w"
    unfolding when_ok_db [of "held_for (svc_rt S) tok"] by (rule paid_create [OF rt])
  show "keeps_paid (svc_rt S) ledger accepts (when_ok ?H) (atom (exec_stmt (PaymentAttemptRepository_GetByID (svc_rt S) x))) w"
    if "k \<in> set (idempotency_keys (wdb w))" "ik_RequestHash k = hashPayRequest (svc_rt S) i tok"
      "ik_InvoiceID k = i" "ik_PaymentAttemptID k = Some x" for k x
    unfolding when_ok_db [of "held_for (svc_rt S) tok"]
    by (rule paid_quiet [where C = "{}", OF ledger_found [OF _ that]]) (use w in \<open>auto intro: quieting\<close>)
  show "keeps_paid (svc_rt S) ledger accepts (\<lambda>_ _. True) (chargeAndSettle S a tok) w"
    if "held_for (svc_rt S) tok a (wdb w)" for a
    by (rule paid_chargeAndSettle [OF S hash w that])
qed

end

end
