(* ===== verification/Confirmed_Pool.thy ===== *)
theory Confirmed_Pool
  imports Charge_Confirmed
begin

text \<open>
  The server over a provider that keeps the extended contract and reports only what it did:
  a signed report of a success is about an attempt that has been charged when it arrives, and
  no report of a failure is signed. In every state it reaches, what is paid has been charged.
\<close>

subsection \<open>Honest reports\<close>

definition honest ::
  "'p Server \<Rightarrow> 'p ledger_view \<Rightarrow> 'p world \<Rightarrow> string \<Rightarrow> string \<Rightarrow> string \<Rightarrow> string \<Rightarrow> bool" where
  "honest V ledger w payload eventID ts sig \<longleftrightarrow>
     (\<forall>body. signed_report (paymentService V) payload eventID ts sig body \<longrightarrow> \<not> reports_failure body
        \<and> (reports_success body \<longrightarrow> named (srv_rt V) body \<subseteq> charged_under ledger (wpsp w)))"

definition honest_request :: "'p Server \<Rightarrow> 'p ledger_view \<Rightarrow> 'p world \<Rightarrow> Request \<Rightarrow> bool" where
  "honest_request V ledger w req = (case req of
     PostWebhooksPSP (Some payload) eventID ts sig \<Rightarrow> honest V ledger w payload eventID ts sig
   | _ \<Rightarrow> True)"

lemma honest_genuine: "honest_request V ledger w req \<Longrightarrow> genuine_request V req"
  by (auto simp: honest_request_def genuine_request_def honest_def genuine_def split: Request.splits option.splits)

subsection \<open>The routes\<close>

lemma quiet_honest:
  assumes rt: "uuid_ok (srv_rt V)" and h: "honest_request V ledger w req" and "\<And>h i body key. req \<noteq> PostPay h i body key"
  shows "quiet_prog {PaymentAttemptStatusSucceeded} (charged_under ledger (wpsp w)) ledger (route V req)"
proof (rule quiet_route [OF assms(3)])
  fix payload eventID ts sig assume "req = PostWebhooksPSP (Some payload) eventID ts sig"
  with h have "honest V ledger w payload eventID ts sig" by (simp add: honest_request_def)
  then show "quiet_prog {PaymentAttemptStatusSucceeded} (charged_under ledger (wpsp w)) ledger
      (ProcessPSPWebhook (paymentService V) payload eventID ts sig)"
    using rt by (intro quiet_ProcessPSPWebhook) (auto simp: honest_def)
qed

context confirmed_contract begin

lemma paid_route:
  assumes S: "svc_psp (paymentService V) = psp" and hash: "hash_ok (srv_rt V)" and rt: "uuid_ok (srv_rt V)"
    and I: "confirmed_I (srv_rt V) ledger accepts w" and h: "honest_request V ledger w req"
  shows "keeps_paid (srv_rt V) ledger accepts (\<lambda>_ _. True) (route V req) w"
proof (cases "\<exists>h i body key. req = PostPay h i body key")
  case False
  then have no_pay: "req \<noteq> PostPay h i body key" for h i body key by blast
  have "keeps_ledger (srv_rt V) ledger accepts (\<lambda>_ _. True) (route V req) w"
    by (rule ledger_route [OF S hash rt _ _ honest_genuine [OF h]]) (use I in simp_all)
  from paid_quiet [OF this quiet_honest [OF rt h no_pay] subset_refl] show ?thesis .
next
  case True
  then obtain a i body key where req: "req = PostPay a i body key" by blast
  have pay: "keeps_paid (srv_rt V) ledger accepts (\<lambda>_ _. True) (handle_PayInvoice (paymentService V) i body key ctx) w'"
    if w': "confirmed_I (srv_rt V) ledger accepts w'" for ctx w'
  proof -
    have p: "keeps_paid (srv_rt V) ledger accepts (\<lambda>_ _. True) (PayInvoice (paymentService V) b i key tok) w'" for b tok
      using paid_PayInvoice [OF S] hash rt w' by simp
    show ?thesis
      by (auto simp: handle_PayInvoice_def with_business_def respond_def split: option.split sum.split simp del: conj_assoc
          intro!: confirmed.walk_Done confirmed.guar_bind [OF p w'])
  qed
  have auth: "keeps_paid (srv_rt V) ledger accepts (\<lambda>_ _. True) (APIKeyAuth (srv_rt V) a) w"
    by (rule paid_quiet [where C = "{}", OF ledger_quiet [OF keeps_auth(1) quiet_auth(1)] quiet_auth(1)]) (use I in simp_all)
  have "keeps_paid (srv_rt V) ledger accepts (\<lambda>_ _. True)
      (guarded (APIKeyAuth (srv_rt V) a) (handle_PayInvoice (paymentService V) i body key)) w"
    unfolding guarded_def
    by (rule confirmed.guar_bind [OF auth I]) (auto split: sum.split simp del: conj_assoc intro!: confirmed.walk_Done pay)
  then show ?thesis by (simp only: req route_def Let_def Request.case)
qed

end

subsection \<open>The pool\<close>

inductive Honest :: "'p Server \<Rightarrow> 'p ledger_view \<Rightarrow> 'p world \<Rightarrow> ('p world, unit) prog \<Rightarrow> bool" for V ledger where
  honest_request: "honest_request V ledger w req \<Longrightarrow> Honest V ledger w (handler (route V req))"
| honest_touch: "Honest V ledger w (handler (touchLastUsed (srv_rt V) keyID))"
| honest_poll: "Honest V ledger w (handler (DispatcherRun (webhookDispatcher V) n))"

definition paid_I ::
  "'p Server \<Rightarrow> ('p \<Rightarrow> 'p \<Rightarrow> bool) \<Rightarrow> 'p ledger_view \<Rightarrow> (string \<Rightarrow> bool) \<Rightarrow> 'p world \<Rightarrow> bool" where
  "paid_I V moves ledger accepts w \<longleftrightarrow> confirmed_contract (svc_psp (paymentService V)) moves ledger accepts
     \<and> hash_ok (srv_rt V) \<and> uuid_ok (srv_rt V) \<and> merchants_apart ledger (srv_merchants V)
     \<and> confirmed_I (srv_rt V) ledger accepts w"

lemma honest_keeps:
  assumes "Honest V ledger w p" and i: "paid_I V moves ledger accepts w"
  shows "keeps_paid (srv_rt V) ledger accepts (\<lambda>_ _. True) p w"
proof -
  from i have c: "confirmed_contract (svc_psp (paymentService V)) moves ledger accepts" and rt: "hash_ok (srv_rt V)" "uuid_ok (srv_rt V)"
    and m: "merchants_apart ledger (wd_http (webhookDispatcher V))" and I: "confirmed_I (srv_rt V) ledger accepts w"
    by (auto simp: paid_I_def webhookDispatcher_def)
  from I have P: "pay_I (srv_rt V) w" by simp
  note h = confirmed.guar_handler [OF _ I]
  from assms(1) show ?thesis
  proof (cases rule: Honest.cases)
    case (honest_request req)
    then show ?thesis using confirmed_contract.paid_route [OF c refl rt I] by (auto simp del: conj_assoc intro: h)
  next
    case (honest_touch keyID)
    then show ?thesis
      using paid_quiet [where C = "{}", OF ledger_quiet [OF keeps_auth(3) [OF P] quiet_auth(3)] quiet_auth(3)]
      by (auto simp del: conj_assoc intro: h)
  next
    case (honest_poll n)
    then show ?thesis
      using paid_quiet [where C = "{}",
          OF ledger_quiet [OF keeps_DispatcherRun [OF P] quiet_DispatcherRun [OF m]] quiet_DispatcherRun [OF m]]
      by (auto simp del: conj_assoc intro: h)
  qed
qed

interpretation paid_pool: handler_pool "paid_I V moves ledger accepts" "ledger_R ledger" "Honest V ledger" "Surroundings moves ledger"
  for V moves ledger accepts
proof unfold_locales
  fix w p assume a: "Honest V ledger w p" and i: "paid_I V moves ledger accepts w"
  then have "paid_I V moves ledger accepts = confirmed_I (srv_rt V) ledger accepts"
    by (auto simp: paid_I_def fun_eq_iff)
  with honest_keeps [OF a i] show "guar (paid_I V moves ledger accepts) (ledger_R ledger) (\<lambda>_ _. True) p w" by simp
next
  fix w w' :: "'a world" assume s: "Surroundings moves ledger w w'" and i: "paid_I V moves ledger accepts w"
  then have c: "charge_contract (svc_psp (paymentService V)) moves ledger accepts" and rt: "hash_ok (srv_rt V)"
    and inv: "pay_inv (srv_rt V) (wdb w)" and L: "ledger_ok (srv_rt V) ledger accepts w" and p: "paid_ok ledger w"
    by (auto simp: paid_I_def pay_I_def confirmed_contract_def)
  note k = surroundings_keep [OF c rt inv L s]
  have "paid_ok ledger w'" by (rule paid_ok_no_new [OF p, of "{}"]) (use k in simp_all)
  with i k show "paid_I V moves ledger accepts w' \<and> ledger_R ledger w w'"
    by (auto simp: paid_I_def pay_I_def pay_R_def)
qed

subsection \<open>Exactly one charge for a paid invoice\<close>

lemma paid_ok_charged:
  assumes ok: "ledger_ok rt ledger accepts w" and inv: "pay_inv rt (wdb w)" and paid: "paid_ok ledger w"
    and l: "ledger (wpsp w) = Some (rs, cs)" and v: "v \<in> set (invoices (wdb w))" "inv_Status v = InvoiceStatusPaid"
  shows "\<exists>req. invoice_charges (inv_ID v) cs (wdb w) = [req] \<and> req_Amount req = inv_Amount v \<and> req_Currency req = inv_Currency v"
proof -
  from pay_invD(4) [OF inv] v obtain a where a: "a \<in> set (payment_attempts (wdb w))" "att_InvoiceID a = inv_ID v" "attempt_succeeded a"
    unfolding invoices_ok_def by blast
  with paid l obtain req where req: "req \<in> set cs" "req_IdempotencyKey req = att_ID a"
    by (auto simp: paid_ok_def charged_under_def)
  have in_c: "req \<in> set (invoice_charges (inv_ID v) cs (wdb w))"
    using req a by (auto simp: invoice_charges_def list_ex_iff)
  with ledger_ok_once [OF ok inv l, of "inv_ID v"] have "invoice_charges (inv_ID v) cs (wdb w) = [req]"
    by (cases "invoice_charges (inv_ID v) cs (wdb w)") auto
  moreover from ledger_ok_amounts [OF ok inv l req(1)] obtain b u where
    b: "b \<in> set (payment_attempts (wdb w))" "req_IdempotencyKey req = att_ID b" "att_InvoiceID b = inv_ID u"
    and u: "u \<in> set (invoices (wdb w))" "req_Amount req = inv_Amount u" "req_Currency req = inv_Currency u" by blast
  have "b = a" using attempt_unique [OF pay_invD(1) [OF inv] b(1) a(1)] b(2) req(2) by simp
  with invoice_unique [OF pay_invD(1) [OF inv] u(1) v(1)] b(3) a(2) have "u = v" by simp
  ultimately show ?thesis using u by blast
qed

end
