(* ===== verification/Mock_Transport.thy ===== *)
theory Mock_Transport
  imports Ledger_Pool Mock_PSP_Cards
begin

text \<open>
  The shipped provider behind the gateway's HTTP client, and the contract it keeps. The
  provider runs on its own: a request that was sent arrives later, more than once or never,
  the requests that arrived make their steps at any time and interleave as they like, and the
  client stops waiting at any time. So a charge may complete long after the client's timeout,
  and a retry under the same key may be in flight with the first request.
\<close>

subsection \<open>The provider and the network\<close>

text \<open>
  The timeout of the gateway's client (\<open>defaultTimeout\<close> of \<open>internal/psp/http_client.go\<close>): it
  gives up before a charge of the slow test card completes.
\<close>

definition defaultTimeout :: int where "defaultTimeout = 2 * second"

lemma slow_card_outlasts_client: "defaultTimeout < charge_delay ''tok_timeout''"
  by (simp add: defaultTimeout_def charge_delay_def second_def)

text \<open>A move of the provider: a request that was sent arrives, or one that arrived makes its next step.\<close>

datatype provider_move = Deliver nat | Advance nat

text \<open>
  The requests that arrived, each with its phase, beside the provider's shared state; the requests that
  were sent, by call, each with the place of its last arrival; and whatever else there is outside
  the gateway. \<open>pv_net\<close> says of the next waits of the client what the provider does meanwhile
  and, when the answer does not come, the error.
\<close>

record 'm provider =
  pv_mock :: mockPSP
  pv_threads :: "(ChargeRequest \<times> phase) list"
  pv_calls :: "(ChargeRequest \<times> nat option) list"
  pv_net :: "(provider_move list \<times> net_error option) list"
  pv_rest :: 'm

definition mock_move :: "runtime \<Rightarrow> provider_move \<Rightarrow> 'm provider \<Rightarrow> 'm provider" where
  "mock_move rt move pv =
     (case move of
        Deliver call \<Rightarrow>
          if call < length (pv_calls pv)
          then let req = fst (pv_calls pv ! call) in
            pv\<lparr>pv_threads := pv_threads pv @ [(req, fst (handleCharge True (Some req)))],
               pv_calls := (pv_calls pv)[call := (req, Some (length (pv_threads pv)))]\<rparr>
          else pv
      | Advance i \<Rightarrow>
          if i < length (pv_threads pv)
          then (case pv_threads pv ! i of (req, ph) \<Rightarrow>
            case advance rt req ph (pv_mock pv) of
              None \<Rightarrow> pv
            | Some (ph', s) \<Rightarrow> pv\<lparr>pv_threads := (pv_threads pv)[i := (req, ph')], pv_mock := s\<rparr>)
          else pv)"

definition mock_moves :: "runtime \<Rightarrow> 'm provider \<Rightarrow> 'm provider \<Rightarrow> bool" where
  "mock_moves rt pv pv' \<longleftrightarrow> (\<exists>move. pv' = mock_move rt move pv)"

text \<open>The end of a call: the answer if there is one, otherwise the client's deadline.\<close>

definition mock_answer :: "nat \<Rightarrow> 'm provider \<Rightarrow> http_outcome" where
  "mock_answer call pv =
     (if call < length (pv_calls pv)
      then case snd (pv_calls pv ! call) of
             None \<Rightarrow> NetError NetDeadline
           | Some i \<Rightarrow> (case snd (pv_threads pv ! i) of Answered code body \<Rightarrow> HTTPStatus code body
                        | _ \<Rightarrow> NetError NetDeadline)
      else NetError NetDeadline)"

definition mock_Send :: "HTTPRequest \<Rightarrow> 'm provider \<Rightarrow> nat \<times> 'm provider" where
  "mock_Send hr pv = (length (pv_calls pv), pv\<lparr>pv_calls := pv_calls pv @ [(hr_body hr, None)]\<rparr>)"

definition mock_Wait :: "runtime \<Rightarrow> nat \<Rightarrow> 'm provider \<Rightarrow> http_outcome \<times> 'm provider" where
  "mock_Wait rt call pv =
     (let (moves, lost) = (case pv_net pv of [] \<Rightarrow> ([], None) | x # _ \<Rightarrow> x);
          pv1 = fold (mock_move rt) moves (pv\<lparr>pv_net := tl (pv_net pv)\<rparr>)
      in (case lost of Some e \<Rightarrow> NetError e | None \<Rightarrow> mock_answer call pv1, pv1))"

definition mock_transport :: "runtime \<Rightarrow> 'm provider transport" where
  "mock_transport rt = \<lparr>url_error = (\<lambda>_. None), http_Send = mock_Send, http_Wait = mock_Wait rt\<rparr>"

text \<open>The requests that were sent, and the charges that were made.\<close>

definition mock_sent :: "'m provider \<Rightarrow> ChargeRequest list" where
  "mock_sent pv = map fst (pv_calls pv)"

definition mock_charges :: "'m provider \<Rightarrow> ChargeRequest list" where
  "mock_charges pv = map fst (mk_notified (pv_mock pv))"

subsection \<open>The provider's state\<close>

text \<open>
  The requests that arrived have taken the provider where it is (\<open>mock_reach\<close>), each of them was
  sent, and a call that arrived is the request at its place.
\<close>

definition calls_ok :: "'m provider \<Rightarrow> bool" where
  "calls_ok pv \<longleftrightarrow> fst ` set (pv_threads pv) \<subseteq> set (mock_sent pv)
     \<and> (\<forall>call i. call < length (pv_calls pv) \<longrightarrow> snd (pv_calls pv ! call) = Some i \<longrightarrow>
          i < length (pv_threads pv) \<and> fst (pv_threads pv ! i) = fst (pv_calls pv ! call))"

definition pv_ok :: "runtime \<Rightarrow> 'm provider \<Rightarrow> bool" where
  "pv_ok rt pv \<longleftrightarrow> mock_reach rt (pv_threads pv, pv_mock pv) \<and> calls_ok pv"

definition mock_ledger :: "runtime \<Rightarrow> 'm provider ledger_view" where
  "mock_ledger rt pv = (if pv_ok rt pv then Some (mock_sent pv, mock_charges pv) else None)"

lemma mock_ledger_Some: "mock_ledger rt pv = Some (rs, cs) \<longleftrightarrow> pv_ok rt pv \<and> rs = mock_sent pv \<and> cs = mock_charges pv"
  by (auto simp: mock_ledger_def)

lemma pv_ok_frame [simp]:
  "pv_ok rt (pv\<lparr>pv_net := f\<rparr>) = pv_ok rt pv" "pv_ok rt (pv\<lparr>pv_rest := m\<rparr>) = pv_ok rt pv"
  "mock_sent (pv\<lparr>pv_net := f\<rparr>) = mock_sent pv" "mock_sent (pv\<lparr>pv_rest := m\<rparr>) = mock_sent pv"
  "mock_charges (pv\<lparr>pv_net := f\<rparr>) = mock_charges pv" "mock_charges (pv\<lparr>pv_rest := m\<rparr>) = mock_charges pv"
  by (simp_all add: pv_ok_def calls_ok_def mock_sent_def mock_charges_def)

lemma pv_ok_init: "pv_mock pv = empty_mock \<Longrightarrow> pv_threads pv = [] \<Longrightarrow> pv_calls pv = [] \<Longrightarrow> pv_ok rt pv"
  by (simp add: pv_ok_def calls_ok_def mock_init)

subsection \<open>Moves\<close>

lemma update_same_request:
  "i < length ts \<Longrightarrow> ts ! i = (req, ph) \<Longrightarrow> map fst (ts[i := (req, ph')]) = map fst ts"
  by (metis fst_conv list_update_id map_update)

text \<open>A step adds to the charges its own request, when it charges, on an accepted card.\<close>

lemma advance_charges:
  assumes "advance rt req ph s = Some (ph', s')"
  shows "mk_notified s' = mk_notified s
    \<or> (\<exists>x. mk_notified s' = mk_notified s @ [(req, x)] \<and> mock_accepts (req_CardToken req))"
proof (cases ph)
  case (Charging entry)
  with assms have "completeCharge rt req entry s = (ph', s')" by simp
  then show ?thesis
    by (auto simp: completeCharge_def finish_def failUncached_def Let_def mock_accepts_def succeeded_response_def
        failed_response_def split: if_splits option.splits)
qed (use assms in \<open>auto simp: getOrStart_def Let_def split: if_splits option.splits\<close>)

lemma mock_move_ok:
  assumes ok: "pv_ok rt pv"
  shows "pv_ok rt (mock_move rt move pv) \<and> mock_sent (mock_move rt move pv) = mock_sent pv
    \<and> (\<exists>new. mock_charges (mock_move rt move pv) = mock_charges pv @ new
        \<and> (\<forall>req \<in> set new. req \<in> set (mock_sent pv) \<and> mock_accepts (req_CardToken req)))"
proof (cases move)
  case (Deliver call)
  let ?req = "fst (pv_calls pv ! call)" and ?n = "length (pv_threads pv)"
  show ?thesis
  proof (cases "call < length (pv_calls pv)")
    case True
    let ?pv = "pv\<lparr>pv_threads := pv_threads pv @ [(?req, Received)], pv_calls := (pv_calls pv)[call := (?req, Some ?n)]\<rparr>"
    have m: "mock_move rt move pv = ?pv" using True Deliver by (simp add: mock_move_def Let_def handleCharge_def)
    have sent: "mock_sent ?pv = mock_sent pv"
      using True by (simp add: mock_sent_def map_update) (metis list_update_id nth_map)
    have "mock_reach rt (pv_threads pv @ [(?req, Received)], pv_mock pv)"
      using ok by (auto simp: pv_ok_def intro: mock_more arrive)
    moreover have "?req \<in> set (mock_sent pv)" using True by (auto simp: mock_sent_def)
    ultimately have "pv_ok rt ?pv"
      using ok sent True by (auto simp: pv_ok_def calls_ok_def nth_append nth_list_update less_Suc_eq)
    with sent show ?thesis unfolding m by (simp add: mock_charges_def)
  qed (use Deliver ok in \<open>simp add: mock_move_def\<close>)
next
  case (Advance i)
  show ?thesis
  proof (cases "i < length (pv_threads pv) \<and> advance rt (fst (pv_threads pv ! i)) (snd (pv_threads pv ! i)) (pv_mock pv) \<noteq> None")
    case True
    obtain req ph where t: "pv_threads pv ! i = (req, ph)" by (cases "pv_threads pv ! i")
    from True t obtain ph' s where a: "advance rt req ph (pv_mock pv) = Some (ph', s)" by auto
    let ?pv = "pv\<lparr>pv_threads := (pv_threads pv)[i := (req, ph')], pv_mock := s\<rparr>"
    have m: "mock_move rt move pv = ?pv" using True Advance t a by (simp add: mock_move_def)
    have "mock_reach rt ((pv_threads pv)[i := (req, ph')], s)"
      using ok True t a by (auto simp: pv_ok_def intro: mock_more mock_step.step)
    moreover have f: "map fst ((pv_threads pv)[i := (req, ph')]) = map fst (pv_threads pv)"
      using True t by (simp add: update_same_request)
    then have "fst ` set ((pv_threads pv)[i := (req, ph')]) = fst ` set (pv_threads pv)" by (metis set_map)
    moreover have "fst ((pv_threads pv)[i := (req, ph')] ! j) = fst (pv_threads pv ! j)" if "j < length (pv_threads pv)" for j
      using f that by (metis length_list_update nth_map)
    ultimately have "pv_ok rt ?pv" using ok by (auto simp: pv_ok_def calls_ok_def mock_sent_def)
    moreover have "req \<in> set (mock_sent pv)"
      using ok True t by (auto simp: pv_ok_def calls_ok_def) (metis fst_conv image_eqI nth_mem subsetD)
    moreover have "mock_sent ?pv = mock_sent pv" by (simp add: mock_sent_def)
    moreover have "mock_charges ?pv = mock_charges pv
        \<or> (mock_charges ?pv = mock_charges pv @ [req] \<and> mock_accepts (req_CardToken req))"
      using advance_charges [OF a] by (auto simp: mock_charges_def)
    ultimately show ?thesis unfolding m by auto
  qed (use Advance ok in \<open>auto simp: mock_move_def split: prod.splits option.splits\<close>)
qed

lemma mock_moves_ok:
  assumes "pv_ok rt pv"
  shows "pv_ok rt (fold (mock_move rt) moves pv) \<and> mock_sent (fold (mock_move rt) moves pv) = mock_sent pv
    \<and> (\<exists>new. mock_charges (fold (mock_move rt) moves pv) = mock_charges pv @ new
        \<and> (\<forall>req \<in> set new. req \<in> set (mock_sent pv) \<and> mock_accepts (req_CardToken req)))"
  using assms
proof (induction moves arbitrary: pv)
  case (Cons m moves)
  from mock_move_ok [OF Cons.prems, of m] obtain new where 1: "pv_ok rt (mock_move rt m pv)"
    "mock_sent (mock_move rt m pv) = mock_sent pv" "mock_charges (mock_move rt m pv) = mock_charges pv @ new"
    "\<forall>req \<in> set new. req \<in> set (mock_sent pv) \<and> mock_accepts (req_CardToken req)" by blast
  from Cons.IH [OF 1(1)] 1(2,3,4) show ?case by fastforce
qed simp

lemma mock_more_charges:
  assumes "pv_ok rt pv" and "mock_charges pv = cs @ new"
    and "\<forall>req \<in> set new. req \<in> set rs \<and> mock_accepts (req_CardToken req)"
  shows "charges_more mock_accepts rs cs (mock_charges pv)"
proof -
  from assms(1) mock_reach_inv obtain kf where "mock_inv kf (pv_threads pv, pv_mock pv)" unfolding pv_ok_def by blast
  then have "distinct (charged_keys (pv_mock pv))" by (simp add: mock_inv_def charges_ok_def)
  then have "distinct (filter (\<lambda>k. k \<noteq> []) (map req_IdempotencyKey (mock_charges pv)))"
    by (simp add: charged_keys_def mock_charges_def)
  with assms(2,3) show ?thesis unfolding charges_more_def by blast
qed

subsection \<open>Answers\<close>

lemma mock_answer_thread:
  assumes "pv_ok rt pv" and "mock_answer call pv = HTTPStatus code body"
  shows "(mock_sent pv ! call, Answered code body) \<in> set (pv_threads pv)"
proof -
  from assms(2) obtain i where i: "call < length (pv_calls pv)" "snd (pv_calls pv ! call) = Some i"
    "snd (pv_threads pv ! i) = Answered code body"
    by (auto simp: mock_answer_def split: if_splits option.splits phase.splits)
  moreover from this assms(1) have "i < length (pv_threads pv)" "fst (pv_threads pv ! i) = fst (pv_calls pv ! call)"
    by (auto simp: pv_ok_def calls_ok_def)
  ultimately show ?thesis by (auto simp: mock_sent_def in_set_conv_nth prod_eq_iff)
qed

lemma mock_client_send:
  "psp_send (HTTPClient_Charge (mock_transport rt) baseURL) req pv =
     (Inr (length (pv_calls pv)), pv\<lparr>pv_calls := pv_calls pv @ [(req, None)]\<rparr>)"
  by (simp add: HTTPClient_Charge_def mock_transport_def mock_Send_def charge_http_request_def)

lemma mock_client_wait:
  assumes "psp_wait (HTTPClient_Charge (mock_transport rt) baseURL) call pv = (r, pv')" and "pv_ok rt pv"
  shows "pv_ok rt pv'" and "mock_sent pv' = mock_sent pv"
    and "charges_more mock_accepts (mock_sent pv) (mock_charges pv) (mock_charges pv')"
    and "(\<exists>e. r = charge_result (NetError e)) \<or> r = charge_result (mock_answer call pv')"
proof -
  obtain moves lost where ml: "(case pv_net pv of [] \<Rightarrow> ([], None) | x # _ \<Rightarrow> x) = (moves, lost)" by (metis surj_pair)
  have pv': "pv' = fold (mock_move rt) moves (pv\<lparr>pv_net := tl (pv_net pv)\<rparr>)"
    and r: "r = charge_result (case lost of Some e \<Rightarrow> NetError e | None \<Rightarrow> mock_answer call pv')"
    using assms(1) by (auto simp: HTTPClient_Charge_def mock_transport_def mock_Wait_def ml Let_def split: prod.splits)
  from mock_moves_ok [of rt "pv\<lparr>pv_net := tl (pv_net pv)\<rparr>" moves] assms(2) obtain new where
    "pv_ok rt pv'" "mock_sent pv' = mock_sent pv" "mock_charges pv' = mock_charges pv @ new"
    "\<forall>req \<in> set new. req \<in> set (mock_sent pv) \<and> mock_accepts (req_CardToken req)" by (auto simp: pv')
  with mock_more_charges [of rt pv' "mock_charges pv" new] show "pv_ok rt pv'" "mock_sent pv' = mock_sent pv"
    "charges_more mock_accepts (mock_sent pv) (mock_charges pv) (mock_charges pv')" by auto
  from r show "(\<exists>e. r = charge_result (NetError e)) \<or> r = charge_result (mock_answer call pv')" by (cases lost) auto
qed

lemma charge_result_error: "\<not> refusal (charge_result (NetError e))" "\<not> success (charge_result (NetError e))"
  by (simp_all add: charge_result_def refusal_def success_def IsUnknownOutcome_def)

text \<open>What the client takes for a refusal and for a success.\<close>

lemma charge_result_refusal:
  assumes "refusal (charge_result outcome)"
  shows "\<exists>code body. outcome = HTTPStatus code body \<and> (400 \<le> code \<or> (\<exists>x. body = Some x \<and> resp_Status x \<noteq> ''succeeded''))"
  using assms by (auto simp: charge_result_def refusal_def IsUnknownOutcome_def split: http_outcome.splits option.splits if_splits)

lemma charge_result_success:
  assumes "success (charge_result outcome)"
  shows "\<exists>code x. outcome = HTTPStatus code (Some x) \<and> resp_Status x = ''succeeded''"
  using assms by (auto simp: charge_result_def success_def split: http_outcome.splits option.splits if_splits)

text \<open>The gateway's client over this network and this provider.\<close>

interpretation mock: charge_contract "HTTPClient_Charge (mock_transport rt) baseURL" "mock_moves rt" "mock_ledger rt" mock_accepts
  for rt :: runtime and baseURL :: string
proof unfold_locales
  fix pv pv' :: "'a provider" and rs cs req call r
  assume l: "mock_ledger rt pv = Some (rs, cs)"
  then have ok: "pv_ok rt pv" and rs: "rs = mock_sent pv" and cs: "cs = mock_charges pv" by (auto simp: mock_ledger_Some)
  show "call = length rs \<and> mock_ledger rt pv' = Some (rs @ [req], cs)"
    if "psp_send (HTTPClient_Charge (mock_transport rt) baseURL) req pv = (Inr call, pv')"
  proof -
    let ?pv = "pv\<lparr>pv_calls := pv_calls pv @ [(req, None)]\<rparr>"
    have s: "call = length rs" "pv' = ?pv" using that by (auto simp: mock_client_send rs mock_sent_def)
    have sent: "mock_sent ?pv = mock_sent pv @ [req]" by (simp add: mock_sent_def)
    have "calls_ok ?pv"
      using ok unfolding pv_ok_def calls_ok_def sent by (auto simp: nth_append less_Suc_eq)
    with ok sent show ?thesis by (simp add: s mock_ledger_Some pv_ok_def rs cs mock_charges_def)
  qed
  show "mock_ledger rt pv' = Some (rs, cs) \<and> \<not> success r \<and> (refusal r \<longrightarrow> \<not> mock_accepts (req_CardToken req))"
    if "psp_send (HTTPClient_Charge (mock_transport rt) baseURL) req pv = (Inl r, pv')"
    using that by (simp add: mock_client_send)
  show "\<exists>cs'. mock_ledger rt pv' = Some (rs, cs') \<and> charges_more mock_accepts rs cs cs'" if "mock_moves rt pv pv'"
  proof -
    from that obtain m where m: "pv' = mock_move rt m pv" by (auto simp: mock_moves_def)
    from mock_move_ok [OF ok, of m] mock_more_charges [of rt pv' cs _ rs] show ?thesis
      by (auto simp: m mock_ledger_Some rs cs)
  qed
  assume w: "psp_wait (HTTPClient_Charge (mock_transport rt) baseURL) call pv = (r, pv')"
  note wait = mock_client_wait [OF w ok]
  show "\<exists>cs'. mock_ledger rt pv' = Some (rs, cs') \<and> charges_more mock_accepts rs cs cs'"
    using wait by (auto simp: mock_ledger_Some rs cs)
  assume n: "call < length rs" "rs ! call = req" and ref: "refusal r"
    and same: "\<forall>q \<in> set rs. req_IdempotencyKey q = req_IdempotencyKey req \<longrightarrow> req_CardToken q = req_CardToken req"
  from wait(4) ref have "r = charge_result (mock_answer call pv')" by (auto simp: charge_result_error)
  with charge_result_refusal ref obtain code body where a: "mock_answer call pv' = HTTPStatus code body"
    "400 \<le> code \<or> (\<exists>x. body = Some x \<and> resp_Status x \<noteq> ''succeeded'')" by blast
  from mock_answer_thread [OF wait(1) a(1)] n have "(req, Answered code body) \<in> set (pv_threads pv')"
    by (simp add: wait(2) rs)
  with wait(1) mock_answer_deserved have "deserved (pv_threads pv') (charge_key req) code body"
    unfolding pv_ok_def by blast
  then obtain q where q: "q \<in> fst ` set (pv_threads pv')" "charge_key q = charge_key req" "fits code body q"
    unfolding deserved_def by blast
  then have "q \<in> set rs" using wait(1,2) by (auto simp: pv_ok_def calls_ok_def rs)
  with q same a(2) show "\<not> mock_accepts (req_CardToken req)" by (auto simp: fits_def split: if_splits)
qed

end
