(* ===== verification/No_Double_Charge.thy ===== *)
theory No_Double_Charge
  imports Mock_Transport Demo
begin

text \<open>
  The two programs of the repository together: however requests, retries, lost statements, late
  charges and lost answers interleave, the provider charges an invoice at most once.
\<close>

text \<open>A provider that has just started, and its ledger.\<close>

definition fresh_provider :: "'m provider \<Rightarrow> bool" where
  "fresh_provider pv \<longleftrightarrow> pv_mock pv = empty_mock \<and> pv_threads pv = [] \<and> pv_calls pv = []"

lemma mock_ledger_start:
  assumes "wdb w = empty_db" and "fresh_provider (wpsp w)"
  shows "ledger_ok rt (mock_ledger rt') mock_accepts w"
proof -
  have "mock_ledger rt' (wpsp w) = Some ([], [])"
    using assms(2) by (simp add: fresh_provider_def mock_ledger_Some pv_ok_init mock_sent_def mock_charges_def)
      (simp add: empty_mock_def)
  then show ?thesis by (intro ledger_okI [of _ _ "[]" "[]"]) (simp_all add: assms(1) empty_db_def)
qed

lemma ledger_ok_mock:
  assumes "ledger_ok rt (mock_ledger rt') accepts w"
  shows "mock_ledger rt' (wpsp w) = Some (mock_sent (wpsp w), mock_charges (wpsp w))"
  using assms by (auto elim!: ledger_okE simp: mock_ledger_Some)

text \<open>The gateway's client over the shipped provider, at whatever address.\<close>

lemma mock_client:
  "srv_transport V = mock_transport rt \<Longrightarrow> svc_psp (paymentService V) =
     HTTPClient_Charge (mock_transport rt) (env_or (srv_PSP_BASE_URL V) ''http://localhost:8081'')"
  by (simp add: paymentService_def)

text \<open>
  C1. No double charge. Let the server run over the shipped provider, from an empty database
  and a fresh provider; let requests arrive at any time, with any key and card, and their handlers
  interleave between their statements, between the request to the provider and its answer, stop
  anywhere, and lose statements. Let the provider work at any time: a charge request arrives when it
  may, several times or never, the requests at the provider interleave step by step, retries under
  the same key included, and charges complete long after the client stopped waiting. In every state that is reached, the provider has made at most one
  charge for an invoice, every charge is for an attempt of an invoice, over exactly its amount
  and currency, and no attempt that is recorded as failed was charged. The hash is taken to be
  free of collisions, and failure reports signed with the shared secret to be the provider's,
  which sends none.
\<close>

theorem no_double_charge:
  assumes "uuid_ok (srv_rt V)" and "hash_ok (srv_rt V)" and "srv_transport V = mock_transport rt"
    and "merchants_apart (mock_ledger rt) (srv_merchants V)"
    and "wdb w0 = empty_db" and "fresh_provider (wpsp w0)"
    and "pool_reach (Genuine V) (Surroundings (mock_moves rt) (mock_ledger rt)) ([], w0) (ps, w)"
  shows "length (invoice_charges i (mock_charges (wpsp w)) (wdb w)) \<le> 1
    \<and> (\<forall>req \<in> set (mock_charges (wpsp w)). \<exists>a \<in> set (payment_attempts (wdb w)). \<exists>v \<in> set (invoices (wdb w)).
          req_IdempotencyKey req = att_ID a \<and> att_InvoiceID a = inv_ID v
          \<and> req_Amount req = inv_Amount v \<and> req_Currency req = inv_Currency v)
    \<and> (\<forall>a \<in> set (payment_attempts (wdb w)). att_Status a = PaymentAttemptStatusFailed \<longrightarrow>
          att_ID a \<notin> req_IdempotencyKey ` set (mock_charges (wpsp w)))"
proof -
  note psp = mock_client [OF assms(3)]
  note start = mock_ledger_start [OF assms(5,6)]
  then have "ledger_I V (mock_moves rt) (mock_ledger rt) mock_accepts w0"
    using assms(1,2,4,5) mock.charge_contract_axioms by (simp add: ledger_I_def psp pay_I_def pay_inv_empty)
  then have "ledger_I V (mock_moves rt) (mock_ledger rt) mock_accepts w"
    by (rule ledger_pool.reachable_invariant(1) [OF assms(7)])
  then have ok: "ledger_ok (srv_rt V) (mock_ledger rt) mock_accepts w" and inv: "pay_inv (srv_rt V) (wdb w)"
    by (simp_all add: ledger_I_def pay_I_def)
  note l = ledger_ok_mock [OF ok]
  show ?thesis
    using ledger_ok_once [OF ok inv l] ledger_ok_amounts [OF ok inv l] ledger_ok_failed [OF ok inv l]
    by (simp add: attempt_failed_def)
qed

text \<open>
  An example: a payment with the slow card. The client stops waiting before its request has even
  arrived, and the attempt stays pending. The retry under the same key sends a second request;
  while the client waits for it the first one arrives and starts the charge, the second one arrives and
  waits for the first, the charge completes, and both are answered.
\<close>

definition joint_rt :: runtime where
  "joint_rt = demo_rt\<lparr>parse_uuid := (\<lambda>s. if CHR 0x0A \<in> set s then None else demo_parse s)\<rparr>"

definition joint_server :: "nat provider Server" where
  "joint_server = \<lparr>srv_rt = joint_rt, srv_PSP_BASE_URL = [], srv_PSP_WEBHOOK_SECRET = [],
     srv_transport = mock_transport joint_rt,
     srv_merchants = \<lparr>mch_new_request_error = (\<lambda>_. None), mch_Do = (\<lambda>req p. (Inr 200, p\<lparr>pv_rest := Suc (pv_rest p)\<rparr>))\<rparr>,
     srv_email_ok = (\<lambda>_. True)\<rparr>"

definition overlapping_calls :: "(provider_move list \<times> net_error option) list" where
  "overlapping_calls =
     [([], None), ([Deliver 0, Advance 0, Deliver 1, Advance 1, Advance 0, Advance 1], None)]"

definition joint_start :: "nat provider world" where
  "joint_start = \<lparr>wdb = empty_db, wfates = [], wclock = 0, wticks = [], wuuids = 0, wrands = 0,
     wpsp = \<lparr>pv_mock = empty_mock, pv_threads = [], pv_calls = [], pv_net = overlapping_calls, pv_rest = 0\<rparr>\<rparr>"

definition joint_end :: "nat provider world" where
  "joint_end = snd (serve joint_server
     (demo_setup @ [demo_pay ''tok_timeout'' ''k1'', demo_pay ''tok_timeout'' ''k1'']) joint_start)"

lemma joint_server_ok:
  "uuid_ok (srv_rt joint_server)" "hash_ok (srv_rt joint_server)"
  "merchants_apart (mock_ledger joint_rt) (srv_merchants joint_server)"
  "srv_transport joint_server = mock_transport joint_rt"
  by (auto simp: uuid_ok_def hash_ok_def merchants_apart_def joint_server_def joint_rt_def demo_parse_def mock_ledger_def
      split: list.splits if_splits intro: injI)

lemma joint_start_ok: "wdb joint_start = empty_db" "fresh_provider (wpsp joint_start)"
  by (simp_all add: joint_start_def fresh_provider_def)

lemma joint_end_values:
  "map req_IdempotencyKey (mock_charges (wpsp joint_end)) = [''u4'']" "length (mock_sent (wpsp joint_end)) = 2"
  "map att_Status (payment_attempts (wdb joint_end)) = [PaymentAttemptStatusSucceeded]"
  by code_simp+

theorem no_double_charge_witness:
  "length (invoice_charges ''u3'' (mock_charges (wpsp joint_end)) (wdb joint_end)) \<le> 1
    \<and> length (mock_sent (wpsp joint_end)) = 2 \<and> length (mock_charges (wpsp joint_end)) = 1
    \<and> map att_Status (payment_attempts (wdb joint_end)) = [PaymentAttemptStatusSucceeded]"
proof -
  have "\<forall>req \<in> set (demo_setup @ [demo_pay ''tok_timeout'' ''k1'', demo_pay ''tok_timeout'' ''k1'']).
      genuine_request joint_server req"
    by (simp add: demo_setup_def demo_pay_def genuine_request_def)
  from genuine_serve_reach [OF this] obtain ps where
    r: "pool_reach (Genuine joint_server) (Surroundings (mock_moves joint_rt) (mock_ledger joint_rt)) ([], joint_start) (ps, joint_end)"
    unfolding joint_end_def by blast
  have "length (invoice_charges ''u3'' (mock_charges (wpsp joint_end)) (wdb joint_end)) \<le> 1"
    using no_double_charge [OF joint_server_ok(1,2,4,3) joint_start_ok r] by blast
  moreover have "length (mock_charges (wpsp joint_end)) = 1" using arg_cong [OF joint_end_values(1), of length] by simp
  ultimately show ?thesis by (simp add: joint_end_values)
qed

end
