(* ===== verification/Paid_Means_Charged.thy ===== *)
theory Paid_Means_Charged
  imports Confirmed_Pool No_Double_Charge
begin

text \<open>
  The shipped provider keeps the extended contract, and what follows for the two programs
  together: an invoice that the gateway shows as paid was charged, once and for its amount.
\<close>

interpretation mock_confirmed: confirmed_contract "HTTPClient_Charge (mock_transport rt) baseURL" "mock_moves rt" "mock_ledger rt" mock_accepts
  for rt :: runtime and baseURL :: string
proof unfold_locales
  fix pv pv' :: "'a provider" and rs cs req call r
  assume l: "mock_ledger rt pv = Some (rs, cs)"
    and w: "psp_wait (HTTPClient_Charge (mock_transport rt) baseURL) call pv = (r, pv')"
    and n: "call < length rs" "rs ! call = req" and s: "success r" and key: "req_IdempotencyKey req \<noteq> []"
  from l have "pv_ok rt pv" and rs: "rs = mock_sent pv" by (simp_all add: mock_ledger_Some)
  note wait = mock_client_wait [OF w this(1)]
  from wait(4) s have "r = charge_result (mock_answer call pv')" by (auto simp: charge_result_error)
  with charge_result_success s obtain code x where a: "mock_answer call pv' = HTTPStatus code (Some x)"
    "resp_Status x = ''succeeded''" by blast
  from mock_answer_thread [OF wait(1) a(1)] n have "(req, Answered code (Some x)) \<in> set (pv_threads pv')"
    by (simp add: wait(2) rs)
  moreover from wait(1) mock_reach_inv obtain kf where "charges_ok kf (pv_threads pv', pv_mock pv')"
    unfolding pv_ok_def mock_inv_def by blast
  ultimately obtain q where "(q, x) \<in> set (mk_notified (pv_mock pv'))" "charge_key q = req_IdempotencyKey req"
    using charged_answer a(2) key by blast
  then have "q \<in> set (mock_charges pv')" "req_IdempotencyKey q = req_IdempotencyKey req"
    by (force simp: mock_charges_def)+
  then have "req_IdempotencyKey req \<in> req_IdempotencyKey ` set (mock_charges pv')" by (metis imageI)
  with wait(1) show "req_IdempotencyKey req \<in> charged_under (mock_ledger rt) pv'"
    by (simp add: charged_under_def mock_ledger_def)
qed

text \<open>The states that are reached, over the shipped provider.\<close>

lemma paid_reach:
  assumes "uuid_ok (srv_rt V)" and "hash_ok (srv_rt V)" and "srv_transport V = mock_transport rt"
    and "merchants_apart (mock_ledger rt) (srv_merchants V)"
    and "wdb w0 = empty_db" and "fresh_provider (wpsp w0)"
    and "pool_reach (Honest V (mock_ledger rt)) (Surroundings (mock_moves rt) (mock_ledger rt)) ([], w0) (ps, w)"
  shows "ledger_ok (srv_rt V) (mock_ledger rt) mock_accepts w" and "pay_inv (srv_rt V) (wdb w)" and "paid_ok (mock_ledger rt) w"
proof -
  note psp = mock_client [OF assms(3)]
  have "ledger_ok (srv_rt V) (mock_ledger rt) mock_accepts w0" by (rule mock_ledger_start [OF assms(5,6)])
  then have "paid_I V (mock_moves rt) (mock_ledger rt) mock_accepts w0"
    using assms(1,2,4,5) mock_confirmed.confirmed_contract_axioms
    by (simp add: paid_I_def psp pay_I_def pay_inv_empty paid_ok_def) (simp add: empty_db_def)
  then have "paid_I V (mock_moves rt) (mock_ledger rt) mock_accepts w"
    by (rule paid_pool.reachable_invariant(1) [OF assms(7)])
  then show "ledger_ok (srv_rt V) (mock_ledger rt) mock_accepts w" and "pay_inv (srv_rt V) (wdb w)" and "paid_ok (mock_ledger rt) w"
    by (simp_all add: paid_I_def pay_I_def)
qed

text \<open>
  C2. Paid means charged. Let the server run over the shipped provider, from an empty database and a
  fresh provider, with every request, interleaving and lost statement, and with the provider at work at any time:
  requests that arrive late, several times or never, retries in flight together, charges that
  complete after the client stopped waiting, answers that are lost. Let the reports
  signed with the shared secret be the provider's: a success is reported only of an attempt that it has
  charged, a failure never. In every state that is reached, an invoice that is PAID was charged exactly
  once, for its amount and in its currency.
\<close>

theorem paid_means_charged:
  assumes "uuid_ok (srv_rt V)" and "hash_ok (srv_rt V)" and "srv_transport V = mock_transport rt"
    and "merchants_apart (mock_ledger rt) (srv_merchants V)"
    and "wdb w0 = empty_db" and "fresh_provider (wpsp w0)"
    and "pool_reach (Honest V (mock_ledger rt)) (Surroundings (mock_moves rt) (mock_ledger rt)) ([], w0) (ps, w)"
    and "v \<in> set (invoices (wdb w))" and "inv_Status v = InvoiceStatusPaid"
  shows "\<exists>req. invoice_charges (inv_ID v) (mock_charges (wpsp w)) (wdb w) = [req]
    \<and> req_Amount req = inv_Amount v \<and> req_Currency req = inv_Currency v"
proof -
  note ok = paid_reach [OF assms(1-7)]
  from paid_ok_charged [OF ok(1-3) ledger_ok_mock [OF ok(1)] assms(8,9)] show ?thesis .
qed

text \<open>
  An example: a payment with the slow card whose client stops waiting. Later the provider receives the request and completes
  the charge, and reports it: the report settles the attempt, and the invoice was charged once.
\<close>

lemma honest_reach:
  assumes "pool_reach (Honest V ledger) (Surroundings moves ledger) ([], w0) (ps, w)" and "honest_request V ledger w req"
  shows "\<exists>ps'. pool_reach (Honest V ledger) (Surroundings moves ledger) ([], w0) (ps', snd (run (route V req) w))"
proof -
  let ?h = "handler (route V req)"
  have "pool_reach (Honest V ledger) (Surroundings moves ledger) (ps, w) (ps @ [?h], w)"
    by (rule pool_more [OF pool_refl]) (rule arrival, rule Honest.honest_request, rule assms(2))
  moreover have "pool_reach (Honest V ledger) (Surroundings moves ledger) (ps @ [?h], w)
      ((ps @ [?h])[length ps := Done (fst (run ?h w))], snd (run ?h w))"
    by (rule pool_reach_run) simp_all
  ultimately show ?thesis using assms(1) by (metis pool_reach_trans run_handler snd_conv)
qed

lemma honest_serve_reach:
  assumes "\<forall>req \<in> set reqs. \<forall>w. honest_request V ledger w req"
    and "pool_reach (Honest V ledger) (Surroundings moves ledger) ([], w0) (ps, w)"
  shows "\<exists>ps'. pool_reach (Honest V ledger) (Surroundings moves ledger) ([], w0) (ps', snd (serve V reqs w))"
  using assms
proof (induction reqs arbitrary: ps w)
  case Nil
  then show ?case by auto
next
  case (Cons req reqs)
  have h: "honest_request V ledger w req" using Cons.prems(1) by simp
  from honest_reach [OF Cons.prems(2) h] obtain ps' where
    r: "pool_reach (Honest V ledger) (Surroundings moves ledger) ([], w0) (ps', snd (run (route V req) w))" by blast
  from Cons.IH [OF _ r] Cons.prems(1) show ?case by (simp add: case_prod_beta)
qed

lemma provider_reach:
  assumes "pool_reach A (Surroundings (mock_moves rt) ledger) c (ps, w)"
  shows "pool_reach A (Surroundings (mock_moves rt) ledger) c (ps, w\<lparr>wpsp := fold (mock_move rt) moves (wpsp w)\<rparr>)"
  using assms
proof (induction moves arbitrary: w)
  case (Cons m moves)
  have "pool_reach A (Surroundings (mock_moves rt) ledger) c (ps, w\<lparr>wpsp := mock_move rt m (wpsp w)\<rparr>)"
    by (rule pool_more [OF Cons.prems], rule environment, rule provider_moves) (auto simp: mock_moves_def)
  from Cons.IH [OF this] show ?case by simp
qed simp

definition unanswered :: "nat provider world" where
  "unanswered = snd (serve joint_server (demo_setup @ [demo_pay ''tok_timeout'' ''k1'']) joint_start)"

definition charged_late :: "nat provider world" where
  "charged_late = unanswered\<lparr>wpsp := fold (mock_move joint_rt) [Deliver 0, Advance 0, Advance 0] (wpsp unanswered)\<rparr>"

definition joint_report :: Request where
  "joint_report = PostWebhooksPSP (Some ''u4'') ''e1'' ''0'' (Sign joint_rt DefaultPSPSecret ''e1'' (time_Unix 0) ''u4'')"

definition reported :: "nat provider world" where
  "reported = snd (run (route joint_server joint_report) charged_late)"

lemma charged_late_values:
  "mock_charges (wpsp unanswered) = []" "map req_IdempotencyKey (mock_charges (wpsp charged_late)) = [''u4'']"
  "map att_Status (payment_attempts (wdb charged_late)) = [PaymentAttemptStatusPending]"
  "map (\<lambda>v. (inv_ID v, inv_Status v)) (invoices (wdb reported)) = [(''u3'', InvoiceStatusPaid)]"
  by code_simp+

theorem paid_means_charged_witness:
  "map inv_Status (invoices (wdb reported)) = [InvoiceStatusPaid]
    \<and> mock_charges (wpsp unanswered) = []
    \<and> (\<exists>req. invoice_charges ''u3'' (mock_charges (wpsp reported)) (wdb reported) = [req])"
proof -
  let ?L = "mock_ledger joint_rt" and ?R = "pool_reach (Honest joint_server (mock_ledger joint_rt))
      (Surroundings (mock_moves joint_rt) (mock_ledger joint_rt)) ([], joint_start)"
  note ok = joint_server_ok(1,2,4,3) joint_start_ok
  have "\<forall>req \<in> set (demo_setup @ [demo_pay ''tok_timeout'' ''k1'']). \<forall>w. honest_request joint_server ?L w req"
    by (simp add: demo_setup_def demo_pay_def honest_request_def)
  from honest_serve_reach [OF this pool_refl] obtain ps where "?R (ps, unanswered)"
    unfolding unanswered_def by blast
  from provider_reach [OF this] have r: "?R (ps, charged_late)" unfolding charged_late_def .
  have "charged_under ?L (wpsp charged_late) = set (map req_IdempotencyKey (mock_charges (wpsp charged_late)))"
    using ledger_ok_mock [OF paid_reach(1) [OF ok r]] by (simp add: charged_under_def)
  then have "charged_under ?L (wpsp charged_late) = {''u4''}" by (simp only: charged_late_values) simp
  then have "honest_request joint_server ?L charged_late joint_report"
    by (auto simp: honest_request_def joint_report_def honest_def signed_report_def named_def reports_failure_def
        reports_success_def joint_server_def joint_rt_def demo_rt_def demo_parse_def paymentService_def)
  from honest_reach [OF r this] obtain ps' where r': "?R (ps', reported)"
    unfolding reported_def by blast
  from charged_late_values(4) obtain v where v: "invoices (wdb reported) = [v]" "inv_ID v = ''u3''" "inv_Status v = InvoiceStatusPaid"
    by auto
  with paid_means_charged [OF ok r', of v] charged_late_values(1) show ?thesis by auto
qed

end
