(* ===== verification/Migrations.thy ===== *)
theory Migrations
  imports Runtime "HOL-Library.Char_ord" "HOL-Library.List_Lexorder"
begin

text \<open>
  The migrations runner, \<open>internal/database/migrate.go\<close>. The files of the directory, the
  effect of a file's SQL on the schema and the question whether the schema has the table
  \<open>businesses\<close> are the parameters \<open>migrator\<close>; the type of schemas is a variable. The state
  is the schema with the table \<open>schema_migrations\<close>, and the fates of the statements to come:
  every statement of the runner can be lost on its way to the database or on its way back.
\<close>

subsection \<open>State and statements\<close>

record 's tracked =
  mg_schema :: 's
  mg_table :: "string list option"   \<comment> \<open>\<open>schema_migrations\<close>, by filename; \<open>None\<close>: not created\<close>

datatype sqlfail =
    PgError string       \<comment> \<open>\<open>*pgconn.PgError\<close> with its \<open>Code\<close>\<close>
  | NoResult             \<comment> \<open>\<open>pgx.ErrNoRows\<close>\<close>
  | Broken               \<comment> \<open>the connection failed\<close>

text \<open>
  The errors \<open>RunMigrations\<close> returns: the ones it wraps with a text and a filename, and the ones
  it passes on.
\<close>

datatype migration_error =
    CreateTable sqlfail
  | ReadDir
  | CheckFile string sqlfail
  | ReadFile string
  | ApplyFile string sqlfail
  | RecordFile string sqlfail
  | BaselineFile string sqlfail
  | PassedOn sqlfail

record 's migrator =
  mg_dir :: "(string \<times> bool) list option"        \<comment> \<open>\<open>os.ReadDir\<close>: names, and whether a directory\<close>
  mg_file :: "string \<Rightarrow> string option"          \<comment> \<open>\<open>os.ReadFile\<close>\<close>
  mg_apply :: "string \<Rightarrow> 's \<Rightarrow> string + 's"     \<comment> \<open>a file's SQL: an error code, or the new schema\<close>
  mg_businesses :: "'s \<Rightarrow> bool"                \<comment> \<open>\<open>information_schema\<close> lists \<open>businesses\<close>\<close>

type_synonym 's mg_state = "'s tracked \<times> fate list"
type_synonym ('s, 'a) mg_stmt = "'s tracked \<Rightarrow> sqlfail + 'a \<times> 's tracked"

fun take_fate :: "fate list \<Rightarrow> fate \<times> fate list" where
  "take_fate [] = (Delivered, [])"
| "take_fate (f # fs) = (f, fs)"

text \<open>\<open>pool.Exec\<close> and \<open>pool.QueryRow(...).Scan\<close>.\<close>

definition mg_exec :: "('s, 'a) mg_stmt \<Rightarrow> 's mg_state \<Rightarrow> (sqlfail + 'a) \<times> 's mg_state" where
  "mg_exec q st = (case st of (d, fs) \<Rightarrow> (case take_fate fs of (f, fs') \<Rightarrow>
     (case f of
        LostRequest \<Rightarrow> (Inl Broken, d, fs')
      | Delivered \<Rightarrow> (case q d of Inl e \<Rightarrow> (Inl e, d, fs') | Inr (a, d') \<Rightarrow> (Inr a, d', fs'))
      | LostReply \<Rightarrow> (case q d of Inl e \<Rightarrow> (Inl Broken, d, fs') | Inr (a, d') \<Rightarrow> (Inl Broken, d', fs')))))"

definition create_schema_migrations :: "('s, unit) mg_stmt" where
  "create_schema_migrations d =
     Inr ((), d\<lparr>mg_table := Some (case mg_table d of None \<Rightarrow> [] | Some names \<Rightarrow> names)\<rparr>)"

definition select_applied :: "string \<Rightarrow> ('s, bool) mg_stmt" where
  "select_applied name d = (case mg_table d of
       None \<Rightarrow> Inl (PgError ''42P01'')
     | Some names \<Rightarrow> if name \<in> set names then Inr (True, d) else Inl NoResult)"

definition count_applied :: "('s, nat) mg_stmt" where
  "count_applied d = (case mg_table d of
       None \<Rightarrow> Inl (PgError ''42P01'')
     | Some names \<Rightarrow> Inr (length names, d))"

definition insert_applied :: "string \<Rightarrow> ('s, unit) mg_stmt" where
  "insert_applied name d = (case mg_table d of
       None \<Rightarrow> Inl (PgError ''42P01'')
     | Some names \<Rightarrow>
         if name \<in> set names then Inl (PgError ''23505'')
         else Inr ((), d\<lparr>mg_table := Some (names @ [name])\<rparr>))"

text \<open>\<open>INSERT ... ON CONFLICT DO NOTHING\<close>.\<close>

definition insert_missing :: "string \<Rightarrow> ('s, unit) mg_stmt" where
  "insert_missing name d = (case mg_table d of
       None \<Rightarrow> Inl (PgError ''42P01'')
     | Some names \<Rightarrow>
         Inr ((), if name \<in> set names then d else d\<lparr>mg_table := Some (names @ [name])\<rparr>))"

definition businesses_exists :: "'s migrator \<Rightarrow> ('s, bool) mg_stmt" where
  "businesses_exists M d = Inr (mg_businesses M (mg_schema d), d)"

definition exec_file :: "'s migrator \<Rightarrow> string \<Rightarrow> ('s, unit) mg_stmt" where
  "exec_file M sql d = (case mg_apply M sql (mg_schema d) of
       Inl code \<Rightarrow> Inl (PgError code)
     | Inr s \<Rightarrow> Inr ((), d\<lparr>mg_schema := s\<rparr>))"

subsection \<open>The runner\<close>

fun isAlreadyExists :: "sqlfail \<Rightarrow> bool" where
  "isAlreadyExists (PgError code) = (code \<in> {''42P07'', ''42710'', ''42701''})"
| "isAlreadyExists _ = False"

text \<open>The names of the \<open>.sql\<close> files, sorted as \<open>sort.Strings\<close> does, by bytes.\<close>

definition has_suffix :: "string \<Rightarrow> string \<Rightarrow> bool" where
  "has_suffix s suffix \<longleftrightarrow> length suffix \<le> length s \<and> drop (length s - length suffix) s = suffix"

definition migration_files :: "(string \<times> bool) list \<Rightarrow> string list" where
  "migration_files entries =
     sort (map fst (filter (\<lambda>(name, is_dir). \<not> (is_dir \<or> \<not> has_suffix name ''.sql'')) entries))"

text \<open>\<open>INSERT\<close> of every name, the loop of \<open>recordExistingSchema\<close>.\<close>

fun record_all :: "string list \<Rightarrow> 's mg_state \<Rightarrow> (migration_error + unit) \<times> 's mg_state" where
  "record_all [] st = (Inr (), st)"
| "record_all (name # names) st = (case mg_exec (insert_missing name) st of
     (Inl e, st1) \<Rightarrow> (Inl (BaselineFile name e), st1)
   | (Inr _, st1) \<Rightarrow> record_all names st1)"

definition recordExistingSchema ::
  "'s migrator \<Rightarrow> string list \<Rightarrow> 's mg_state \<Rightarrow> (migration_error + unit) \<times> 's mg_state" where
  "recordExistingSchema M files st = (case mg_exec (businesses_exists M) st of
     (Inl e, st1) \<Rightarrow> (Inl (PassedOn e), st1)
   | (Inr businessesExists, st1) \<Rightarrow>
       (case mg_exec count_applied st1 of
          (Inl e, st2) \<Rightarrow> (Inl (PassedOn e), st2)
        | (Inr recorded, st2) \<Rightarrow>
            if \<not> businessesExists \<or> recorded > 0 then (Inr (), st2)
            else record_all files st2))"

text \<open>
  \<open>pool.Begin\<close> to \<open>tx.Commit\<close> for one file. The statements run on a copy of the tables, which a
  rollback, or a connection that breaks, drops.
\<close>

definition apply_file ::
  "'s migrator \<Rightarrow> string \<Rightarrow> string \<Rightarrow> 's mg_state \<Rightarrow> (migration_error + unit) \<times> 's mg_state" where
  "apply_file M name sql st = (case st of (d, fs) \<Rightarrow>
     (case take_fate fs of (began, fs1) \<Rightarrow>
        if began \<noteq> Delivered then (Inl (PassedOn Broken), d, fs1)
        else
          (case mg_exec (exec_file M sql) (d, fs1) of
             (Inl e, _, fs2) \<Rightarrow>
               if \<not> isAlreadyExists e then (Inl (ApplyFile name e), d, fs2)
               else (case mg_exec (insert_missing name) (d, fs2) of
                       (Inl e', st3) \<Rightarrow> (Inl (RecordFile name e'), st3)
                     | (Inr _, st3) \<Rightarrow> (Inr (), st3))
           | (Inr _, st2) \<Rightarrow>
               (case mg_exec (insert_applied name) st2 of
                  (Inl e, _, fs3) \<Rightarrow> (Inl (RecordFile name e), d, fs3)
                | (Inr _, d3, fs3) \<Rightarrow>
                    (case take_fate fs3 of (committed, fs4) \<Rightarrow>
                       (case committed of
                          Delivered \<Rightarrow> (Inr (), d3, fs4)
                        | LostRequest \<Rightarrow> (Inl (PassedOn Broken), d, fs4)
                        | LostReply \<Rightarrow> (Inl (PassedOn Broken), d3, fs4)))))))"

text \<open>The loop over the files.\<close>

fun migrate_files ::
  "'s migrator \<Rightarrow> string list \<Rightarrow> 's mg_state \<Rightarrow> (migration_error + unit) \<times> 's mg_state" where
  "migrate_files M [] st = (Inr (), st)"
| "migrate_files M (name # names) st = (case mg_exec (select_applied name) st of
     (Inr _, st1) \<Rightarrow> migrate_files M names st1
   | (Inl e, st1) \<Rightarrow>
       if e \<noteq> NoResult then (Inl (CheckFile name e), st1)
       else (case mg_file M name of
               None \<Rightarrow> (Inl (ReadFile name), st1)
             | Some sql \<Rightarrow>
                 (case apply_file M name sql st1 of
                    (Inl e', st2) \<Rightarrow> (Inl e', st2)
                  | (Inr _, st2) \<Rightarrow> migrate_files M names st2)))"

definition RunMigrations :: "'s migrator \<Rightarrow> 's mg_state \<Rightarrow> (migration_error + unit) \<times> 's mg_state" where
  "RunMigrations M st = (case mg_exec create_schema_migrations st of
     (Inl e, st1) \<Rightarrow> (Inl (CreateTable e), st1)
   | (Inr _, st1) \<Rightarrow>
       (case mg_dir M of
          None \<Rightarrow> (Inl ReadDir, st1)
        | Some entries \<Rightarrow>
            (case recordExistingSchema M (migration_files entries) st1 of
               (Inl e, st2) \<Rightarrow> (Inl e, st2)
             | (Inr _, st2) \<Rightarrow> migrate_files M (migration_files entries) st2)))"

text \<open>One start of the server after another, each with fates of its own.\<close>

fun run_starts :: "'s migrator \<Rightarrow> fate list list \<Rightarrow> 's tracked \<Rightarrow> 's tracked" where
  "run_starts M [] d = d"
| "run_starts M (fs # fss) d = run_starts M fss (fst (snd (RunMigrations M (d, fs))))"

end
