(* ===== verification/Migration_Safety.thy ===== *)
theory Migration_Safety
  imports Migrations
begin

text \<open>
  What the migrations runner promises. The abstract state is a number of files: the schema is
  what the first \<open>k\<close> of the sorted files make of the empty database, and the table
  \<open>schema_migrations\<close> names exactly these. Every start of the server, whatever statements are
  lost, only increases \<open>k\<close>, and a run that returns without error has reached the end.
\<close>

subsection \<open>One statement\<close>

lemma mg_exec_outcome:
  assumes "mg_exec q (d, fs) = (r, d', fs')"
  shows "r = Inl Broken \<and> d' = d \<or> (\<exists>e. q d = Inl e \<and> r = Inl e \<and> d' = d)
    \<or> (\<exists>a. q d = Inr (a, d') \<and> (r = Inr a \<or> r = Inl Broken))"
  using assms by (simp add: mg_exec_def split: prod.splits fate.splits sum.splits)

lemma mg_exec_cases:
  assumes "mg_exec q (d, fs) = (r, d', fs')"
  obtains (lost) "r = Inl Broken" and "d' = d"
    | (failed) e where "q d = Inl e" and "r = Inl e" and "d' = d"
    | (ran) a where "q d = Inr (a, d')" and "r = Inr a \<or> r = Inl Broken"
  using mg_exec_outcome [OF assms] by blast

lemma mg_exec_ok [simp]:
  "mg_exec q (d, []) = (case q d of Inl e \<Rightarrow> (Inl e, d, []) | Inr (a, d') \<Rightarrow> (Inr a, d', []))"
  by (simp add: mg_exec_def)

subsection \<open>The abstract state\<close>

fun apply_all :: "'s migrator \<Rightarrow> string list \<Rightarrow> 's \<Rightarrow> 's option" where
  "apply_all M [] s = Some s"
| "apply_all M (name # names) s = (case mg_file M name of
     None \<Rightarrow> None
   | Some sql \<Rightarrow> (case mg_apply M sql s of Inl _ \<Rightarrow> None | Inr s' \<Rightarrow> apply_all M names s'))"

lemma apply_all_append:
  "apply_all M (xs @ ys) s = (case apply_all M xs s of None \<Rightarrow> None | Some s' \<Rightarrow> apply_all M ys s')"
  by (induction xs arbitrary: s) (auto split: option.splits sum.splits)

definition migrated :: "'s migrator \<Rightarrow> string list \<Rightarrow> 's \<Rightarrow> nat \<Rightarrow> 's tracked \<Rightarrow> bool" where
  "migrated M files s0 k d \<longleftrightarrow> k \<le> length files \<and> apply_all M (take k files) s0 = Some (mg_schema d)
     \<and> (case mg_table d of None \<Rightarrow> k = 0 | Some names \<Rightarrow> names = take k files)"

text \<open>No file fails because what it creates is already there.\<close>

definition no_clash :: "'s migrator \<Rightarrow> string list \<Rightarrow> 's \<Rightarrow> bool" where
  "no_clash M files s0 \<longleftrightarrow>
     list_all (\<lambda>k. case (apply_all M (take k files) s0, mg_file M (files ! k)) of
         (Some s, Some sql) \<Rightarrow>
           (case mg_apply M sql s of Inl code \<Rightarrow> \<not> isAlreadyExists (PgError code) | Inr _ \<Rightarrow> True)
       | _ \<Rightarrow> True) [0..<length files]"

lemma no_clashD:
  assumes "no_clash M files s0" and "k < length files" and "apply_all M (take k files) s0 = Some s"
    and "mg_file M (files ! k) = Some sql" and "mg_apply M sql s = Inl code"
  shows "\<not> isAlreadyExists (PgError code)"
  using assms by (auto simp: no_clash_def list_all_iff dest!: bspec [of _ _ k])

lemma migrated_create:
  assumes "migrated M files s0 k d" and "create_schema_migrations d = Inr (a, d')"
  shows "migrated M files s0 k d' \<and> mg_table d' \<noteq> None"
  using assms by (auto simp: migrated_def create_schema_migrations_def split: option.splits)

lemma migrated_next:
  assumes "migrated M files s0 k d" and "mg_table d \<noteq> None" and "k < length files"
    and "mg_file M (files ! k) = Some sql" and "exec_file M sql d = Inr (a, d1)"
    and "insert_applied (files ! k) d1 = Inr (b, d2)"
  shows "migrated M files s0 (Suc k) d2 \<and> mg_table d2 \<noteq> None"
  using assms
  by (auto simp: migrated_def exec_file_def insert_applied_def take_Suc_conv_app_nth apply_all_append
      split: sum.splits option.splits if_splits)

subsection \<open>The operations refine the abstract steps\<close>

lemma apply_file_migrated:
  assumes m: "migrated M files s0 k d" and t: "mg_table d \<noteq> None" and k: "k < length files"
    and f: "mg_file M (files ! k) = Some sql" and c: "no_clash M files s0"
    and r: "apply_file M (files ! k) sql (d, fs) = (r, d', fs')"
  shows "mg_table d' \<noteq> None \<and> (\<exists>k'. k \<le> k' \<and> migrated M files s0 k' d' \<and> (r = Inr () \<longrightarrow> k' = Suc k))"
proof -
  have clash: "\<not> isAlreadyExists e" if e: "exec_file M sql d = Inl e" for e
  proof -
    from e obtain code where "mg_apply M sql (mg_schema d) = Inl code" "e = PgError code"
      by (auto simp: exec_file_def split: sum.splits)
    with no_clashD [OF c k _ f] m show ?thesis by (auto simp: migrated_def)
  qed
  obtain fs1 where same_or: "r \<noteq> Inr () \<and> d' = d \<or>
      (\<exists>d1 d2 fs2 fs3. mg_exec (exec_file M sql) (d, fs1) = (Inr (), d1, fs2)
        \<and> mg_exec (insert_applied (files ! k)) (d1, fs2) = (Inr (), d2, fs3) \<and> d' = d2)"
  proof (cases "fst (take_fate fs) = Delivered")
    case False
    then show ?thesis using r that by (auto simp: apply_file_def split: prod.splits)
  next
    case True
    obtain fs1 where b: "take_fate fs = (Delivered, fs1)" using True by (metis prod.collapse)
    obtain x d1 fs2 where x: "mg_exec (exec_file M sql) (d, fs1) = (x, d1, fs2)" by (metis prod_cases3)
    have no: "\<not> isAlreadyExists e" if "x = Inl e" for e
      using x that by (cases rule: mg_exec_cases) (auto dest: clash)
    have "r \<noteq> Inr () \<and> d' = d \<or> x = Inr () \<and> (\<exists>d2 fs3.
         mg_exec (insert_applied (files ! k)) (d1, fs2) = (Inr (), d2, fs3) \<and> d' = d2)"
      using r b x no
      by (auto simp: apply_file_def split: sum.splits prod.splits fate.splits if_splits)
    with x that show ?thesis by blast
  qed
  then show ?thesis
  proof
    assume "r \<noteq> Inr () \<and> d' = d"
    with m t show ?thesis by auto
  next
    assume "\<exists>d1 d2 fs2 fs3. mg_exec (exec_file M sql) (d, fs1) = (Inr (), d1, fs2)
        \<and> mg_exec (insert_applied (files ! k)) (d1, fs2) = (Inr (), d2, fs3) \<and> d' = d2"
    then obtain d1 d2 fs2 fs3 where e: "mg_exec (exec_file M sql) (d, fs1) = (Inr (), d1, fs2)"
      and i: "mg_exec (insert_applied (files ! k)) (d1, fs2) = (Inr (), d2, fs3)" and d': "d' = d2"
      by blast
    from e have "exec_file M sql d = Inr ((), d1)" by (cases rule: mg_exec_cases) auto
    moreover from i have "insert_applied (files ! k) d1 = Inr ((), d2)" by (cases rule: mg_exec_cases) auto
    ultimately show ?thesis using migrated_next [OF m t k f] d' by (auto intro: exI [of _ "Suc k"])
  qed
qed

lemma migrate_files_migrated:
  assumes "distinct files" and "no_clash M files s0" and "files = pre @ rest" and "length pre \<le> k"
    and "migrated M files s0 k d" and "mg_table d \<noteq> None"
    and "migrate_files M rest (d, fs) = (r, d', fs')"
  shows "mg_table d' \<noteq> None \<and> (\<exists>k'. k \<le> k' \<and> migrated M files s0 k' d' \<and> (r = Inr () \<longrightarrow> k' = length files))"
  using assms(3-)
proof (induction rest arbitrary: pre k d fs)
  case Nil
  then show ?case by (auto simp: migrated_def)
next
  case (Cons name rest)
  have files: "files = (pre @ [name]) @ rest" using Cons.prems(1) by simp
  have name: "files ! length pre = name" "length pre < length files" using Cons.prems(1) by auto
  obtain x d1 fs1 where x: "mg_exec (select_applied name) (d, fs) = (x, d1, fs1)" by (metis prod_cases3)
  from x have d1: "d1 = d" and hit: "x = Inr b \<Longrightarrow> name \<in> set (the (mg_table d))"
    and miss: "x = Inl NoResult \<Longrightarrow> name \<notin> set (the (mg_table d))" for b
    using Cons.prems(4)
    by (cases rule: mg_exec_cases; auto simp: select_applied_def split: option.splits if_splits)+
  have tab: "the (mg_table d) = take k files"
    using Cons.prems(3,4) by (auto simp: migrated_def)
  consider (skip) b where "x = Inr b" | (bad) e where "x = Inl e" "e \<noteq> NoResult" | (go) "x = Inl NoResult"
    by (cases x) auto
  then show ?case
  proof cases
    case skip
    have "length pre < k"
    proof (rule ccontr)
      assume "\<not> length pre < k"
      then have "take k files = take k pre" using Cons.prems(1) by simp
      with hit [OF skip] tab have "name \<in> set pre" by (auto dest: in_set_takeD)
      with assms(1) Cons.prems(1) show False by auto
    qed
    then have le: "length (pre @ [name]) \<le> k" by simp
    show ?thesis
      by (rule Cons.IH [OF files le Cons.prems(3,4)]) (use Cons.prems(5) x d1 skip in auto)
  next
    case bad
    then show ?thesis using Cons.prems x d1 by auto
  next
    case go
    have len: "length pre = k"
    proof (rule ccontr)
      assume "length pre \<noteq> k"
      with Cons.prems(2) have "length pre < k" by simp
      then have "name \<in> set (take k files)"
        using name by (metis in_set_conv_nth length_take min_less_iff_conj nth_take)
      with miss [OF go] tab show False by simp
    qed
    show ?thesis
    proof (cases "mg_file M name")
      case None
      then show ?thesis using Cons.prems x d1 go by auto
    next
      case (Some sql)
      obtain y d2 fs2 where y: "apply_file M name sql (d, fs1) = (y, d2, fs2)" by (metis prod_cases3)
      have k: "k < length files" and nk: "files ! k = name" using name len by auto
      obtain k1 where t2: "mg_table d2 \<noteq> None" and k1: "k \<le> k1" and m2: "migrated M files s0 k1 d2"
        and end1: "y = Inr () \<longrightarrow> k1 = Suc k"
        using apply_file_migrated [OF Cons.prems(3,4) k _ assms(2)] Some y nk by metis
      show ?thesis
      proof (cases y)
        case (Inl e)
        then have "r = Inl e \<and> d' = d2" using Cons.prems(5) x d1 go Some y by simp
        with t2 k1 m2 show ?thesis by auto
      next
        case (Inr u)
        have run: "migrate_files M rest (d2, fs2) = (r, d', fs')"
          using Cons.prems(5) x d1 go Some y Inr by simp
        have "length (pre @ [name]) \<le> k1" using end1 Inr len by simp
        from Cons.IH [OF files this m2 t2 run] obtain k2 where "k1 \<le> k2" "mg_table d' \<noteq> None"
          "migrated M files s0 k2 d'" "r = Inr () \<longrightarrow> k2 = length files" by blast
        with k1 show ?thesis by (blast intro: le_trans)
      qed
    qed
  qed
qed

lemma recordExistingSchema_migrated:
  assumes "migrated M files s0 k d" and "mg_table d \<noteq> None" and "\<not> mg_businesses M s0"
    and "recordExistingSchema M files (d, fs) = (r, d', fs')"
  shows "d' = d"
proof -
  obtain x d1 fs1 where x: "mg_exec (businesses_exists M) (d, fs) = (x, d1, fs1)" by (metis prod_cases3)
  obtain y d2 fs2 where y: "mg_exec count_applied (d1, fs1) = (y, d2, fs2)" by (metis prod_cases3)
  from x have d1: "d1 = d" and xv: "x = Inr b \<Longrightarrow> b = mg_businesses M (mg_schema d)" for b
    by (cases rule: mg_exec_cases; simp add: businesses_exists_def)+
  from y have d2: "d2 = d" and yv: "y = Inr n \<Longrightarrow> n = length (the (mg_table d))" for n
    using d1 assms(2) by (cases rule: mg_exec_cases; auto simp: count_applied_def split: option.splits)+
  have "\<not> (b \<and> n = 0)" if "x = Inr b" "y = Inr n" for b n
    using xv [OF that(1)] yv [OF that(2)] assms(1-3) by (auto simp: migrated_def)
  with assms(4) x y d1 d2 show ?thesis
    by (auto simp: recordExistingSchema_def split: sum.splits if_splits)
qed

lemma RunMigrations_migrated:
  assumes dir: "mg_dir M = Some entries" and "distinct (migration_files entries)"
    and "\<not> mg_businesses M s0" and "no_clash M (migration_files entries) s0"
    and m: "migrated M (migration_files entries) s0 k d"
    and r: "RunMigrations M (d, fs) = (r, d', fs')"
  shows "\<exists>k'. k \<le> k' \<and> migrated M (migration_files entries) s0 k' d'
    \<and> (r = Inr () \<longrightarrow> k' = length (migration_files entries) \<and> mg_table d' \<noteq> None)"
proof -
  obtain x d1 fs1 where x: "mg_exec create_schema_migrations (d, fs) = (x, d1, fs1)" by (metis prod_cases3)
  have d1: "migrated M (migration_files entries) s0 k d1 \<and> (x = Inr () \<longrightarrow> mg_table d1 \<noteq> None)"
    using x m by (cases rule: mg_exec_cases) (auto dest: migrated_create)
  show ?thesis
  proof (cases x)
    case (Inl e)
    then show ?thesis using r x d1 by (auto simp: RunMigrations_def)
  next
    case (Inr u)
    with d1 have t1: "mg_table d1 \<noteq> None" by simp
    obtain y d2 fs2 where y: "recordExistingSchema M (migration_files entries) (d1, fs1) = (y, d2, fs2)"
      by (metis prod_cases3)
    have d2: "d2 = d1" by (rule recordExistingSchema_migrated [OF conjunct1 [OF d1] t1 assms(3) y])
    show ?thesis
    proof (cases y)
      case (Inl e)
      then show ?thesis using r x y dir Inr d1 d2 by (auto simp: RunMigrations_def)
    next
      case y': (Inr u')
      have "migrate_files M (migration_files entries) (d1, fs2) = (r, d', fs')"
        using r x y dir Inr y' d2 by (simp add: RunMigrations_def)
      from migrate_files_migrated [OF assms(2,4) _ _ conjunct1 [OF d1] t1 this, of "[]"] show ?thesis by auto
    qed
  qed
qed

lemma run_starts_migrated:
  assumes "mg_dir M = Some entries" and "distinct (migration_files entries)"
    and "\<not> mg_businesses M s0" and "no_clash M (migration_files entries) s0"
    and "migrated M (migration_files entries) s0 k d"
  shows "\<exists>k' \<ge> k. migrated M (migration_files entries) s0 k' (run_starts M fss d)"
  using assms(5)
proof (induction fss arbitrary: k d)
  case Nil
  then show ?case by auto
next
  case (Cons fs fss)
  obtain r d1 fs1 where r: "RunMigrations M (d, fs) = (r, d1, fs1)" by (metis prod_cases3)
  from RunMigrations_migrated [OF assms(1-4) Cons.prems r]
  obtain k1 where "k \<le> k1" "migrated M (migration_files entries) s0 k1 d1" by blast
  with Cons.IH [of k1 d1] r show ?case by (auto intro: le_trans)
qed

text \<open>\<open>os.ReadDir\<close> lists each name once.\<close>

lemma migration_files_distinct: "distinct (map fst entries) \<Longrightarrow> distinct (migration_files entries)"
  by (simp add: migration_files_def distinct_map inj_on_def)

abbreviation untouched :: "'s \<Rightarrow> 's tracked" where
  "untouched s0 \<equiv> \<lparr>mg_schema = s0, mg_table = None\<rparr>"

lemma untouched_migrated: "migrated M files s0 0 (untouched s0)"
  by (simp add: migrated_def)

subsection \<open>A run without faults\<close>

lemma apply_all_nth:
  assumes "apply_all M files s0 = Some s" and "k < length files"
  obtains s1 sql s2 where "apply_all M (take k files) s0 = Some s1" and "mg_file M (files ! k) = Some sql"
    and "mg_apply M sql s1 = Inr s2"
proof -
  have "files = take k files @ files ! k # drop (Suc k) files" using assms(2) by (rule id_take_nth_drop)
  with assms(1) have "apply_all M (take k files @ files ! k # drop (Suc k) files) s0 = Some s" by simp
  with that show ?thesis by (auto simp: apply_all_append split: option.splits sum.splits)
qed

lemma no_clash_applies: "apply_all M files s0 \<noteq> None \<Longrightarrow> no_clash M files s0"
  by (auto simp: no_clash_def list_all_iff elim: apply_all_nth)

lemma apply_file_ok:
  assumes "migrated M files s0 k d" and "mg_table d \<noteq> None" and "k < length files" and "distinct files"
    and "mg_apply M sql (mg_schema d) = Inr s2"
  shows "\<exists>d'. apply_file M (files ! k) sql (d, []) = (Inr (), d', [])"
proof -
  have "files ! k \<notin> set (take k files)"
    using assms(3,4) by (simp add: set_take_disj_set_drop_if_distinct in_set_conv_nth nth_eq_iff_index_eq)
  then show ?thesis using assms
    by (auto simp: apply_file_def exec_file_def insert_applied_def migrated_def)
qed

lemma migrate_files_ok:
  assumes "distinct files" and "apply_all M files s0 = Some s" and "files = pre @ rest" and "length pre \<le> k"
    and "migrated M files s0 k d" and "mg_table d \<noteq> None"
  shows "\<exists>d'. migrate_files M rest (d, []) = (Inr (), d', [])"
  using assms(3-)
proof (induction rest arbitrary: pre k d)
  case Nil
  then show ?case by simp
next
  case (Cons name rest)
  have files: "files = (pre @ [name]) @ rest" using Cons.prems(1) by simp
  have name: "files ! length pre = name" "length pre < length files" using Cons.prems(1) by auto
  obtain names where tab: "mg_table d = Some names" "names = take k files"
    using Cons.prems(3,4) by (auto simp: migrated_def)
  show ?case
  proof (cases "length pre < k")
    case True
    then have hit: "name \<in> set names"
      using name tab by (metis in_set_conv_nth length_take min_less_iff_conj nth_take)
    from True have le: "length (pre @ [name]) \<le> k" by simp
    from Cons.IH [OF files le Cons.prems(3,4)] hit tab show ?thesis by (simp add: select_applied_def)
  next
    case False
    with Cons.prems(2) have len: "length pre = k" by simp
    then have k: "k < length files" and nk: "files ! k = name" using name by auto
    have miss: "name \<notin> set names"
      using assms(1) Cons.prems(1) len tab by auto
    obtain s1 sql s2 where s1: "apply_all M (take k files) s0 = Some s1" and f: "mg_file M (files ! k) = Some sql"
      and a: "mg_apply M sql s1 = Inr s2" by (rule apply_all_nth [OF assms(2) k])
    have "mg_apply M sql (mg_schema d) = Inr s2" using s1 a Cons.prems(3) by (simp add: migrated_def)
    from apply_file_ok [OF Cons.prems(3,4) k assms(1) this] nk
    obtain d2 where d2: "apply_file M name sql (d, []) = (Inr (), d2, [])" by auto
    have "no_clash M files s0" using assms(2) by (simp add: no_clash_applies)
    from apply_file_migrated [OF Cons.prems(3,4) k f this, of "[]"] d2 nk
    have m2: "mg_table d2 \<noteq> None" "migrated M files s0 (Suc k) d2" by auto
    have "length (pre @ [name]) \<le> Suc k" using len by simp
    from Cons.IH [OF files this m2(2,1)] d2 miss tab f nk show ?thesis
      by (auto simp: select_applied_def)
  qed
qed

lemma RunMigrations_ok:
  assumes "mg_dir M = Some entries" and "distinct (migration_files entries)" and "\<not> mg_businesses M s0"
    and "apply_all M (migration_files entries) s0 = Some s" and "migrated M (migration_files entries) s0 k d"
  shows "\<exists>d'. RunMigrations M (d, []) = (Inr (), d', [])"
proof -
  obtain d1 where d1: "create_schema_migrations d = Inr ((), d1)"
    by (simp add: create_schema_migrations_def)
  from migrated_create [OF assms(5) d1] have m1: "migrated M (migration_files entries) s0 k d1" "mg_table d1 \<noteq> None"
    by auto
  have "recordExistingSchema M (migration_files entries) (d1, []) = (Inr (), d1, [])"
    using m1 assms(3)
    by (auto simp: recordExistingSchema_def businesses_exists_def count_applied_def migrated_def)
  with migrate_files_ok [OF assms(2,4) _ _ m1, of "[]"] d1 assms(1) show ?thesis
    by (auto simp: RunMigrations_def)
qed

subsection \<open>A database that has every file\<close>

lemma migrate_files_recorded:
  assumes "mg_table d = Some names" and "set rest \<subseteq> set names"
  shows "fst (snd (migrate_files M rest (d, fs))) = d \<and> (fs = [] \<longrightarrow> migrate_files M rest (d, fs) = (Inr (), d, []))"
  using assms(2)
proof (induction rest arbitrary: fs)
  case Nil
  then show ?case by simp
next
  case (Cons name rest)
  obtain x d1 fs1 where x: "mg_exec (select_applied name) (d, fs) = (x, d1, fs1)" by (metis prod_cases3)
  have q: "select_applied name d = Inr (True, d)" using Cons.prems assms(1) by (simp add: select_applied_def)
  from x q have "d1 = d \<and> (x = Inr True \<or> x = Inl Broken)" by (cases rule: mg_exec_cases) auto
  moreover have "fs = [] \<Longrightarrow> x = Inr True \<and> fs1 = []" using x q by simp
  ultimately show ?case using Cons.IH [of fs1] Cons.prems x by auto
qed

lemma recordExistingSchema_recorded:
  assumes "mg_table d = Some names" and "set files \<subseteq> set names"
  shows "fst (snd (recordExistingSchema M files (d, fs))) = d
    \<and> (fs = [] \<longrightarrow> recordExistingSchema M files (d, fs) = (Inr (), d, []))"
proof -
  obtain x d1 fs1 where x: "mg_exec (businesses_exists M) (d, fs) = (x, d1, fs1)" by (metis prod_cases3)
  obtain y d2 fs2 where y: "mg_exec count_applied (d1, fs1) = (y, d2, fs2)" by (metis prod_cases3)
  from x have d1: "d1 = d" by (cases rule: mg_exec_cases) (auto simp: businesses_exists_def)
  from y d1 assms(1) have d2: "d2 = d" and n: "y = Inr n \<Longrightarrow> n = length names" for n
    by (cases rule: mg_exec_cases; auto simp: count_applied_def)+
  have "files = []" if "names = []" using that assms(2) by simp
  with x y d1 d2 n show ?thesis
    by (auto simp: recordExistingSchema_def businesses_exists_def count_applied_def assms(1) split: sum.splits)
qed

lemma record_all_empty:
  assumes "distinct names" and "set names \<inter> set old = {}" and "mg_table d = Some old"
  shows "record_all names (d, []) = (Inr (), d\<lparr>mg_table := Some (old @ names)\<rparr>, [])"
  using assms
proof (induction names arbitrary: old d)
  case Nil
  then show ?case by simp
next
  case (Cons name names)
  from Cons.IH [of "old @ [name]" "d\<lparr>mg_table := Some (old @ [name])\<rparr>"] Cons.prems show ?case
    by (simp add: insert_missing_def)
qed

subsection \<open>A small directory\<close>

text \<open>Schemas are lists of tables and a file creates the table it names.\<close>

definition table_migrator :: "(string \<times> bool) list \<Rightarrow> (string \<Rightarrow> string option) \<Rightarrow> string list migrator" where
  "table_migrator entries contents = \<lparr>mg_dir = Some entries, mg_file = contents,
     mg_apply = (\<lambda>sql s. if sql \<in> set s then Inl ''42P07'' else if sql = [] then Inl ''42601'' else Inr (s @ [sql])),
     mg_businesses = (\<lambda>s. ''businesses'' \<in> set s)\<rparr>"

definition sample_migrator :: "string list migrator" where
  "sample_migrator = table_migrator
     [(''002_b.sql'', False), (''001_a.sql'', False), (''notes.txt'', False), (''old.sql'', True)]
     (\<lambda>name. if name = ''001_a.sql'' then Some ''businesses'' else if name = ''002_b.sql'' then Some ''customers'' else None)"

lemma sample_files [simp]:
  "mg_dir sample_migrator =
     Some [(''002_b.sql'', False), (''001_a.sql'', False), (''notes.txt'', False), (''old.sql'', True)]"
  "migration_files [(''002_b.sql'', False), (''001_a.sql'', False), (''notes.txt'', False), (''old.sql'', True)]
     = [''001_a.sql'', ''002_b.sql'']"
  by (simp add: sample_migrator_def table_migrator_def) code_simp

lemma sample_apply_all [simp]:
  "apply_all sample_migrator [''001_a.sql'', ''002_b.sql''] [] = Some [''businesses'', ''customers'']"
  by (simp add: sample_migrator_def table_migrator_def)

subsection \<open>The promises\<close>

text \<open>
  C16. Starting from a database without tables, and whatever statements are lost during any number of starts
  of the server, the schema is always what the first \<open>k\<close> files, in the order of their names, make
  of the empty one, each applied exactly once, and \<open>schema_migrations\<close> names exactly these; a later
  run that returns without error has applied them all. It is enough that no file fails because something it
  creates is already there.
\<close>

theorem migrations_in_order:
  assumes "mg_dir M = Some entries" and "distinct (map fst entries)" and "\<not> mg_businesses M s0"
    and "no_clash M (migration_files entries) s0"
  shows "(\<exists>k. migrated M (migration_files entries) s0 k (run_starts M fss (untouched s0)))
    \<and> (\<forall>fs d fs'. RunMigrations M (run_starts M fss (untouched s0), fs) = (Inr (), d, fs')
         \<longrightarrow> apply_all M (migration_files entries) s0 = Some (mg_schema d) \<and> mg_table d = Some (migration_files entries))"
proof -
  note D = migration_files_distinct [OF assms(2)]
  obtain k where k: "migrated M (migration_files entries) s0 k (run_starts M fss (untouched s0))"
    using run_starts_migrated [OF assms(1) D assms(3,4) untouched_migrated] by blast
  have "apply_all M (migration_files entries) s0 = Some (mg_schema d) \<and> mg_table d = Some (migration_files entries)"
    if r: "RunMigrations M (run_starts M fss (untouched s0), fs) = (Inr (), d, fs')" for fs d fs'
    using RunMigrations_migrated [OF assms(1) D assms(3,4) k r] by (auto simp: migrated_def)
  with k show ?thesis by blast
qed

lemma sample_ok:
  "distinct (map fst [(''002_b.sql'', False), (''001_a.sql'', False), (''notes.txt'', False), (''old.sql'', True)])"
  "\<not> mg_businesses sample_migrator []"
  "no_clash sample_migrator
     (migration_files [(''002_b.sql'', False), (''001_a.sql'', False), (''notes.txt'', False), (''old.sql'', True)]) []"
  by simp (simp_all add: sample_migrator_def table_migrator_def no_clash_applies)

text \<open>The first start loses its connection in the second file; a later one reaches the end.\<close>

theorem migrations_in_order_witness:
  "mg_schema (run_starts sample_migrator [replicate 8 Delivered @ [LostReply]] (untouched [])) = [''businesses'']
   \<and> (\<exists>d. RunMigrations sample_migrator
          (run_starts sample_migrator [replicate 8 Delivered @ [LostReply]] (untouched []), []) = (Inr (), d, [])
        \<and> mg_table d = Some [''001_a.sql'', ''002_b.sql''])"
proof -
  let ?d = "run_starts sample_migrator [replicate 8 Delivered @ [LostReply]] (untouched [])"
  have d: "mg_schema ?d = [''businesses'']" by code_simp
  have "fst (RunMigrations sample_migrator (?d, [])) = Inr () \<and> snd (snd (RunMigrations sample_migrator (?d, []))) = []"
    by code_simp
  then obtain d' where r: "RunMigrations sample_migrator (?d, []) = (Inr (), d', [])" by (metis prod.collapse)
  have "mg_table d' = Some [''001_a.sql'', ''002_b.sql'']"
    using migrations_in_order [OF sample_files(1) sample_ok] r by (auto simp only: sample_files)
  with d r show ?thesis by blast
qed

text \<open>
  C35. When every file applies, the next start without lost statements finishes the work, wherever the
  earlier starts were cut off: it returns no error and the schema is the one all the files make.
\<close>

theorem migrations_finish:
  assumes "mg_dir M = Some entries" and "distinct (map fst entries)" and "\<not> mg_businesses M s0"
    and "apply_all M (migration_files entries) s0 = Some s"
  shows "RunMigrations M (run_starts M fss (untouched s0), [])
    = (Inr (), \<lparr>mg_schema = s, mg_table = Some (migration_files entries)\<rparr>, [])"
proof -
  note D = migration_files_distinct [OF assms(2)]
  have nc: "no_clash M (migration_files entries) s0" using assms(4) by (simp add: no_clash_applies)
  obtain k where k: "migrated M (migration_files entries) s0 k (run_starts M fss (untouched s0))"
    using run_starts_migrated [OF assms(1) D assms(3) nc untouched_migrated] by blast
  obtain d where r: "RunMigrations M (run_starts M fss (untouched s0), []) = (Inr (), d, [])"
    using RunMigrations_ok [OF assms(1) D assms(3,4) k] by blast
  with RunMigrations_migrated [OF assms(1) D assms(3) nc k r] assms(4) show ?thesis
    by (auto simp: migrated_def)
qed

theorem migrations_finish_witness:
  "RunMigrations sample_migrator
     (run_starts sample_migrator [[LostRequest], replicate 5 Delivered @ [LostRequest]] (untouched []), [])
   = (Inr (), \<lparr>mg_schema = [''businesses'', ''customers''], mg_table = Some [''001_a.sql'', ''002_b.sql'']\<rparr>, [])"
  using migrations_finish [OF sample_files(1) sample_ok(1,2)] by (simp only: sample_files sample_apply_all)

text \<open>
  A start on a database that has every file changes neither the schema nor \<open>schema_migrations\<close>,
  whatever statements are lost, and without losses it returns no error: no file is run a second time.
\<close>

lemma migrations_rerun:
  assumes "mg_dir M = Some entries" and "mg_table d = Some names" and "set (migration_files entries) \<subseteq> set names"
  shows "fst (snd (RunMigrations M (d, fs))) = d \<and> (fs = [] \<longrightarrow> fst (RunMigrations M (d, fs)) = Inr ())"
proof -
  obtain x d1 fs1 where x: "mg_exec create_schema_migrations (d, fs) = (x, d1, fs1)" by (metis prod_cases3)
  have q: "create_schema_migrations d = Inr ((), d)" using assms(2) by (simp add: create_schema_migrations_def)
  from x q have d1: "d1 = d" by (cases rule: mg_exec_cases) auto
  have ok: "x = Inr () \<and> fs1 = []" if "fs = []" using x q that by simp
  obtain y d2 fs2 where y: "recordExistingSchema M (migration_files entries) (d, fs1) = (y, d2, fs2)" by (metis prod_cases3)
  from recordExistingSchema_recorded [OF assms(2,3), of M fs1] y
  have d2: "d2 = d" and y': "fs1 = [] \<Longrightarrow> y = Inr () \<and> fs2 = []" by auto
  from migrate_files_recorded [OF assms(2,3), of M fs2] x y d1 d2 ok y' assms(1) show ?thesis
    by (auto simp: RunMigrations_def split: sum.splits)
qed

text \<open>
  A database that has \<open>businesses\<close> and no recorded migration is taken to be up to date: every file is
  recorded and none is run, also the files whose tables or columns the database does not have.
\<close>

theorem existing_schema_skips_files:
  assumes "mg_dir M = Some entries" and "distinct (map fst entries)" and "mg_businesses M (mg_schema d)"
    and "mg_table d = None \<or> mg_table d = Some []"
  shows "RunMigrations M (d, []) = (Inr (), d\<lparr>mg_table := Some (migration_files entries)\<rparr>, [])"
proof -
  let ?fs = "migration_files entries" and ?d0 = "d\<lparr>mg_table := Some []\<rparr>" and ?d1 = "d\<lparr>mg_table := Some (migration_files entries)\<rparr>"
  have c: "mg_exec create_schema_migrations (d, []) = (Inr (), ?d0, [])"
    using assms(4) by (auto simp: create_schema_migrations_def)
  have "record_all ?fs (?d0, []) = (Inr (), ?d1, [])"
    using record_all_empty [OF migration_files_distinct [OF assms(2)], of "[]" ?d0] by simp
  then have "recordExistingSchema M ?fs (?d0, []) = (Inr (), ?d1, [])"
    using assms(3) by (simp add: recordExistingSchema_def businesses_exists_def count_applied_def)
  moreover have "migrate_files M ?fs (?d1, []) = (Inr (), ?d1, [])"
    using migrate_files_recorded [of ?d1 ?fs ?fs M "[]"] by simp
  ultimately show ?thesis using c assms(1) by (auto simp: RunMigrations_def)
qed

text \<open>The table \<open>customers\<close> is missing and its file counts as applied.\<close>

theorem existing_schema_skips_files_witness:
  "RunMigrations sample_migrator (untouched [''businesses''], [])
   = (Inr (), \<lparr>mg_schema = [''businesses''], mg_table = Some [''001_a.sql'', ''002_b.sql'']\<rparr>, [])"
proof -
  have "mg_businesses sample_migrator [''businesses'']" by (simp add: sample_migrator_def table_migrator_def)
  with existing_schema_skips_files [OF sample_files(1) sample_ok(1), of "untouched [''businesses'']"]
  show ?thesis by (simp only: sample_files) simp
qed

end
