(* ===== verification/Account_Steps.thy ===== *)
theory Account_Steps
  imports Gateway
begin

text \<open>
  What every handler does to the accounts. A relation on the tables that depends on
  businesses, customers and API keys only, and that the six statements which write them
  respect, holds along every step the server can make: only these statements need to be looked at.
\<close>

definition same_accounts :: "db \<Rightarrow> db \<Rightarrow> bool" where
  "same_accounts d d' \<longleftrightarrow> businesses d' = businesses d \<and> customers d' = customers d \<and> api_keys d' = api_keys d"

lemma same_accountsI [intro]:
  "businesses d' = businesses d \<Longrightarrow> customers d' = customers d \<Longrightarrow> api_keys d' = api_keys d \<Longrightarrow> same_accounts d d'"
  by (simp add: same_accounts_def)

locale account_history =
  fixes rt :: runtime and P :: "db \<Rightarrow> db \<Rightarrow> bool"
  assumes P_trans: "P d1 d2 \<Longrightarrow> P d2 d3 \<Longrightarrow> P d1 d3"
    and P_frame: "same_accounts d d' \<Longrightarrow> P d d'"
    and P_new_business: "BusinessRepository_Create rt b t d = Inr (b', d') \<Longrightarrow> P d d'"
    and P_endpoint: "BusinessRepository_UpdateWebhookEndpoint rt i url secret t d = Inr (u, d') \<Longrightarrow> P d d'"
    and P_new_customer: "CustomerRepository_Create rt c t d = Inr (c', d') \<Longrightarrow> P d d'"
    and P_new_key: "key_RevokedAt k = None \<Longrightarrow> APIKeyRepository_Create rt k t d = Inr (k', d') \<Longrightarrow> P d d'"
    and P_revoke: "APIKeyRepository_Revoke rt i at t d = Inr (u, d') \<Longrightarrow> P d d'"
    and P_touch: "APIKeyRepository_TouchLastUsed rt i at t d = Inr (u, d') \<Longrightarrow> P d d'"
begin

definition along :: "'p world \<Rightarrow> 'p world \<Rightarrow> bool" where
  "along w w' \<longleftrightarrow> P (wdb w) (wdb w')"

definition ok_act :: "('p, 'a) act \<Rightarrow> bool" where
  "ok_act m \<longleftrightarrow> (\<forall>w. along w (snd (m w)))"

definition ok_stmt :: "'a stmt \<Rightarrow> bool" where
  "ok_stmt q \<longleftrightarrow> (\<forall>t d a d'. q t d = Inr (a, d') \<longrightarrow> P d d')"

lemma P_refl: "P d d"
  by (rule P_frame) (simp add: same_accounts_def)

lemma along_same: "wdb w' = wdb w \<Longrightarrow> along w w'"
  by (simp add: along_def P_refl)

lemma along_trans: "along u v \<Longrightarrow> along v w \<Longrightarrow> along u w"
  unfolding along_def by (rule P_trans)

subsection \<open>Programs\<close>

lemma ok_Done: "stepwise along (Done a)"
  by (rule stepwise_Done)

lemma ok_bind: "stepwise along m \<Longrightarrow> (\<And>a. stepwise along (k a)) \<Longrightarrow> stepwise along (bindp m k)"
  by (rule stepwise_bind)

lemma ok_bindr: "stepwise along m \<Longrightarrow> (\<And>a. stepwise along (k a)) \<Longrightarrow> stepwise along (bindr m k)"
  unfolding bindr_def by (rule stepwise_bind) (auto split: sum.splits intro: ok_Done)

lemma ok_atom: "ok_act m \<Longrightarrow> stepwise along (atom m)"
  by (rule stepwise_atom) (simp add: ok_act_def)

lemma ok_act_try: "ok_act m \<Longrightarrow> (\<And>a. ok_act (k a)) \<Longrightarrow> ok_act (act_try m k)"
  unfolding ok_act_def act_try_def by (auto simp: case_prod_beta intro: along_trans)

lemma ok_act_bind: "ok_act m \<Longrightarrow> (\<And>a. ok_act (k a)) \<Longrightarrow> ok_act (act_bind m k)"
  unfolding ok_act_def
proof
  fix w assume m: "\<forall>w. along w (snd (m w))" and k: "\<And>a. \<forall>w. along w (snd (k a w))"
  obtain r w1 where r: "m w = (r, w1)" by (cases "m w")
  from m r have 1: "along w w1" by (metis snd_conv)
  show "along w (snd (act_bind m k w))"
    using 1 r k along_trans [OF 1] by (cases r) (simp_all add: act_bind_def)
qed

lemma ok_act_same: "(\<And>w. wdb (snd (m w)) = wdb w) \<Longrightarrow> ok_act m"
  by (simp add: ok_act_def along_same)

lemma ok_exec: "ok_stmt q \<Longrightarrow> ok_act (exec_stmt q)"
  unfolding ok_act_def
proof
  fix w :: "'b world" assume q: "ok_stmt q"
  obtain r w' where x: "exec_stmt q w = (r, w')" by (cases "exec_stmt q w")
  from exec_stmt_db [OF x] q x show "along w (snd (exec_stmt q w))"
    by (auto simp: ok_stmt_def along_def P_refl)
qed

lemma ok_transaction:
  fixes body :: "('p, 'a result) act"
  assumes "ok_act body"
  shows "ok_act (transaction body)"
  unfolding ok_act_def
proof
  fix w :: "'p world"
  obtain r w' where x: "transaction body w = (r, w')" by (cases "transaction body w")
  from x show "along w (snd (transaction body w))"
  proof (cases rule: transaction_db)
    case (unchanged e)
    with x show ?thesis by (simp add: along_same)
  next
    case (committed w0 a w1)
    have "along w0 (snd (body w0))" using assms by (simp add: ok_act_def)
    with committed x show ?thesis by (simp add: along_def)
  qed
qed

lemmas ok_rules = ok_Done ok_bind ok_bindr ok_atom ok_act_try ok_act_bind ok_exec ok_transaction

subsection \<open>Statements\<close>

lemma ok_stmt_frame: "(\<And>t d a d'. q t d = Inr (a, d') \<Longrightarrow> same_accounts d d') \<Longrightarrow> ok_stmt q"
  by (auto simp: ok_stmt_def intro: P_frame)

lemma ok_read: "read_only q \<Longrightarrow> ok_stmt q"
  unfolding ok_stmt_def read_only_def by (metis P_refl)

lemmas ok_reads = account_read_only [THEN ok_read] payment_read_only [THEN ok_read]
  outbox_read_only [THEN ok_read] list_read_only [THEN ok_read]

lemma ok_account_writes:
  "ok_stmt (BusinessRepository_Create rt b)" "ok_stmt (BusinessRepository_UpdateWebhookEndpoint rt i url secret)"
  "ok_stmt (CustomerRepository_Create rt c)" "key_RevokedAt k = None \<Longrightarrow> ok_stmt (APIKeyRepository_Create rt k)"
  "ok_stmt (APIKeyRepository_Revoke rt i at)" "ok_stmt (APIKeyRepository_TouchLastUsed rt i at)"
  unfolding ok_stmt_def
  by (blast intro: P_new_business P_endpoint P_new_customer P_new_key P_revoke P_touch)+

lemma ok_webhook_stmts:
  "ok_stmt (WebhookEventRepository_Create rt' e)" "ok_stmt (WebhookEventRepository_GetByEventID rt' k)"
  "ok_stmt (WebhookEventRepository_MarkFailed rt' k)" "ok_stmt (WebhookEventRepository_MarkProcessed rt' k t)"
  by (rule ok_stmt_frame; auto simp: exec WebhookEventRepository_Create_def WebhookEventRepository_GetByEventID_def
      WebhookEventRepository_MarkFailed_def WebhookEventRepository_MarkProcessed_def split: if_splits)+

lemma ok_outbox_stmts:
  "ok_stmt (OutboundEventRepository_MarkDelivered rt' i t)" "ok_stmt (OutboundEventRepository_MarkRetry rt' i n t e)"
  "ok_stmt (OutboundEventRepository_MarkFailed rt' i n e)" "ok_stmt (OutboundEventRepository_ResetForRedelivery rt' i t)"
  "ok_stmt (OutboundEventRepository_ClaimDue limit t)" "ok_stmt (OutboundEventRepository_Create rt' ev)"
  by (rule ok_stmt_frame; auto simp: outbox_marks exec OutboundEventRepository_ClaimDue_def
      OutboundEventRepository_Create_def Let_def split: if_splits)+

lemma ok_payment_stmts:
  "ok_stmt (InvoiceRepository_Create rt' v)" "ok_stmt (InvoiceRepository_MarkPaidIfOpen rt' i)"
  "ok_stmt (InvoiceRepository_UpdateStatus rt' i st)" "ok_stmt (PaymentAttemptRepository_Create rt' a)"
  "ok_stmt (PaymentAttemptRepository_UpdateStatusIfPending rt' i st' ref code)"
  "ok_stmt (IdempotencyRepository_Create rt' k)"
  by (rule ok_stmt_frame; auto simp: payment_writes exec split: if_splits option.splits)+

lemma ok_clock: "ok_act time_Now" "ok_act (uuid_Next rt')" "ok_act (rand_Next rt')" "ok_act (NewSecret rt')"
  "ok_act (merchant_Do D mreq)" "ok_act (psp_Send S req)" "ok_act (psp_Wait S call)"
  by (rule ok_act_same; auto simp: time_Now_def uuid_Next_def rand_Next_def NewSecret_def act_try_def merchant_Do_def
      psp_Send_def psp_Wait_def split: list.splits prod.splits)+

lemma ok_act_ret: "ok_act (act_ret a)" "ok_act (act_fail e)"
  by (rule ok_act_same; simp add: act_ret_def act_fail_def)+

lemmas ok_intros = ok_rules ok_reads ok_account_writes ok_webhook_stmts ok_outbox_stmts ok_payment_stmts ok_clock
  ok_act_ret

subsection \<open>The payment service\<close>

lemma ok_enqueue: "ok_act (enqueueOutboundEvent rt' a ty)"
  unfolding enqueueOutboundEvent_def by (intro ok_intros)

lemma ok_settle: "ok_act (settleSuccess rt' a ref)"
  unfolding settleSuccess_def by (intro ok_intros ok_enqueue)

lemma ok_persist: "stepwise along (persistSuccess S a ref)" "stepwise along (persistFailure S a code)"
  by (auto simp: persistSuccess_def persistSuccess_body_def persistFailure_def intro!: ok_intros ok_settle ok_enqueue)

lemma ok_chargeAndSettle: "stepwise along (chargeAndSettle S a tok)"
  by (auto simp: chargeAndSettle_def psp_Charge_def split: sum.splits intro!: ok_intros ok_persist)

lemma ok_replay: "stepwise along (replayIdempotentPay S k i tok h)"
  by (auto simp: replayIdempotentPay_def split: option.splits intro!: ok_intros ok_chargeAndSettle)

lemma ok_createPending: "stepwise along (createPendingAttempt S b i key h)"
  unfolding createPendingAttempt_def createPendingAttempt_body_def
  by (auto split: sum.splits option.splits intro!: ok_intros)

lemma ok_PayInvoice: "stepwise along (PayInvoice S b i key tok)"
  by (auto simp: PayInvoice_def Let_def split: sum.splits intro!: ok_intros ok_replay ok_createPending ok_chargeAndSettle)

lemma ok_applyWebhook: "stepwise along (applyWebhook S body)"
  by (auto simp: applyWebhook_def split: sum.splits intro!: ok_intros ok_persist)

lemma ok_processEvent: "stepwise along (processEvent S body e)"
  by (auto simp: processEvent_def split: sum.splits intro!: ok_intros ok_applyWebhook)

lemma ok_ProcessPSPWebhook: "stepwise along (ProcessPSPWebhook S payload e ts sig)"
  by (auto simp: ProcessPSPWebhook_def split: sum.splits option.splits intro!: ok_intros ok_processEvent)

subsection \<open>The other services\<close>

lemma ok_accounts:
  "stepwise along (CreateBusiness rt name)" "stepwise along (CreateCustomer rt b name email)"
  "stepwise along (issueKey rt b nm)" "stepwise along (ListAPIKeys rt b)" "stepwise along (ownedKey rt b i)"
  "stepwise along (GetInvoice rt b i)" "stepwise along (CreateInvoice rt b c cur n)"
  by (auto simp: CreateBusiness_def CreateCustomer_def issueKey_def Let_def ListAPIKeys_def ownedKey_def GetInvoice_def
      CreateInvoice_def split: sum.splits intro!: ok_intros)

lemma ok_keys:
  "stepwise along (CreateAPIKey rt b nm au)" "stepwise along (RevokeAPIKey rt b i)"
  "stepwise along (RotateAPIKey rt b i)"
  by (auto simp: CreateAPIKey_def RevokeAPIKey_def RotateAPIKey_def split: sum.splits intro!: ok_intros ok_accounts)

lemma ok_events:
  "stepwise along (SetEndpoint rt b url)" "stepwise along (GetEvent rt b i)"
  "stepwise along (ListEvents rt b i n)" "stepwise along (GetPaymentAttempt S b i)"
  by (auto simp: SetEndpoint_def Let_def GetEvent_def ListEvents_def GetPaymentAttempt_def split: sum.splits intro!: ok_intros)

lemma ok_Redeliver: "stepwise along (Redeliver rt b i)"
  by (auto simp: Redeliver_def intro!: ok_intros ok_events)

lemma ok_auth:
  "stepwise along (authenticateAPIKey rt h req)" "stepwise along (touchLastUsed rt k)"
  by (auto simp: authenticateAPIKey_def touchLastUsed_def split: sum.splits option.splits intro!: ok_intros)

lemma ok_middleware: "stepwise along (APIKeyAuth rt h)" "stepwise along (OptionalAPIKeyAuth rt h)"
  by (auto simp: APIKeyAuth_def OptionalAPIKeyAuth_def split: sum.splits intro!: ok_intros ok_auth)

subsection \<open>Handlers and routes\<close>

lemma ok_respond: "stepwise along p \<Longrightarrow> stepwise along (respond p e k)"
  by (auto simp: respond_def split: sum.splits intro!: ok_intros)

lemma ok_with_business: "(\<And>b. stepwise along (k b)) \<Longrightarrow> stepwise along (with_business ctx k)"
  by (auto simp: with_business_def split: option.splits intro!: ok_intros)

lemma ok_guarded: "stepwise along a \<Longrightarrow> (\<And>ctx. stepwise along (h ctx)) \<Longrightarrow> stepwise along (guarded a h)"
  by (auto simp: guarded_def split: sum.splits intro!: ok_intros)

lemmas ok_http = ok_intros ok_respond ok_with_business ok_guarded ok_accounts ok_keys ok_events ok_Redeliver ok_middleware

lemma ok_handlers:
  "stepwise along (handle_CreateBusiness rt nm)" "stepwise along (handle_CreateCustomer rt ok body ctx)"
  "stepwise along (handle_CreateAPIKey rt b nm ctx)" "stepwise along (handle_ListAPIKeys rt ctx)"
  "stepwise along (handle_RevokeAPIKey rt i ctx)" "stepwise along (handle_RotateAPIKey rt i ctx)"
  "stepwise along (handle_GetInvoice rt i ctx)" "stepwise along (handle_SetEndpoint rt nm ctx)"
  "stepwise along (handle_GetEvent rt i ctx)" "stepwise along (handle_ListEvents rt i ctx)"
  "stepwise along (RedeliverEvent rt i ctx)" "stepwise along (handle_CreateInvoice rt fs ctx)"
  "stepwise along (handle_GetPaymentAttempt S i ctx)" "stepwise along (handle_PayInvoice S i tok key ctx)"
  "stepwise along (HandlePSPWebhook S payload e ts sig)"
  by (auto simp: handle_CreateBusiness_def handle_CreateCustomer_def handle_CreateAPIKey_def handle_ListAPIKeys_def
      handle_RevokeAPIKey_def handle_RotateAPIKey_def handle_GetInvoice_def handle_SetEndpoint_def handle_GetEvent_def
      handle_ListEvents_def RedeliverEvent_def handle_CreateInvoice_def handle_GetPaymentAttempt_def
      handle_PayInvoice_def HandlePSPWebhook_def Let_def
      split: option.splits intro!: ok_http ok_PayInvoice ok_ProcessPSPWebhook)

lemma ok_route:
  assumes rt: "srv_rt V = rt"
  shows "stepwise along (route V req)"
  unfolding route_def Let_def rt
  by (auto split: Request.split intro!: ok_Done ok_guarded ok_middleware ok_handlers)

lemma ok_recordFailure: "stepwise along (recordFailure D e reason)"
  by (auto simp: recordFailure_def Let_def split: prod.splits intro!: ok_intros)

lemma ok_DispatcherRun: "stepwise along (DispatcherRun D n)"
proof -
  have one: "stepwise along (deliverOne D e)" for e
    by (auto simp: deliverOne_def split: sum.splits option.splits intro!: ok_intros ok_recordFailure)
  have "stepwise along (deliverAll D es)" for es
    by (induction es) (auto intro!: ok_intros one)
  then show ?thesis by (induction n) (auto simp: DeliverDue_def intro!: ok_intros)
qed

lemma ok_handler: "stepwise along p \<Longrightarrow> stepwise along (handler p)"
  unfolding handler_def by (intro ok_bind ok_Done)

lemma ok_arrival:
  assumes "Arrives V w p" and rt: "srv_rt V = rt"
  shows "stepwise along p"
  using assms(1) unfolding Arrives.simps rt
  by (auto intro!: ok_handler ok_route [OF rt] ok_auth ok_DispatcherRun)

subsection \<open>Executions\<close>

definition all_ok :: "('p world, unit) prog list \<Rightarrow> bool" where
  "all_ok ps \<longleftrightarrow> (\<forall>p \<in> set ps. stepwise along p)"

lemma pool_step_along:
  assumes "pool_step (Arrives V) Environment c c'" and "srv_rt V = rt" and "all_ok (fst c)"
  shows "all_ok (fst c') \<and> along (snd c) (snd c')"
  using assms(1)
proof (cases rule: pool_step.cases)
  case (thread i ps f w)
  with assms(3) have "stepwise along (Step f)" by (metis all_ok_def fst_conv nth_mem)
  then have "along w (snd (f w)) \<and> stepwise along (fst (f w))" by (rule stepwise_StepE) blast
  with thread assms(3) show ?thesis
    using set_update_subset_insert [of ps i "fst (f w)"] by (auto simp: all_ok_def)
next
  case (arrival w p ps)
  with assms show ?thesis by (auto simp: all_ok_def along_same intro: ok_arrival)
next
  case (environment w w' ps)
  with assms(3) show ?thesis by (auto simp: along_same dest: environment_keeps)
qed

lemma pool_reach_along:
  assumes "pool_reach (Arrives V) Environment c c'" and "srv_rt V = rt" and "all_ok (fst c)"
  shows "all_ok (fst c') \<and> along (snd c) (snd c')"
  using assms
proof (induction rule: pool_reach.induct)
  case (pool_refl c)
  then show ?case by (simp add: along_same)
next
  case (pool_more c c' c'')
  then show ?case using pool_step_along along_trans by blast
qed

text \<open>From the start on, and from any state of an execution on.\<close>

lemma reach_P:
  assumes "pool_reach (Arrives V) Environment ([], w0) (ps, w)" and "srv_rt V = rt"
    and "pool_reach (Arrives V) Environment (ps, w) (ps', w')"
  shows "P (wdb w0) (wdb w)" and "P (wdb w) (wdb w')"
  using pool_reach_along [OF assms(1,2)] pool_reach_along [OF assms(3,2)] by (auto simp: all_ok_def along_def)

end

end
