(* ===== verification/Account_History.thy ===== *)
theory Account_History
  imports Account_Steps
begin

text \<open>
  The accounts over time: identifiers, key hashes and customer addresses stay unique and refer to
  businesses that exist; an API key is never lost, never moves to another business, and a
  revoked key stays revoked. What follows for authentication is stated over every interleaving
  of the server.
\<close>

definition accounts_ok :: "runtime \<Rightarrow> db \<Rightarrow> bool" where
  "accounts_ok rt d \<longleftrightarrow>
     distinct (map biz_ID (businesses d)) \<and> distinct (map cus_ID (customers d)) \<and>
     distinct (map (\<lambda>c. (cus_BusinessID c, cus_Email c)) (customers d)) \<and>
     distinct (map key_ID (api_keys d)) \<and> distinct (map key_KeyHash (api_keys d)) \<and>
     list_all (\<lambda>c. parse_uuid rt (cus_BusinessID c) = Some (cus_BusinessID c) \<and> business_exists (cus_BusinessID c) d) (customers d) \<and>
     list_all (\<lambda>k. parse_uuid rt (key_BusinessID k) = Some (key_BusinessID k) \<and> business_exists (key_BusinessID k) d) (api_keys d)"

definition key_evolves :: "APIKey \<Rightarrow> APIKey \<Rightarrow> bool" where
  "key_evolves k k' \<longleftrightarrow> key_ID k' = key_ID k \<and> key_BusinessID k' = key_BusinessID k \<and> key_KeyHash k' = key_KeyHash k
     \<and> (key_RevokedAt k \<noteq> None \<longrightarrow> key_RevokedAt k' = key_RevokedAt k)"

definition keys_evolve :: "db \<Rightarrow> db \<Rightarrow> bool" where
  "keys_evolve d d' \<longleftrightarrow> (\<forall>k \<in> set (api_keys d). \<exists>k' \<in> set (api_keys d'). key_evolves k k')"

definition account_step :: "runtime \<Rightarrow> db \<Rightarrow> db \<Rightarrow> bool" where
  "account_step rt d d' \<longleftrightarrow> (uuid_ok rt \<and> accounts_ok rt d \<longrightarrow> accounts_ok rt d' \<and> keys_evolve d d')"

lemma key_evolves_refl: "key_evolves k k"
  by (simp add: key_evolves_def)

lemma key_evolves_trans: "key_evolves a b \<Longrightarrow> key_evolves b c \<Longrightarrow> key_evolves a c"
  by (auto simp: key_evolves_def)

lemma keys_evolve_trans: "keys_evolve a b \<Longrightarrow> keys_evolve b c \<Longrightarrow> keys_evolve a c"
  unfolding keys_evolve_def by (meson key_evolves_trans)

lemma keys_evolve_more: "set (api_keys d) \<subseteq> set (api_keys d') \<Longrightarrow> keys_evolve d d'"
  unfolding keys_evolve_def using key_evolves_refl by blast

lemma business_exists_more:
  "biz_ID ` set (businesses d) \<subseteq> biz_ID ` set (businesses d') \<Longrightarrow> business_exists b d \<Longrightarrow> business_exists b d'"
  unfolding business_exists_def list_ex_iff by (metis imageE image_eqI subsetD)

lemma accounts_step_new_business:
  assumes "BusinessRepository_Create rt b t d = Inr (b', d')"
  shows "account_step rt d d'"
proof -
  from assms have "set (businesses d) \<subseteq> set (businesses d')" "customers d' = customers d" "api_keys d' = api_keys d"
    "accounts_ok rt d \<Longrightarrow> distinct (map biz_ID (businesses d'))"
    by (auto simp: BusinessRepository_Create_def exec business_exists_def accounts_ok_def list_ex_iff split: if_splits)
  moreover from this(1) have "business_exists x d \<Longrightarrow> business_exists x d'" for x
    by (rule business_exists_more [OF image_mono])
  ultimately show ?thesis
    by (auto simp: account_step_def accounts_ok_def list_all_iff intro: keys_evolve_more)
qed

lemma accounts_step_endpoint:
  assumes "BusinessRepository_UpdateWebhookEndpoint rt i url secret t d = Inr (u, d')"
  shows "account_step rt d d'"
proof -
  from assms have "map biz_ID (businesses d') = map biz_ID (businesses d)" "customers d' = customers d" "api_keys d' = api_keys d"
    by (auto simp: BusinessRepository_UpdateWebhookEndpoint_def exec update_where_def)
  moreover from this(1) have "business_exists x d \<Longrightarrow> business_exists x d'" for x
    by (intro business_exists_more [of d d']) (simp_all flip: set_map)
  ultimately show ?thesis
    by (auto simp: account_step_def accounts_ok_def list_all_iff intro: keys_evolve_more)
qed

lemma distinct_map_snoc: "distinct (map f (xs @ [x])) \<longleftrightarrow> distinct (map f xs) \<and> f x \<notin> f ` set xs"
  by auto

lemma accounts_step_new_customer:
  assumes "CustomerRepository_Create rt c t d = Inr (c', d')"
  shows "account_step rt d d'"
proof -
  from assms obtain i b where b: "parse_uuid rt (cus_BusinessID c) = Some b" "business_exists b d"
    and new: "\<forall>r \<in> set (customers d). cus_ID r \<noteq> i"
      "\<forall>r \<in> set (customers d). \<not> (cus_BusinessID r = b \<and> cus_Email r = cus_Email c)"
    and d': "d' = d\<lparr>customers := customers d @ [c\<lparr>cus_ID := i, cus_BusinessID := b, cus_CreatedAt := t\<rparr>]\<rparr>"
    by (auto simp: CustomerRepository_Create_def exec customer_exists_def list_ex_iff split: if_splits)
  have canon: "parse_uuid rt b = Some b" if "uuid_ok rt" by (rule uuid_okD(1) [OF that b(1)])
  have "distinct (map cus_ID (customers d'))" "distinct (map (\<lambda>c. (cus_BusinessID c, cus_Email c)) (customers d'))"
    if "accounts_ok rt d"
    using that new unfolding d' accounts_ok_def by (auto simp: distinct_map_snoc simp del: map_append)
  moreover have "keys_evolve d d'" by (rule keys_evolve_more) (simp add: d')
  ultimately show ?thesis using b(2) canon
    by (simp add: account_step_def) (auto simp: accounts_ok_def d' business_exists_def)
qed

lemma accounts_step_new_key:
  assumes "APIKeyRepository_Create rt k t d = Inr (k', d')"
  shows "account_step rt d d'"
proof -
  from assms obtain i b where b: "parse_uuid rt (key_BusinessID k) = Some b" "business_exists b d"
    and new: "\<forall>r \<in> set (api_keys d). key_ID r \<noteq> i" "\<forall>r \<in> set (api_keys d). key_KeyHash r \<noteq> key_KeyHash k"
    and d': "d' = d\<lparr>api_keys := api_keys d @ [k\<lparr>key_ID := i, key_BusinessID := b, key_CreatedAt := t,
                      key_LastUsedAt := None, key_RevokedAt := None\<rparr>]\<rparr>"
    by (auto simp: APIKeyRepository_Create_def exec list_ex_iff split: if_splits)
  have canon: "parse_uuid rt b = Some b" if "uuid_ok rt" by (rule uuid_okD(1) [OF that b(1)])
  have "distinct (map key_ID (api_keys d'))" "distinct (map key_KeyHash (api_keys d'))" if "accounts_ok rt d"
    using that new unfolding d' accounts_ok_def by (force simp: distinct_map_snoc simp del: map_append)+
  moreover have "keys_evolve d d'" by (rule keys_evolve_more) (auto simp: d')
  ultimately show ?thesis using b(2) canon
    by (simp add: account_step_def) (auto simp: accounts_ok_def d' business_exists_def)
qed

text \<open>Revoking a key and noting its use.\<close>

lemma accounts_step_update_keys:
  assumes "d' = d\<lparr>api_keys := map f (api_keys d)\<rparr>" and f: "\<And>k. key_evolves k (f k)"
  shows "account_step rt d d'"
proof -
  have "key_ID \<circ> f = key_ID" "key_KeyHash \<circ> f = key_KeyHash" "key_BusinessID \<circ> f = key_BusinessID"
    using f by (auto simp: fun_eq_iff key_evolves_def)
  moreover have "keys_evolve d d'" using f by (auto simp: keys_evolve_def assms(1))
  ultimately show ?thesis using f
    by (simp add: account_step_def accounts_ok_def assms(1) business_exists_def list_all_iff key_evolves_def)
qed

lemma accounts_step_revoke:
  assumes "APIKeyRepository_Revoke rt i at t d = Inr (u, d')"
  shows "account_step rt d d'"
proof -
  from assms obtain c where "d' = d\<lparr>api_keys := map (\<lambda>r. if key_ID r = c \<and> key_active r
      then r\<lparr>key_RevokedAt := Some at\<rparr> else r) (api_keys d)\<rparr>"
    by (auto simp: APIKeyRepository_Revoke_def exec update_where_def)
  then show ?thesis by (rule accounts_step_update_keys) (simp add: key_evolves_def key_active_def)
qed

lemma accounts_step_touch:
  assumes "APIKeyRepository_TouchLastUsed rt i at t d = Inr (u, d')"
  shows "account_step rt d d'"
proof -
  from assms obtain c where "d' = d\<lparr>api_keys := map (\<lambda>r. if key_ID r = c
      then r\<lparr>key_LastUsedAt := Some at\<rparr> else r) (api_keys d)\<rparr>"
    by (auto simp: APIKeyRepository_TouchLastUsed_def exec update_where_def)
  then show ?thesis by (rule accounts_step_update_keys) (simp add: key_evolves_def)
qed

interpretation accounts: account_history rt "account_step rt" for rt
proof
  show "account_step rt d1 d2 \<Longrightarrow> account_step rt d2 d3 \<Longrightarrow> account_step rt d1 d3" for d1 d2 d3
    by (auto simp: account_step_def intro: keys_evolve_trans)
  show "same_accounts d d' \<Longrightarrow> account_step rt d d'" for d d'
    by (auto simp: account_step_def same_accounts_def accounts_ok_def business_exists_def intro: keys_evolve_more)
qed (blast intro: accounts_step_new_business accounts_step_endpoint accounts_step_new_customer accounts_step_new_key
    accounts_step_revoke accounts_step_touch)+

end
