(* ===== verification/Account_Safety.thy ===== *)
theory Account_Safety
  imports Account_History Demo
begin

text \<open>
  Authentication over time: what a bearer token gets in any later state of the server, whatever
  happened in between.
\<close>

lemma accounts_ok_empty: "accounts_ok rt empty_db"
  by (simp add: accounts_ok_def empty_db_def)

lemma reach_accounts:
  assumes "uuid_ok (srv_rt V)" and "wdb w0 = empty_db"
    and "pool_reach (Arrives V) Environment ([], w0) (ps, w)"
    and "pool_reach (Arrives V) Environment (ps, w) (ps', w')"
  shows "accounts_ok (srv_rt V) (wdb w)" and "accounts_ok (srv_rt V) (wdb w')" and "keys_evolve (wdb w) (wdb w')"
  using accounts.reach_P [OF assms(3) refl assms(4)] assms(1,2) by (auto simp: account_step_def accounts_ok_empty)

subsection \<open>Looking up a token\<close>

lemma bearer_token_Bearer: "bearer_token (''Bearer '' @ token) = Some token"
  by (simp add: bearer_token_def)

lemmas bearer_token_simp [simp] = bearer_token_Bearer [simplified append.simps]

lemma find_unique:
  assumes "distinct (map f xs)" and "x \<in> set xs" and "P x"
  shows "find (\<lambda>y. f y = f x \<and> P y) xs = Some x"
  using assms by (induction xs) (auto simp: rev_image_eqI)

lemma find_None_unique:
  assumes "distinct (map f xs)" and "x \<in> set xs" and "\<not> P x"
  shows "find (\<lambda>y. f y = f x \<and> P y) xs = None"
  using assms by (auto simp: find_None_iff distinct_map dest: inj_onD)

lemma GetByHash_key:
  assumes "accounts_ok rt d" and "k \<in> set (api_keys d)"
  shows "APIKeyRepository_GetByHash (key_KeyHash k) t d = (if key_active k then Inr (k, d) else Inl NoRows)"
  using find_unique [of key_KeyHash "api_keys d" k key_active] find_None_unique [of key_KeyHash "api_keys d" k key_active] assms
  by (auto simp: APIKeyRepository_GetByHash_def accounts_ok_def scan_row_def)

text \<open>What \<open>APIKeyAuth\<close> answers for the token of a key, in one state.\<close>

lemma APIKeyAuth_key:
  assumes "accounts_ok rt (wdb w)" and "k \<in> set (api_keys (wdb w))" and "sha256_hex rt token = key_KeyHash k"
  shows "fst (run (APIKeyAuth rt (''Bearer '' @ token)) w) = Inl ''invalid API key''
       \<or> key_active k \<and> fst (run (APIKeyAuth rt (''Bearer '' @ token)) w) = Inr (Some (key_BusinessID k, key_ID k))"
    and "no_faults w \<Longrightarrow> key_active k \<Longrightarrow>
       fst (run (APIKeyAuth rt (''Bearer '' @ token)) w) = Inr (Some (key_BusinessID k, key_ID k))"
proof -
  obtain r w' where x: "exec_stmt (APIKeyRepository_GetByHash (sha256_hex rt token)) w = (r, w')"
    by (cases "exec_stmt (APIKeyRepository_GetByHash (sha256_hex rt token)) w")
  have run: "fst (run (APIKeyAuth rt (''Bearer '' @ token)) w)
      = (case r of Inl _ \<Rightarrow> Inl ''invalid API key'' | Inr a \<Rightarrow> Inr (Some (key_BusinessID a, key_ID a)))"
    using x by (simp add: APIKeyAuth_def authenticateAPIKey_def key_context_def split: sum.split)
  note q = GetByHash_key [OF assms(1,2)]
  have "key_active k \<and> a = k" if "r = Inr a" for a
    using exec_stmt_Inr [OF x [unfolded that]] q by (auto simp: assms(3) split: if_splits)
  with run show "fst (run (APIKeyAuth rt (''Bearer '' @ token)) w) = Inl ''invalid API key''
       \<or> key_active k \<and> fst (run (APIKeyAuth rt (''Bearer '' @ token)) w) = Inr (Some (key_BusinessID k, key_ID k))"
    by (cases r) auto
  assume "no_faults w" and "key_active k"
  with x q have "r = Inr k" by (simp add: exec assms(3))
  with run show "fst (run (APIKeyAuth rt (''Bearer '' @ token)) w) = Inr (Some (key_BusinessID k, key_ID k))" by simp
qed

subsection \<open>A new key\<close>

lemma issueKey_row:
  assumes "run (issueKey rt b nm) w = (Inr (raw, k), w')" and "uuid_ok rt"
  shows "\<exists>r \<in> set (api_keys (wdb w')). key_KeyHash r = sha256_hex rt raw \<and> key_active r \<and> key_ID r = key_ID k
    \<and> parse_uuid rt (key_BusinessID k) = Some (key_BusinessID r)"
proof -
  from assms(1) obtain key w2 where x: "exec_stmt (APIKeyRepository_Create rt key) w2 = (Inr k, w')"
    and key: "key_KeyHash key = sha256_hex rt raw" "\<exists>n. key_ID key = uuid_New rt n"
    by (force simp: issueKey_def Let_def uuid_Next_def split: prod.splits sum.splits)
  from exec_stmt_Inr [OF x] key uuid_okD(2) [OF assms(2)] show ?thesis
    by (auto simp: APIKeyRepository_Create_def exec key_active_def split: if_splits dest!: sym [of _ "wdb w'"])
qed

lemma CreateAPIKey_row:
  assumes "run (CreateAPIKey rt b nm au) w = (Inr (raw, k), w')" and "uuid_ok rt"
  shows "\<exists>r \<in> set (api_keys (wdb w')). key_KeyHash r = sha256_hex rt raw \<and> key_active r \<and> key_ID r = key_ID k
    \<and> parse_uuid rt (key_BusinessID k) = Some (key_BusinessID r)"
  using assms(1)
  by (auto simp: CreateAPIKey_def split: prod.splits sum.splits if_splits dest: issueKey_row [OF _ assms(2)])

lemma PostAPIKeys_row:
  assumes "run (route V (PostAPIKeys h b nm)) w = ((201, BodyNewKey raw k), w')" and "uuid_ok (srv_rt V)"
  shows "\<exists>r \<in> set (api_keys (wdb w')). key_KeyHash r = sha256_hex (srv_rt V) raw \<and> key_active r \<and> key_ID r = key_ID k
    \<and> parse_uuid (srv_rt V) (key_BusinessID k) = Some (key_BusinessID r)"
proof -
  from assms(1) obtain b' au w1 where "run (CreateAPIKey (srv_rt V) b' nm au) w1 = (Inr (raw, k), w')"
    by (force simp: route_def guarded_def handle_CreateAPIKey_def respond_def Let_def writeAPIKeyError_def responses
        split: prod.splits sum.splits if_splits)
  then show ?thesis by (rule CreateAPIKey_row [OF _ assms(2)])
qed

text \<open>
  Without authentication a key is issued whenever the business has no active one, also when it
  had keys and all are revoked.
\<close>

lemma bootstrap_when_all_revoked:
  assumes "no_faults w" and "parse_uuid rt b = Some c" and "business_exists c (wdb w)"
    and "\<forall>k \<in> set (api_keys (wdb w)). key_BusinessID k = c \<longrightarrow> \<not> key_active k"
  shows "run (CreateAPIKey rt b nm False) w = run (issueKey rt b nm) w"
proof -
  have "filter (\<lambda>r. key_BusinessID r = c \<and> key_active r) (api_keys (wdb w)) = []"
    using assms(4) by (auto simp: filter_empty_conv)
  with assms(1-3) show ?thesis
    by (simp add: CreateAPIKey_def exec BusinessRepository_Exists_def APIKeyRepository_CountActive_def)
qed

subsection \<open>The properties\<close>

text \<open>
  C8. An API key stands for its business only, and revocation is final: in every state after one in which the
  key is in the table, whatever requests, crashes and lost statements come between, its token is either refused or
  authenticates as the key's business, the latter only if the key was not revoked before.
\<close>

theorem key_stands_for_its_business:
  assumes "uuid_ok (srv_rt V)" and "wdb w0 = empty_db"
    and "pool_reach (Arrives V) Environment ([], w0) (ps, w)"
    and "pool_reach (Arrives V) Environment (ps, w) (ps', w')"
    and "k \<in> set (api_keys (wdb w))" and "sha256_hex (srv_rt V) token = key_KeyHash k"
  shows "fst (run (APIKeyAuth (srv_rt V) (''Bearer '' @ token)) w') = Inl ''invalid API key''
    \<or> key_RevokedAt k = None
      \<and> fst (run (APIKeyAuth (srv_rt V) (''Bearer '' @ token)) w') = Inr (Some (key_BusinessID k, key_ID k))"
proof -
  note r = reach_accounts [OF assms(1-4)]
  from r(3) assms(5) obtain k' where k': "k' \<in> set (api_keys (wdb w'))" "key_evolves k k'"
    by (auto simp: keys_evolve_def)
  with APIKeyAuth_key(1) [OF r(2) k'(1), of token] assms(6) show ?thesis
    by (auto simp: key_evolves_def key_active_def)
qed

text \<open>
  C36. A key that is issued works: the secret in the answer to POST /api-keys authenticates as the business the
  key was made for, under the identifier in the answer.
\<close>

theorem issued_key_authenticates:
  assumes "uuid_ok (srv_rt V)" and "wdb w0 = empty_db"
    and "pool_reach (Arrives V) Environment ([], w0) (ps, w)"
    and "run (route V (PostAPIKeys h b nm)) w = ((201, BodyNewKey raw k), w')" and "no_faults w'"
  shows "\<exists>c. parse_uuid (srv_rt V) (key_BusinessID k) = Some c
    \<and> fst (run (APIKeyAuth (srv_rt V) (''Bearer '' @ raw)) w') = Inr (Some (c, key_ID k))"
proof -
  obtain ps' where "pool_reach (Arrives V) Environment (ps, w) (ps', w')"
    using serve_step [of V ps w "PostAPIKeys h b nm"] assms(4) by auto
  from reach_accounts(2) [OF assms(1-3) this] have ok: "accounts_ok (srv_rt V) (wdb w')" .
  from PostAPIKeys_row [OF assms(4,1)] obtain r where "r \<in> set (api_keys (wdb w'))"
    "sha256_hex (srv_rt V) raw = key_KeyHash r" "key_active r" "key_ID r = key_ID k"
    "parse_uuid (srv_rt V) (key_BusinessID k) = Some (key_BusinessID r)" by auto
  with APIKeyAuth_key(2) [OF ok this(1,2) assms(5)] show ?thesis by simp
qed

subsection \<open>Examples\<close>

text \<open>A business revokes its only key and, without authentication, gets another one.\<close>

definition demo_revoked :: "nat world" where
  "demo_revoked = snd (serve demo_server
     [PostBusinesses (Some ''shop''), PostAPIKeys [] ''u0'' None, PostRevoke ''Bearer dodo_live_rand1'' ''u1''] demo_start)"

definition demo_renewed :: "nat world" where
  "demo_renewed = snd (serve demo_server [PostAPIKeys [] ''u0'' None] demo_revoked)"

lemma demo_reach: "\<exists>ps. pool_reach (Arrives demo_server) Environment ([], demo_start) (ps, demo_revoked)"
  unfolding demo_revoked_def by (rule serve_reach)

lemma demo_reach_on:
  "\<exists>ps'. pool_reach (Arrives demo_server) Environment (ps, demo_revoked) (ps', demo_renewed)"
  unfolding demo_renewed_def by (rule serve_reach)

lemma demo_start_ok [simp]: "uuid_ok (srv_rt demo_server)" "wdb demo_start = empty_db" "srv_rt demo_server = demo_rt"
  by (simp_all add: demo_server_def demo_uuid_ok demo_start_def)

theorem key_stands_for_its_business_witness:
  "fst (run (APIKeyAuth demo_rt ''Bearer dodo_live_rand1'') demo_renewed) = Inl ''invalid API key''"
proof -
  obtain ps where r1: "pool_reach (Arrives demo_server) Environment ([], demo_start) (ps, demo_revoked)"
    using demo_reach by blast
  obtain ps' where r2: "pool_reach (Arrives demo_server) Environment (ps, demo_revoked) (ps', demo_renewed)"
    using demo_reach_on by blast
  have "map (\<lambda>k. (key_KeyHash k, key_RevokedAt k)) (api_keys (wdb demo_revoked)) = [(''dodo_live_rand1'', Some 0)]"
    by code_simp
  then obtain k where k: "k \<in> set (api_keys (wdb demo_revoked))" "key_KeyHash k = ''dodo_live_rand1''" "key_RevokedAt k = Some 0"
    by auto
  from key_stands_for_its_business [OF demo_start_ok(1,2) r1 r2 k(1), of "''dodo_live_rand1''"] k show ?thesis
    by simp
qed

theorem issued_key_authenticates_witness:
  "fst (run (APIKeyAuth demo_rt ''Bearer dodo_live_rand2'') demo_renewed) = Inr (Some (''u0'', ''u2''))"
proof -
  obtain ps where r: "pool_reach (Arrives demo_server) Environment ([], demo_start) (ps, demo_revoked)"
    using demo_reach by blast
  have "fst (run (route demo_server (PostAPIKeys [] ''u0'' None)) demo_revoked)
      = (201, BodyNewKey ''dodo_live_rand2'' \<lparr>key_ID = ''u2'', key_BusinessID = ''u0'', key_Name = None,
         key_KeyPrefix = ''dodo_live_rand2'', key_KeyHash = ''dodo_live_rand2'', key_CreatedAt = 0, key_LastUsedAt = None,
         key_RevokedAt = None\<rparr>)"
    by code_simp
  moreover have "snd (run (route demo_server (PostAPIKeys [] ''u0'' None)) demo_revoked) = demo_renewed"
    by (simp add: demo_renewed_def split: prod.split)
  ultimately have x: "run (route demo_server (PostAPIKeys [] ''u0'' None)) demo_revoked
      = ((201, BodyNewKey ''dodo_live_rand2'' \<lparr>key_ID = ''u2'', key_BusinessID = ''u0'', key_Name = None,
         key_KeyPrefix = ''dodo_live_rand2'', key_KeyHash = ''dodo_live_rand2'', key_CreatedAt = 0, key_LastUsedAt = None,
         key_RevokedAt = None\<rparr>), demo_renewed)"
    by (metis prod.collapse)
  have f: "no_faults demo_renewed" by code_simp
  show ?thesis
    using issued_key_authenticates [OF demo_start_ok(1,2) r x f] by (simp add: demo_parse_def)
qed

end
