(* ===== verification/Tenants.thy ===== *)
theory Tenants
  imports Account_Safety
begin

text \<open>
  Tenant isolation: a request with the API key of a business is answered with data of this
  business only, under every interleaving with other requests. \<open>yields\<close> is what a program can
  finish with, whatever the others do; for the payment service, whose answer depends on
  the tables, the guarantee of \<open>PayInvoice\<close> is strengthened by the business of the attempt.
\<close>

subsection \<open>Guarantees with more relations and with results\<close>

lemma guar_relation:
  assumes "guar I R Q p w" and "stepwise P p" and "\<And>u v. P u v \<Longrightarrow> I u \<Longrightarrow> J u \<Longrightarrow> J v"
  shows "guar (\<lambda>w. I w \<and> J w) (\<lambda>u v. R u v \<and> P u v) Q p w"
  using assms(1,2)
proof (induction rule: guar.induct)
  case (guar_Done w a)
  then show ?case by (auto intro: guar.guar_Done)
next
  case (guar_Step w f)
  from guar_Step.prems have p: "P u (snd (f u)) \<and> stepwise P (fst (f u))" for u
    by (rule stepwise_StepE) blast
  show ?case
    by (rule guar.guar_Step) (use guar_Step.IH p assms(3) in blast)
qed

lemma guar_yields:
  assumes "guar I R Q p w" and "yields Q' p"
  shows "guar I R (\<lambda>a w. Q a w \<and> Q' a) p w"
  using assms
proof (induction rule: guar.induct)
  case (guar_Done w a)
  then show ?case by (auto intro!: guar.guar_Done elim: yields_DoneE)
next
  case (guar_Step w f)
  from guar_Step.prems have "yields Q' (fst (f u))" for u by (rule yields_StepE) blast
  with guar_Step.IH show ?case by (intro guar.guar_Step) blast
qed

subsection \<open>The attempt that \<open>PayInvoice\<close> returns\<close>

lemma transaction_value:
  assumes "fst (transaction body w) = Inr a"
  shows "\<exists>w0 w1. body w0 = (Inr a, w1)"
proof -
  from assms obtain w' where "transaction body w = (Inr a, w')" by (metis prod.collapse)
  then show ?thesis by (cases rule: transaction_db) auto
qed

lemma settleSuccess_value: "settleSuccess rt a ref w = (Inr r, w') \<Longrightarrow> att_ID r = att_ID a"
  by (auto simp: settleSuccess_def act_bind_def act_ret_def succeeded_attempt_def split: prod.splits sum.splits)

lemma persistSuccess_value:
  assumes "persistSuccess_body rt a ref w = (Inr r, w')" and "parse_uuid rt (att_ID a) = Some (att_ID a)"
  shows "att_ID r = att_ID a"
  using assms
  by (auto simp: persistSuccess_body_def act_bind_def act_ret_def split: prod.splits sum.splits if_splits
      dest!: settleSuccess_value exec_stmt_Inr attempt_GetByID_value)

lemma gives_persist:
  assumes "parse_uuid (svc_rt S) (att_ID a) = Some (att_ID a)"
  shows "gives (\<lambda>r. att_ID r = att_ID a) (persistSuccess S a ref)" "gives (\<lambda>r. att_ID r = att_ID a) (persistFailure S a code)"
proof -
  show "gives (\<lambda>r. att_ID r = att_ID a) (persistSuccess S a ref)"
    unfolding persistSuccess_def
    by (rule yields_atom) (auto dest!: transaction_value persistSuccess_value [OF _ assms])
  show "gives (\<lambda>r. att_ID r = att_ID a) (persistFailure S a code)"
    unfolding persistFailure_def
    by (rule gives_bindr [OF gives_any])
      (auto simp: failed_attempt_def assms dest!: attempt_GetByID_value intro!: gives_exec gives_bindr [OF gives_any] yields_Done)
qed

lemma gives_chargeAndSettle:
  "parse_uuid (svc_rt S) (att_ID a) = Some (att_ID a) \<Longrightarrow> gives (\<lambda>r. att_ID r = att_ID a) (chargeAndSettle S a tok)"
  by (auto simp: chargeAndSettle_def split: sum.splits intro!: yields_bind [OF yields_any] yields_Done gives_persist)

text \<open>Rows with the same identifier are the same, so a result with the identifier of a held attempt has its business.\<close>

lemma known_held_business:
  assumes "pay_inv rt d" and "known r d" and "held a d" and "att_ID r = att_ID a"
  shows "att_BusinessID r = att_BusinessID a"
proof -
  from assms(2) obtain x where x: "x \<in> set (payment_attempts d)" "same_attempt r x" by (auto simp: known_def)
  from assms(3) obtain y where y: "y \<in> set (payment_attempts d)" "same_attempt a y" by (auto simp: held_def copy_of_def)
  have "att_ID x = att_ID y" using x y assms(4) by (simp add: same_attempt_def)
  moreover have "distinct (map att_ID (payment_attempts d))" using assms(1) by (simp add: pay_inv_def ids_ok_def)
  ultimately have "x = y" using x(1) y(1) by (metis distinct_map inj_onD)
  with x y show ?thesis by (simp add: same_attempt_def)
qed

abbreviation of_business :: "string \<Rightarrow> PaymentAttempt \<Rightarrow> db \<Rightarrow> bool" where
  "of_business b a d \<equiv> known a d \<and> att_BusinessID a = b"

lemma lasting_of_business: "lasting (of_business b)"
  by (auto simp: lasting_def intro: known_evolves)

lemma keeps_charge_business:
  assumes "held a (wdb w)" and "pay_I (svc_rt S) w"
  shows "keeps (svc_rt S) (on_success (of_business (att_BusinessID a))) (chargeAndSettle S a tok) w"
proof -
  have "parse_uuid (svc_rt S) (att_ID a) = Some (att_ID a)"
    by (rule held_canonical(1) [OF _ assms(1)]) (use assms(2) in \<open>simp add: pay_I_def\<close>)
  from guar_yields [OF keeps_chargeAndSettle [OF assms, unfolded keeps_def] gives_chargeAndSettle [OF this]]
  have "guar (pay_I (svc_rt S)) pay_R (\<lambda>r w. on_success known r (wdb w) \<and> (\<forall>x. r = Inr x \<longrightarrow> att_ID x = att_ID a))
      (chargeAndSettle S a tok) w" .
  then show ?thesis
    unfolding keeps_def
  proof (rule payment.guar_mono)
    fix r w' assume R: "pay_R w w'" and I: "pay_I (svc_rt S) w'"
      and r: "on_success known r (wdb w') \<and> (\<forall>x. r = Inr x \<longrightarrow> att_ID x = att_ID a)"
    have h: "held a (wdb w')" by (rule held_evolves [OF assms(1)]) (use R in \<open>simp add: pay_R_def\<close>)
    have i: "pay_inv (svc_rt S) (wdb w')" using I by (simp add: pay_I_def)
    show "on_success (of_business (att_BusinessID a)) r (wdb w')"
    proof (cases r)
      case (Inr x)
      with r have x: "known x (wdb w')" "att_ID x = att_ID a" by simp_all
      from known_held_business [OF i x(1) h x(2)] x(1) Inr show ?thesis by simp
    qed simp
  qed
qed

text \<open>The attempt that a key stands for, while the tables evolve.\<close>

definition key_attempt :: "string \<Rightarrow> IdempotencyKey \<Rightarrow> db \<Rightarrow> bool" where
  "key_attempt b k d \<longleftrightarrow> (\<exists>x \<in> set (payment_attempts d). ik_PaymentAttemptID k = Some (att_ID x) \<and> att_BusinessID x = b)"

lemma lasting_key_attempt: "lasting (key_attempt b)"
  unfolding lasting_def
proof (intro allI impI)
  fix k d d' assume "key_attempt b k d" and e: "evolves d d'"
  then obtain x where x: "x \<in> set (payment_attempts d)" "ik_PaymentAttemptID k = Some (att_ID x)" "att_BusinessID x = b"
    by (auto simp: key_attempt_def)
  from e x(1) obtain y where "y \<in> set (payment_attempts d')" "attempt_evolves x y" by (rule evolves_attempt)
  with x(2,3) show "key_attempt b k d'" unfolding key_attempt_def attempt_evolves_def same_attempt_def by metis
qed

lemma keeps_getKey:
  assumes "parse_uuid rt b = Some b"
  shows "keeps rt (on_success (key_attempt b)) (atom (exec_stmt (IdempotencyRepository_GetByKey rt b key))) w"
proof (rule keeps_read [OF payment_read_only(5) lasting_key_attempt])
  fix w' :: "'a world" and k w''
  assume i: "pay_inv rt (wdb w')" and x: "exec_stmt (IdempotencyRepository_GetByKey rt b key) w' = (Inr k, w'')"
  from exec_stmt_Inr [OF x] assms have "k \<in> set (idempotency_keys (wdb w'))" "ik_BusinessID k = b"
    by (auto simp: IdempotencyRepository_GetByKey_def exec find_Some_iff split: option.splits)
  with pay_invD(5) [OF i] show "key_attempt b k (wdb w')"
    by (force simp: keys_ok_def key_attempt_def key_of_def)
qed

lemma keeps_replay_business:
  assumes "key_attempt b k (wdb w)" and "pay_I (svc_rt S) w"
  shows "keeps (svc_rt S) (on_success (of_business b)) (replayIdempotentPay S k i tok h) w"
proof -
  have read: "keeps (svc_rt S) (on_success (\<lambda>a d. held a d \<and> att_BusinessID a = b))
      (atom (exec_stmt (PaymentAttemptRepository_GetByID (svc_rt S) x))) w"
    if x: "ik_PaymentAttemptID k = Some x" for x
  proof -
    have "gives (\<lambda>a. parse_uuid (svc_rt S) x = Some (att_ID a)) (atom (exec_stmt (PaymentAttemptRepository_GetByID (svc_rt S) x)))"
      by (rule gives_exec) (rule attempt_GetByID_value)
    from guar_yields [OF keeps_GetByID [unfolded keeps_def] this] show ?thesis
      unfolding keeps_def
    proof (rule payment.guar_mono)
      fix r w' assume R: "pay_R w w'" and I: "pay_I (svc_rt S) w'"
        and r: "on_success held r (wdb w') \<and> (\<forall>a. r = Inr a \<longrightarrow> parse_uuid (svc_rt S) x = Some (att_ID a))"
      have "key_attempt b k (wdb w')" using assms(1) R lasting_key_attempt by (auto simp: lasting_def pay_R_def)
      then obtain y where y: "y \<in> set (payment_attempts (wdb w'))" "x = att_ID y" "att_BusinessID y = b"
        using x by (auto simp: key_attempt_def)
      have i: "pay_inv (svc_rt S) (wdb w')" using I by (simp add: pay_I_def)
      from held_row [OF i y(1)] have hy: "held y (wdb w')" .
      show "on_success (\<lambda>a d. held a d \<and> att_BusinessID a = b) r (wdb w')"
      proof (cases r)
        case (Inr a)
        with r have a: "held a (wdb w')" "parse_uuid (svc_rt S) x = Some (att_ID a)" by simp_all
        with held_canonical(1) [OF i hy] y(2) have "att_ID a = att_ID y" by simp
        from known_held_business [OF i held_known [OF a(1)] hy this] y(3) a(1) Inr show ?thesis by simp
      qed simp
    qed
  qed
  have again: "keeps (svc_rt S) (on_success (of_business b))
      (bindr (atom (exec_stmt (PaymentAttemptRepository_GetByID (svc_rt S) x)))
        (\<lambda>attempt. if att_Status attempt \<noteq> PaymentAttemptStatusPending then Done (Inr attempt)
                    else chargeAndSettle S attempt tok)) w" if "ik_PaymentAttemptID k = Some x" for x
    by (rule keeps_bindr [OF read [OF that] assms(2) lasting_of_business])
      (use keeps_charge_business in \<open>auto intro!: keeps_Done lasting_on_success lasting_of_business held_known\<close>)
  show ?thesis
    unfolding replayIdempotentPay_def using again
    by (auto split: option.splits intro!: keeps_fail lasting_of_business)
qed

lemma keeps_PayInvoice_business:
  assumes rt: "uuid_ok (svc_rt S)" and I: "pay_I (svc_rt S) w" and b: "parse_uuid (svc_rt S) b = Some b"
  shows "keeps (svc_rt S) (on_success (of_business b)) (PayInvoice S b i key tok) w"
proof -
  let ?get = "atom (exec_stmt (IdempotencyRepository_GetByKey (svc_rt S) b key))"
  have charge: "keeps (svc_rt S) (on_success (of_business b)) (chargeAndSettle S a tok) w'"
    if "held a (wdb w') \<and> att_BusinessID a = b" "pay_I (svc_rt S) w'" for a w'
    using keeps_charge_business [of a w' S tok] that by auto
  have again: "keeps (svc_rt S) (on_success (of_business b)) (bindr ?get (\<lambda>k. replayIdempotentPay S k i tok h)) w'"
    if "pay_I (svc_rt S) w'" for w' h
    by (rule keeps_bindr [OF keeps_getKey [OF b] that lasting_of_business]) (rule keeps_replay_business)
  have create: "keeps (svc_rt S) (on_success (of_business b))
      (bindp (createPendingAttempt S b i key h) (\<lambda>created. case created of
         Inl e \<Rightarrow> if e \<in> set pay_errors then Done (Inl e)
           else if isUniqueViolation e then bindr ?get (\<lambda>k. replayIdempotentPay S k i tok h)
           else Done (Inl e)
       | Inr attempt \<Rightarrow> chargeAndSettle S attempt tok)) w'"
    if "pay_I (svc_rt S) w'" for w' h
    by (rule keeps_bind [OF keeps_create_business [OF rt] that])
      (auto split: sum.splits intro!: keeps_fail lasting_of_business again charge)
  show ?thesis
    unfolding PayInvoice_def Let_def
    by (rule keeps_bind [OF keeps_getKey [OF b] I])
      (auto split: sum.splits intro!: keeps_fail lasting_of_business keeps_replay_business create)
qed

end
