(* ===== verification/Tenant_Isolation.thy ===== *)
theory Tenant_Isolation
  imports Tenants
begin

text \<open>
  The routes behind an API key answer with rows of the key's business only.
\<close>

subsection \<open>What an answer may contain\<close>

text \<open>
  The answers that carry no rows of a business are not among the ones an authenticated
  route may give; the endpoint answer has only the URL and secret just set.
\<close>

fun only_of :: "string \<Rightarrow> Body \<Rightarrow> bool" where
  "only_of b (BodyError _) = True"
| "only_of b (BodyCustomer c) = (cus_BusinessID c = b)"
| "only_of b (BodyInvoice v) = (inv_BusinessID v = b)"
| "only_of b (BodyAttempt a) = (att_BusinessID a = b)"
| "only_of b (BodyNewKey _ k) = (key_BusinessID k = b)"
| "only_of b (BodyKeys ks) = list_all (\<lambda>k. key_BusinessID k = b) ks"
| "only_of b (BodyKey k) = (key_BusinessID k = b)"
| "only_of b (BodyRotated _ new old) = (key_BusinessID new = b \<and> key_BusinessID old = b)"
| "only_of b (BodyEvent e) = (evt_BusinessID e = b)"
| "only_of b (BodyEvents es) = list_all (\<lambda>e. evt_BusinessID e = b) es"
| "only_of b _ = False"

text \<open>The authorization header of the routes that answer with rows.\<close>

definition authorization :: "Request \<Rightarrow> string option" where
  "authorization req = (case req of
     PostCustomers h _ \<Rightarrow> Some h | PostAPIKeys h _ _ \<Rightarrow> Some h | GetAPIKeys h \<Rightarrow> Some h | PostRevoke h _ \<Rightarrow> Some h
   | PostRotate h _ \<Rightarrow> Some h | PostInvoices h _ \<Rightarrow> Some h | GetInvoices h _ \<Rightarrow> Some h | PostPay h _ _ _ \<Rightarrow> Some h
   | GetPaymentAttempts h _ \<Rightarrow> Some h | GetEventList h _ \<Rightarrow> Some h | GetEvents h _ \<Rightarrow> Some h
   | PostRedeliver h _ \<Rightarrow> Some h | _ \<Rightarrow> None)"

subsection \<open>The services\<close>

lemma gives_CreateCustomer: "gives (\<lambda>c. cus_BusinessID c = b) (CreateCustomer rt b nm email)"
  unfolding CreateCustomer_def
  by (auto simp: CustomerRepository_Create_def exec split: if_splits
      intro!: gives_bindr [OF gives_any] yields_bind [OF yields_any] yields_Done gives_exec)

lemma gives_CreateInvoice: "gives (\<lambda>v. inv_BusinessID v = b) (CreateInvoice rt b c cur n)"
  unfolding CreateInvoice_def Let_def
  by (auto simp: InvoiceRepository_Create_def exec split: if_splits sum.splits
      intro!: gives_bindr [OF gives_any] yields_bind [OF yields_any] yields_Done gives_exec)

lemma gives_GetInvoice: "gives (\<lambda>v. inv_BusinessID v = b) (GetInvoice rt b i)"
  unfolding GetInvoice_def by (auto split: sum.splits intro!: yields_bind [OF yields_any] yields_Done)

lemma gives_GetPaymentAttempt: "gives (\<lambda>a. att_BusinessID a = b) (GetPaymentAttempt S b i)"
  unfolding GetPaymentAttempt_def by (auto split: sum.splits intro!: yields_bind [OF yields_any] yields_Done)

lemma gives_GetEvent: "gives (\<lambda>e. evt_BusinessID e = b) (GetEvent rt b i)"
  unfolding GetEvent_def by (auto split: sum.splits intro!: yields_bind [OF yields_any] yields_Done)

lemma gives_Redeliver: "gives (\<lambda>e. evt_BusinessID e = b) (Redeliver rt b i)"
  unfolding Redeliver_def
  by (auto intro!: gives_bindr [OF gives_any] yields_bind [OF yields_any] gives_GetEvent)

lemma gives_ListEvents:
  "parse_uuid rt b = Some b \<Longrightarrow> gives (list_all (\<lambda>e. evt_BusinessID e = b)) (ListEvents rt b i n)"
  unfolding ListEvents_def Let_def
  by (rule gives_exec) (auto simp: OutboundEventRepository_ListByBusiness_def Let_def exec list_all_iff
      dest!: in_set_takeD split: option.splits if_splits)

lemma gives_newKey: "key_BusinessID k = b \<Longrightarrow> gives (\<lambda>k'. key_BusinessID k' = b) (atom (exec_stmt (APIKeyRepository_Create rt k)))"
  by (rule gives_exec) (auto simp: APIKeyRepository_Create_def exec split: if_splits)

lemma gives_Done: "Q a \<Longrightarrow> gives Q (Done (Inr a))" and gives_fail: "gives Q (Done (Inl e))"
  by (auto intro: yields_Done)

lemma gives_if: "(c \<Longrightarrow> gives Q p) \<Longrightarrow> (\<not> c \<Longrightarrow> gives Q q) \<Longrightarrow> gives Q (if c then p else q)"
  by simp

lemma gives_issueKey: "gives (\<lambda>r. key_BusinessID (snd r) = b) (issueKey rt b nm)"
  unfolding issueKey_def Let_def
  by (rule yields_bind [OF yields_any], rule yields_bind [OF yields_any], rule gives_bindr [OF gives_newKey], simp)
    (rule gives_Done, simp)

lemma gives_CreateAPIKey: "gives (\<lambda>r. key_BusinessID (snd r) = b) (CreateAPIKey rt b nm au)"
  unfolding CreateAPIKey_def
  by (intro gives_bindr [OF gives_any] gives_if gives_issueKey gives_fail)

lemma gives_ListAPIKeys: "parse_uuid rt b = Some b \<Longrightarrow> gives (list_all (\<lambda>k. key_BusinessID k = b)) (ListAPIKeys rt b)"
  unfolding ListAPIKeys_def
  by (rule gives_exec) (auto simp: APIKeyRepository_ListByBusiness_def exec list_all_iff)

lemma gives_ownedKey: "gives (\<lambda>k. key_BusinessID k = b) (ownedKey rt b i)"
  unfolding ownedKey_def by (auto split: sum.splits intro!: yields_bind [OF yields_any] yields_Done)

lemma gives_RevokeAPIKey: "gives (\<lambda>k. key_BusinessID k = b) (RevokeAPIKey rt b i)"
  unfolding RevokeAPIKey_def
  by (rule gives_bindr [OF gives_ownedKey])
    (auto intro!: gives_if gives_fail yields_bind [OF yields_any] gives_bindr [OF gives_any] gives_Done)

lemma gives_RotateAPIKey:
  "gives (\<lambda>r. key_BusinessID (fst (snd r)) = b \<and> key_BusinessID (snd (snd r)) = b) (RotateAPIKey rt b i)"
  unfolding RotateAPIKey_def
proof (rule gives_bindr [OF gives_ownedKey], intro gives_if gives_fail)
  fix old assume old: "key_BusinessID old = b"
  show "gives (\<lambda>r. key_BusinessID (fst (snd r)) = b \<and> key_BusinessID (snd (snd r)) = b)
      (bindr (issueKey rt b (key_Name old)) (\<lambda>(rawKey, newKey). bindp (atom time_Now) (\<lambda>now.
        bindr (atom (exec_stmt (APIKeyRepository_Revoke rt (key_ID old) now))) (\<lambda>_.
          Done (Inr (rawKey, newKey, old\<lparr>key_RevokedAt := Some now\<rparr>))))))"
  proof (rule gives_bindr [OF gives_issueKey], unfold case_prod_beta)
    fix r assume "key_BusinessID (snd r) = b"
    with old show "gives (\<lambda>r. key_BusinessID (fst (snd r)) = b \<and> key_BusinessID (snd (snd r)) = b)
        (bindp (atom time_Now) (\<lambda>now. bindr (atom (exec_stmt (APIKeyRepository_Revoke rt (key_ID old) now))) (\<lambda>_.
          Done (Inr (fst r, snd r, old\<lparr>key_RevokedAt := Some now\<rparr>)))))"
      by (intro yields_bind [OF yields_any] gives_bindr [OF gives_any] gives_Done) simp
  qed
qed

subsection \<open>The handlers\<close>

abbreviation isolated :: "string \<Rightarrow> ('w, response) prog \<Rightarrow> bool" where
  "isolated b \<equiv> yields (\<lambda>r. only_of b (snd r))"

lemma only_of_errors [simp]:
  "only_of b (snd (BadRequest m))" "only_of b (snd (Unauthorized m))" "only_of b (snd (Forbidden m))"
  "only_of b (snd (NotFound m))" "only_of b (snd (Conflict m))" "only_of b (snd Internal)"
  by (simp_all add: responses)

lemma only_of_error_writers [simp]:
  "only_of b (snd (writePaymentError rt e))" "only_of b (snd (writeAPIKeyError rt e))"
  "only_of b (snd (writeWebhookEventError rt e))" "only_of b (snd (createInvoiceError rt e))"
  "only_of b (snd (getInvoiceError rt e))"
  by (simp_all add: writePaymentError_def writeAPIKeyError_def writeWebhookEventError_def createInvoiceError_def
      getInvoiceError_def Let_def)

lemma isolated_Done: "only_of b (snd r) \<Longrightarrow> isolated b (Done r)"
  by (rule yields_Done)

lemma isolated_respond:
  assumes "gives Q p" and "\<And>e. only_of b (snd (on_error e))" and "\<And>a. Q a \<Longrightarrow> only_of b (snd (ok a))"
  shows "isolated b (respond p on_error ok)"
  unfolding respond_def
  by (rule yields_bind [OF assms(1)]) (auto split: sum.splits intro!: isolated_Done assms(2,3))

lemma isolated_with_business: "isolated b (k b) \<Longrightarrow> isolated b (with_business (Some (b, i)) k)"
  by (simp add: with_business_def)

lemma isolated_handlers:
  assumes "parse_uuid rt b = Some b"
  shows "isolated b (handle_CreateCustomer rt ok body (Some (b, i)))"
    and "isolated b (handle_CreateAPIKey rt b' nm (Some (b, i)))"
    and "isolated b (handle_ListAPIKeys rt (Some (b, i)))"
    and "isolated b (handle_RevokeAPIKey rt j (Some (b, i)))"
    and "isolated b (handle_RotateAPIKey rt j (Some (b, i)))"
    and "isolated b (handle_CreateInvoice rt fs (Some (b, i)))"
    and "isolated b (handle_GetInvoice rt j (Some (b, i)))"
    and "isolated b (handle_ListEvents rt j (Some (b, i)))"
    and "isolated b (handle_GetEvent rt j (Some (b, i)))"
    and "isolated b (RedeliverEvent rt j (Some (b, i)))"
    and "isolated b (handle_GetPaymentAttempt S j (Some (b, i)))"
  unfolding handle_CreateCustomer_def handle_CreateAPIKey_def handle_ListAPIKeys_def handle_RevokeAPIKey_def
    handle_RotateAPIKey_def handle_CreateInvoice_def handle_GetInvoice_def handle_ListEvents_def handle_GetEvent_def
    RedeliverEvent_def handle_GetPaymentAttempt_def Let_def
  by (auto split: option.split
      intro!: isolated_with_business isolated_Done
        isolated_respond [OF gives_CreateCustomer] isolated_respond [OF gives_CreateAPIKey]
        isolated_respond [OF gives_ListAPIKeys] isolated_respond [OF gives_RevokeAPIKey]
        isolated_respond [OF gives_RotateAPIKey] isolated_respond [OF gives_CreateInvoice]
        isolated_respond [OF gives_GetInvoice] isolated_respond [OF gives_ListEvents]
        isolated_respond [OF gives_GetEvent] isolated_respond [OF gives_Redeliver]
        isolated_respond [OF gives_GetPaymentAttempt] assms)

lemma keeps_pay_isolated:
  assumes "uuid_ok (svc_rt S)" and "pay_I (svc_rt S) w" and "parse_uuid (svc_rt S) b = Some b"
  shows "keeps (svc_rt S) (\<lambda>r _. only_of b (snd r)) (handle_PayInvoice S i tok key (Some (b, j))) w"
proof -
  have L: "lasting (\<lambda>r _. only_of b (snd r))" by (auto simp: lasting_def)
  have D: "keeps (svc_rt S) (\<lambda>r _. only_of b (snd r)) (Done r) w'" if "only_of b (snd r)" for r w'
    by (rule keeps_Done [OF L that])
  show ?thesis
    unfolding handle_PayInvoice_def with_business_def respond_def
    by (auto split: option.split sum.split intro!: D keeps_bind [OF keeps_PayInvoice_business [OF assms] assms(2)])
qed

subsection \<open>The guarantee of a request\<close>

text \<open>The payment invariant and history together with those of the accounts.\<close>

definition tenant_I :: "runtime \<Rightarrow> 'p world \<Rightarrow> bool" where
  "tenant_I rt w \<longleftrightarrow> pay_inv rt (wdb w) \<and> accounts_ok rt (wdb w)"

definition tenant_R :: "runtime \<Rightarrow> 'p world \<Rightarrow> 'p world \<Rightarrow> bool" where
  "tenant_R rt u v \<longleftrightarrow> evolves (wdb u) (wdb v) \<and> account_step rt (wdb u) (wdb v)"

lemma tenant_I_alt: "tenant_I rt = (\<lambda>w. pay_I rt w \<and> accounts_ok rt (wdb w))"
  by (simp add: tenant_I_def [abs_def] pay_I_def [abs_def])

lemma tenant_R_alt: "tenant_R rt = (\<lambda>u v. pay_R u v \<and> accounts.along rt u v)"
  by (simp add: tenant_R_def [abs_def] pay_R_def [abs_def] accounts.along_def [abs_def])

interpretation tenants: rely_guarantee "tenant_I rt" "tenant_R rt" for rt
proof
  show "tenant_R rt w w" for w :: "'a world" by (simp add: tenant_R_def accounts.P_refl)
  show "tenant_R rt u v \<Longrightarrow> tenant_R rt v w \<Longrightarrow> tenant_R rt u w" for u v w :: "'a world"
    by (auto simp: tenant_R_def intro: evolves_trans accounts.P_trans)
qed

lemma tenant_keeps:
  assumes "keeps rt Q p w" and "stepwise (accounts.along rt) p" and "uuid_ok rt"
  shows "guar (tenant_I rt) (tenant_R rt) (\<lambda>a w. Q a (wdb w)) p w"
  unfolding tenant_I_alt tenant_R_alt
  by (rule guar_relation [OF assms(1) [unfolded keeps_def] assms(2)])
    (use assms(3) in \<open>auto simp: accounts.along_def account_step_def\<close>)

abbreviation answers_for :: "runtime \<Rightarrow> string \<Rightarrow> ('p world, response) prog \<Rightarrow> 'p world \<Rightarrow> bool" where
  "answers_for rt b p w \<equiv> guar (tenant_I rt) (tenant_R rt) (\<lambda>r _. only_of b (snd r)) p w"

lemma answers_isolated:
  assumes "keeps_inv rt p w" and "stepwise (accounts.along rt) p" and "uuid_ok rt" and "isolated b p"
  shows "answers_for rt b p w"
  using guar_yields [OF tenant_keeps [OF assms(1-3)] assms(4)] by simp

lemma answers_Done: "only_of b (snd r) \<Longrightarrow> answers_for rt b (Done r) w"
  by (rule guar_Done)

lemma APIKeyAuth_bearer:
  "APIKeyAuth rt (''Bearer '' @ token) =
     bindp (atom (exec_stmt (APIKeyRepository_GetByHash (sha256_hex rt token)))) (\<lambda>found. case found of
        Inl _ \<Rightarrow> Done (Inl ''invalid API key'') | Inr x \<Rightarrow> Done (Inr (Some (key_BusinessID x, key_ID x))))"
  by (simp add: APIKeyAuth_def authenticateAPIKey_def bindp_assoc key_context_def)
    (rule arg_cong [where f = "bindp _"], auto simp: fun_eq_iff key_context_def split: sum.split)

text \<open>The lookup of the token of a key that the state has.\<close>

lemma auth_of_key:
  assumes rt: "uuid_ok rt" and I: "tenant_I rt w" and k: "k \<in> set (api_keys (wdb w))" "sha256_hex rt token = key_KeyHash k"
  shows "guar (tenant_I rt) (tenant_R rt)
    (\<lambda>r _. case r of Inl _ \<Rightarrow> True | Inr ctx \<Rightarrow> ctx = Some (key_BusinessID k, key_ID k)) (APIKeyAuth rt (''Bearer '' @ token)) w"
proof -
  let ?q = "APIKeyRepository_GetByHash (sha256_hex rt token)"
  let ?Q = "\<lambda>r _. \<forall>x. r = Inr x \<longrightarrow> key_BusinessID x = key_BusinessID k \<and> key_ID x = key_ID k"
  have "guar (tenant_I rt) (tenant_R rt) ?Q (atom (exec_stmt ?q)) w"
  proof (rule tenants.guar_atom)
    fix w' assume R: "tenant_R rt w w'" and I': "tenant_I rt w'"
    have db: "wdb (snd (exec_stmt ?q w')) = wdb w'" by (rule exec_read_only) (rule account_read_only)
    have "keys_evolve (wdb w) (wdb w')"
      using R I rt by (auto simp: tenant_R_def tenant_I_def account_step_def)
    with k obtain k' where k': "k' \<in> set (api_keys (wdb w'))" "key_evolves k k'" by (auto simp: keys_evolve_def)
    have ok': "accounts_ok rt (wdb w')" using I' by (simp add: tenant_I_def)
    have h: "sha256_hex rt token = key_KeyHash k'" using k k' by (simp add: key_evolves_def)
    have "x = k'" if "fst (exec_stmt ?q w') = Inr x" for x
    proof -
      from that obtain w'' where "exec_stmt ?q w' = (Inr x, w'')" by (metis prod.collapse)
      from exec_stmt_Inr [OF this] GetByHash_key [OF ok' k'(1)] h show ?thesis
        by (simp split: if_splits)
    qed
    then have Q: "?Q (fst (exec_stmt ?q w')) w''" for w'' :: "'a world"
      using k'(2) unfolding key_evolves_def by metis
    have "tenant_I rt (snd (exec_stmt ?q w'))" using I' unfolding tenant_I_def db .
    moreover have "tenant_R rt w' (snd (exec_stmt ?q w'))" unfolding tenant_R_def db by (simp add: accounts.P_refl)
    ultimately show "tenant_I rt (snd (exec_stmt ?q w')) \<and> tenant_R rt w' (snd (exec_stmt ?q w'))
        \<and> (\<forall>w''. tenant_R rt (snd (exec_stmt ?q w')) w'' \<longrightarrow> tenant_I rt w'' \<longrightarrow> ?Q (fst (exec_stmt ?q w')) w'')"
      using Q by blast
  qed
  then have "guar (tenant_I rt) (tenant_R rt)
      (\<lambda>r _. case r of Inl _ \<Rightarrow> True | Inr ctx \<Rightarrow> ctx = Some (key_BusinessID k, key_ID k))
      (bindp (atom (exec_stmt ?q)) (\<lambda>found. case found of Inl _ \<Rightarrow> Done (Inl ''invalid API key'')
         | Inr x \<Rightarrow> Done (Inr (Some (key_BusinessID x, key_ID x))))) w"
  proof (rule tenants.guar_bind [OF _ I])
    fix r :: "APIKey result" and w' :: "'a world"
    assume Q: "\<forall>x. r = Inr x \<longrightarrow> key_BusinessID x = key_BusinessID k \<and> key_ID x = key_ID k"
    show "guar (tenant_I rt) (tenant_R rt)
        (\<lambda>r _. case r of Inl _ \<Rightarrow> True | Inr ctx \<Rightarrow> ctx = Some (key_BusinessID k, key_ID k))
        (case r of Inl _ \<Rightarrow> Done (Inl ''invalid API key'')
         | Inr x \<Rightarrow> Done (Inr (Some (key_BusinessID x, key_ID x)))) w'"
    proof (cases r)
      case (Inr x)
      with Q have "key_BusinessID x = key_BusinessID k" "key_ID x = key_ID k" by simp_all
      with Inr show ?thesis by (simp add: guar_Done)
    qed (simp add: guar_Done)
  qed
  then show ?thesis by (simp only: APIKeyAuth_bearer)
qed

text \<open>With a bearer header the optional authentication of POST /api-keys is the required one.\<close>

lemma OptionalAPIKeyAuth_bearer:
  "OptionalAPIKeyAuth rt (''Bearer '' @ token) = APIKeyAuth rt (''Bearer '' @ token)"
  by (simp add: OptionalAPIKeyAuth_def APIKeyAuth_def)

lemma answers_guarded:
  assumes "uuid_ok rt" and "tenant_I rt w" and "k \<in> set (api_keys (wdb w))" and "sha256_hex rt token = key_KeyHash k"
    and "\<And>w'. tenant_I rt w' \<Longrightarrow> answers_for rt (key_BusinessID k) (h (Some (key_BusinessID k, key_ID k))) w'"
  shows "answers_for rt (key_BusinessID k) (guarded (APIKeyAuth rt (''Bearer '' @ token)) h) w"
  unfolding guarded_def
proof (rule tenants.guar_bind [OF auth_of_key [OF assms(1-4)] assms(2)])
  fix r :: "string + auth_context" and w' :: "'a world" assume I: "tenant_I rt w'"
    and r: "case r of Inl _ \<Rightarrow> True | Inr ctx \<Rightarrow> ctx = Some (key_BusinessID k, key_ID k)"
  show "answers_for rt (key_BusinessID k) (case r of Inl m \<Rightarrow> Done (Unauthorized m) | Inr ctx \<Rightarrow> h ctx) w'"
    using r assms(5) [OF I] by (cases r) (simp_all add: answers_Done)
qed

lemma answers_route:
  assumes rt: "uuid_ok (srv_rt V)" and I: "tenant_I (srv_rt V) w"
    and k: "k \<in> set (api_keys (wdb w))" "sha256_hex (srv_rt V) token = key_KeyHash k"
    and req: "authorization req = Some (''Bearer '' @ token)"
  shows "answers_for (srv_rt V) (key_BusinessID k) (route V req) w"
proof -
  have b: "parse_uuid (srv_rt V) (key_BusinessID k) = Some (key_BusinessID k)"
    using I k(1) by (auto simp: tenant_I_def accounts_ok_def list_all_iff)
  note G = answers_guarded [OF rt I k]
  have h: "answers_for (srv_rt V) (key_BusinessID k) p w'"
    if "keeps_inv (srv_rt V) p w'" "stepwise (accounts.along (srv_rt V)) p" "isolated (key_BusinessID k) p"
    for p and w' :: "'a world"
    by (rule answers_isolated [OF that(1,2) rt that(3)])
  have pay: "answers_for (srv_rt V) (key_BusinessID k)
      (handle_PayInvoice (paymentService V) i tok key (Some (key_BusinessID k, j))) w'"
    if "tenant_I (srv_rt V) w'" for i tok key j w'
    using tenant_keeps [OF keeps_pay_isolated [of "paymentService V" w' "key_BusinessID k" i tok key j] accounts.ok_handlers(14)]
      rt b that by (simp add: tenant_I_alt)
  have inv: "pay_I (srv_rt V) w'" if "tenant_I (srv_rt V) w'" for w' :: "'a world"
    using that by (simp add: tenant_I_alt)
  note K = keeps_handlers [OF inv] keeps_handle_CreateInvoice [OF inv rt]
    keeps_payment_handlers(2) [where S = "paymentService V", unfolded svc_rt_paymentService, OF inv]
  show ?thesis
    using req
    by (cases req)
      (auto simp: authorization_def route_def Let_def OptionalAPIKeyAuth_bearer simp del: append.simps
        intro!: G pay h K accounts.ok_handlers isolated_handlers [OF b])
qed

subsection \<open>Isolation\<close>

text \<open>
  C5. Tenants are isolated: a request with the token of an API key is answered with rows of the key's business only,
  or with an error, from any reachable state on and whatever other handlers do between its
  steps. The rely of the guarantee, \<open>tenant_R\<close> and the invariant \<open>tenant_I\<close>, is what every execution of the server
  keeps. (POST /webhook-endpoints is not among these routes: it answers with the URL and secret it sets.)
\<close>

theorem tenant_isolation:
  assumes "uuid_ok (srv_rt V)" and "wdb w0 = empty_db"
    and "pool_reach (Arrives V) Environment ([], w0) (ps, w)"
    and "k \<in> set (api_keys (wdb w))" and "sha256_hex (srv_rt V) token = key_KeyHash k"
    and "authorization req = Some (''Bearer '' @ token)"
  shows "guar (tenant_I (srv_rt V)) (tenant_R (srv_rt V)) (\<lambda>r _. only_of (key_BusinessID k) (snd r)) (route V req) w
    \<and> only_of (key_BusinessID k) (snd (fst (run (route V req) w)))
    \<and> (\<forall>ps' w'. pool_reach (Arrives V) Environment (ps, w) (ps', w') \<longrightarrow> tenant_I (srv_rt V) w' \<and> tenant_R (srv_rt V) w w')"
proof (intro conjI allI impI)
  have I: "tenant_I (srv_rt V) w"
    using reachable_pay_inv [OF assms(1-3)] reach_accounts(1) [OF assms(1-3) pool_refl] by (simp add: tenant_I_def)
  show g: "guar (tenant_I (srv_rt V)) (tenant_R (srv_rt V)) (\<lambda>r _. only_of (key_BusinessID k) (snd r)) (route V req) w"
    by (rule answers_route [OF assms(1) I assms(4-6)])
  from tenants.guar_run [OF g I] show "only_of (key_BusinessID k) (snd (fst (run (route V req) w)))" by simp
  fix ps' w' assume r: "pool_reach (Arrives V) Environment (ps, w) (ps', w')"
  show "tenant_I (srv_rt V) w'"
    using reachable_pay_inv [OF assms(1,2) pool_reach_trans [OF assms(3) r]] reach_accounts(2) [OF assms(1-3) r]
    by (simp add: tenant_I_def)
  show "tenant_R (srv_rt V) w w'"
    using reachable_evolves [OF assms(1-3) r] accounts.reach_P(2) [OF assms(3) refl r] by (simp add: tenant_R_def)
qed

text \<open>The business of the demo reads its invoice; its key was issued in the setup.\<close>

theorem tenant_isolation_witness:
  "only_of ''u0'' (snd (fst (run (route demo_server (GetInvoices ''Bearer dodo_live_rand1'' ''u3''))
      (snd (serve demo_server demo_setup demo_start)))))
   \<and> fst (fst (run (route demo_server (GetInvoices ''Bearer dodo_live_rand1'' ''u3''))
      (snd (serve demo_server demo_setup demo_start)))) = 200"
proof -
  let ?w = "snd (serve demo_server demo_setup demo_start)"
  obtain ps where r: "pool_reach (Arrives demo_server) Environment ([], demo_start) (ps, ?w)"
    using serve_reach by blast
  have "map (\<lambda>k. (key_KeyHash k, key_BusinessID k)) (api_keys (wdb ?w)) = [(''dodo_live_rand1'', ''u0'')]" by code_simp
  then obtain k where k: "k \<in> set (api_keys (wdb ?w))" "key_KeyHash k = ''dodo_live_rand1''" "key_BusinessID k = ''u0''" by auto
  have "fst (fst (run (route demo_server (GetInvoices ''Bearer dodo_live_rand1'' ''u3'')) ?w)) = 200" by code_simp
  moreover have "only_of (key_BusinessID k) (snd (fst (run (route demo_server (GetInvoices ''Bearer dodo_live_rand1'' ''u3'')) ?w)))"
    by (rule tenant_isolation [OF demo_start_ok(1,2) r k(1), of "''dodo_live_rand1''", THEN conjunct2, THEN conjunct1])
      (simp_all add: k authorization_def)
  ultimately show ?thesis by (simp only: k)
qed

end
