(* ===== verification/Spec2Isabelle.thy ===== *)
theory Spec2Isabelle
  imports Payment_Webhooks Outbox_Drains Provider_Webhook Paid_Means_Charged
    Migration_Safety Tenant_Isolation
begin

text \<open>
  The dodo payment gateway: an HTTP server (\<open>cmd/server\<close>) through which businesses issue
  invoices and charge cards for them at a payment provider, the mock provider the repository
  ships (\<open>cmd/mock-psp\<close>), and the tables they share in PostgreSQL.

  \<^bold>\<open>The program and its parts.\<close> A request passes the middleware that looks up its API key, a
  handler that validates it, a service, and the repositories, each method of which is one SQL
  statement. A payment locks the invoice and creates a pending attempt with an idempotency key in
  one transaction, charges the provider with the attempt's identifier as the idempotency key, and
  settles the attempt: success in one transaction with the invoice and an event for the merchant,
  failure in two statements. The provider also reports successes by signed webhooks. A worker
  delivers the queued events to the merchants' endpoints, signed, with a retry schedule. At its start the
  server brings the schema up to date from a directory of SQL files.

  \<^bold>\<open>How it is modelled.\<close> \<open>Model\<close> has the structs and status strings of \<open>internal/model\<close> as records and
  datatypes, the tables as the lists of the record \<open>db\<close>, errors as the datatypes \<open>dberr\<close> and \<open>goerr\<close>.
  \<open>Runtime\<close> has the shared state \<open>world\<close>: the tables, the clock, the identifiers drawn, the fate of the
  statements to come (delivered, lost on the way to the database, or lost on the way back), and
  the state of the provider; what the code calls and does not define (hashes, uuids, JSON, the
  driver's error texts, Unicode tables) are the fields of the record \<open>runtime\<close>. A handler is a \<open>prog\<close> (\<open>Resumption\<close>):
  finished, or one atomic step and a continuation. \<open>run\<close> is its sequential meaning; \<open>pool_step\<close> interleaves
  any number of handlers between their steps, so a reachable state is also what a crash leaves. Statements and
  transactions are atomic steps.

  \<^bold>\<open>The call of the provider\<close> is no atomic step. \<open>psp_Charge\<close> sends the request in one step and goes on with an answer or an
  error in a later one; other handlers and the provider run between the two. Where the shipped provider is put behind the
  client (\<open>Mock_Transport\<close>), it runs concurrently with the gateway: a request that was sent is delivered at any later time, more
  than once or never, every request that was delivered makes its own steps of \<open>advance\<close> (a retry waits for the
  entry of the first request), and neither depends on whether the client still waits. So charges
  complete after the client's timeout, and calls under one key overlap.

  \<^item> \<open>Repo_Payments\<close>, \<open>Repo_Events\<close>, \<open>Repo_Accounts\<close>: \<open>internal/repository\<close>, one definition per statement, with the
    constraints of \<open>migrations/*.sql\<close>.
  \<^item> \<open>Payment_Service\<close>, \<open>Accounts\<close>, \<open>Webhook_Service\<close>: \<open>internal/service\<close>. \<open>PSP\<close>: \<open>internal/psp\<close>. \<open>Signature\<close>, \<open>Retry\<close>:
    \<open>internal/webhook\<close>. \<open>Dispatcher\<close>: \<open>internal/worker\<close>. \<open>Auth\<close>: \<open>internal/middleware/auth.go\<close>. \<open>Handlers\<close>: \<open>internal/handler\<close> and
    \<open>internal/httperr\<close>. \<open>Server\<close>: \<open>cmd/server/main.go\<close>, with the routes and what may arrive at any time.
  \<^item> \<open>Mock_PSP\<close>: \<open>cmd/mock-psp/main.go\<close>, a state machine of concurrent requests over a cache of entries, and its
    notification loop. \<open>Migrations\<close>: \<open>internal/database/migrate.go\<close>.

  \<^bold>\<open>What the lemmas show.\<close>

  \<^item> \<open>Payment_Invariant\<close> states the invariant \<open>pay_inv\<close> of the payment tables and their evolution; \<open>Payment_Effects\<close> and
    \<open>Payment_Steps\<close> show it for each transaction and statement, \<open>Payment_Guarantee\<close> for the handlers under interference (locale
    \<open>rely_guarantee\<close>), \<open>Server_Safety\<close> and \<open>Gateway\<close> for the whole server (locale \<open>handler_pool\<close>), and \<open>Safety\<close> draws the properties.
  \<^item> \<open>Payment_Replay\<close>, \<open>Payment_Charge\<close>, \<open>Payment_Webhooks\<close>: what a payment, its retries and a webhook do on every branch.
    \<open>Signature_Facts\<close>, \<open>Delivery\<close>, \<open>Outbox_Drains\<close>: signatures and the replay window, the dispatcher and that
    its loop empties the queue.
  \<^item> \<open>Mock_PSP_Facts\<close>, \<open>Mock_PSP_Cards\<close> and \<open>Mock_PSP_Safety\<close>: the provider charges once per key, answers everything, and answers
    what the card deserves. \<open>Provider_Webhook\<close>: its notification settles the payment at the gateway.
  \<^item> \<open>Charge_Contract\<close> and \<open>Charge_Once\<close> state what the gateway needs of a provider, the locale \<open>charge_contract\<close>. \<open>Payment_Walk\<close>
    (locale \<open>payment_walk\<close>) takes \<open>PayInvoice\<close> through its statements once for every invariant, \<open>Quiet_Steps\<close> the other handlers, and
    \<open>Ledger_Pool\<close> has the server over any such provider: the provider's ledger of the requests that were sent and the charges that were
    made stays in order. \<open>Mock_Transport\<close> interprets the locale on the shipped provider over a lossy network, and
    \<open>No_Double_Charge\<close> is the result for the two programs together.
  \<^item> \<open>Charge_Confirmed\<close> and \<open>Confirmed_Pool\<close>: the locale \<open>confirmed_contract\<close> adds what a success of the provider means, and the
    server records successes of charged attempts only; \<open>Paid_Means_Charged\<close> is the result over the shipped provider.
  \<^item> \<open>Account_Steps\<close> (locale \<open>account_history\<close>), \<open>Account_History\<close>, \<open>Account_Safety\<close>: businesses, customers and API keys over every
    interleaving. \<open>Tenants\<close> and \<open>Tenant_Isolation\<close>: answers contain rows of the caller's business only.
  \<^item> \<open>Migration_Safety\<close>: the runner refines the step that applies the next file, and finishes.

  \<^bold>\<open>Bounds.\<close> \<open>DispatcherRun\<close> runs the polling loop, which never ends in the program, for a number of ticks that every
  property leaves open; a request of the provider needs at most four steps, and how many it has made at any time is left open
  too. Amounts
  and times are integers; the places where Go's 64-bit arithmetic matters (\<open>time.Duration\<close> in the replay window,
  \<open>strconv.ParseInt\<close>) write it out. No other definition has fuel.

  \<^bold>\<open>Assumptions.\<close> Stated as hypotheses where used: \<open>uuid_ok\<close> (the database reads its own spelling of a uuid back
  as itself), freshness of identifiers, \<open>hash_ok\<close> (no collisions). The transactions of the code lock the invoice row first and all
  other writers of these rows are single conditional statements, which is why a transaction is one step.

  The type system of PostgreSQL is in \<open>Repo_Events\<close> as far as the event list needs it: there is no operator that compares a uuid with
  a text, so the list's query fails.

  \<^bold>\<open>Not modelled.\<close> Opening the connection pool (\<open>internal/database/postgres.go\<close>) and the driver's interface
  (\<open>internal/repository/db.go\<close>), the request logger, JSON encoding and decoding (a request carries its decoded
  fields), the HTTP server itself and log lines. The effect of an SQL file on the schema is a parameter of \<open>Migrations\<close>; two servers that migrate at the
  same time are not considered.
\<close>

end
